(* ===== verification/Prelude.thy ===== *)
theory Prelude
  imports
    Main
    "HOL-Library.Word"
    "HOL-Library.Multiset"
    "HOL-Library.Monad_Syntax"
begin

text \<open>
  The shared vocabulary of the development: the fixed-width integer types of the C sources
  (the target is RV32IM with the ilp32 ABI, so \<open>int\<close>, \<open>long\<close> and pointers have 32 bits),
  the fact collections the component theories extend, and the lemmas on words, lists and
  options that several components use.
\<close>

unbundle bit_operations_syntax

section \<open>Integer types of the target\<close>

type_synonym u8 = "8 word"
type_synonym u16 = "16 word"
type_synonym u32 = "32 word"
type_synonym u64 = "64 word"

text \<open>
  Signed C types have the same representation; where the source compares or divides signed
  values the model reads them with \<open>sint\<close> or uses the signed orders \<open><s\<close> and \<open>\<le>s\<close>.
\<close>

type_synonym s16 = "16 word"
type_synonym s32 = "32 word"

named_theorems mmio_simps \<open>evaluation of memory-mapped register accesses\<close>
named_theorems crc_simps \<open>algebra of the CRC step\<close>
named_theorems fmt_simps \<open>evaluation of the formatted printer\<close>

section \<open>Words\<close>

lemma and_one_eq_one_iff: "(x AND 1 = (1 :: 'a::len word)) \<longleftrightarrow> bit x 0"
  by (simp add: and_one_eq bit_0 odd_iff_mod_2_eq_one)

lemma and_one_cases: "x AND (1 :: 'a::len word) = (if bit x 0 then 1 else 0)"
  by (simp add: and_one_eq bit_0 mod_2_eq_odd)

lemma xor_low_bits_eq_one_iff:
  "((x AND 1) XOR (y AND 1) = (1 :: 'a::len word)) \<longleftrightarrow> bit x 0 \<noteq> bit y 0"
  by (simp add: and_one_cases)

lemma or_eq_xor_if_disjoint: "x AND y = 0 \<Longrightarrow> x OR y = x XOR (y :: 'a::len word)"
  by (metis disjunctive_xor_eq_or)

lemma xor_if_if:
  "(if p then k else 0) XOR (if q then k else (0 :: 'a::len word)) = (if p \<noteq> q then k else 0)"
  by simp

lemma word_eq_iff_xor_zero: "x XOR y = (0 :: 'a::len word) \<longleftrightarrow> x = y"
  by (metis xor.left_neutral xor.right_neutral xor_self_eq xor.assoc)

lemma xor_left_cancel: "a XOR x = a XOR y \<longleftrightarrow> x = (y :: 'a::len word)"
  by (metis xor.assoc xor.left_neutral xor_self_eq)

lemma xor_right_cancel: "x XOR a = y XOR a \<longleftrightarrow> x = (y :: 'a::len word)"
  by (metis xor.commute xor_left_cancel)

lemma not_bit_8 [simp]: "\<not> bit (w :: 8 word) 8"
  and not_bit_16 [simp]: "\<not> bit (x :: 16 word) 16"
  and not_bit_32 [simp]: "\<not> bit (y :: 32 word) 32"
  by (auto dest: bit_imp_le_length)

lemma slice_ucast: "slice n w = ucast (drop_bit n w)" for w :: "'a::len word"
proof (rule bit_word_eqI)
  fix k
  show "bit (slice n w :: 'b word) k \<longleftrightarrow> bit (ucast (drop_bit n w) :: 'b word) k" if "k < LENGTH('b)"
  proof (cases "k + n < LENGTH('a)")
    case True
    then have "k + LENGTH('a) - (LENGTH('a) - n) = k + n" by simp
    with True that show ?thesis by (simp add: bit_simps add.commute [of n]) arith
  next
    case False
    then show ?thesis by (auto simp: bit_simps dest: bit_imp_le_length)
  qed
qed

lemma unat_ucast_up:
  fixes w :: "'a::len word"
  assumes "LENGTH('a) \<le> LENGTH('b::len)"
  shows "unat (ucast w :: 'b word) = unat w"
proof -
  have "unat w < 2 ^ LENGTH('a)" by (rule unsigned_less)
  also have "\<dots> \<le> 2 ^ LENGTH('b)" using assms by (simp add: power_increasing)
  finally show ?thesis by (simp add: unsigned_ucast_eq take_bit_nat_eq_self)
qed

lemma ucast_ucast_up:
  fixes w :: "'a::len word"
  assumes "LENGTH('a) \<le> LENGTH('b::len)"
  shows "ucast (ucast w :: 'b word) = w"
  using assms by (intro bit_word_eqI) (auto simp: bit_ucast_iff)

section \<open>Lists\<close>

lemma take_Suc_conv_app_nth': "i < length xs \<Longrightarrow> take i xs @ xs ! i # ys = take (Suc i) xs @ ys"
  by (simp add: take_Suc_conv_app_nth)

section \<open>Option\<close>

lemma bind_Some_iff: "Option.bind x f = Some y \<longleftrightarrow> (\<exists>a. x = Some a \<and> f a = Some y)"
  by (cases x) auto

end
