(* ===== verification/Printf.thy ===== *)
theory Printf
  imports Prelude
begin

text \<open>
  The formatted printer of \<^verbatim>\<open>software/driver/src/printf.c\<close>. A function \<open>putch\<close> that consumes
  one \<open>int\<close> is a parameter, as in the source; \<open>vprintfmt\<close> threads the state \<open>putdat\<close> points
  to. A format is the list of its bytes before the terminating NUL. The variadic arguments are
  a list; \<open>None\<close> is undefined behaviour of the C program (a missing or wrongly typed argument, an
  overflowing field width, an access outside a local array). Double arithmetic is performed by
  the compiler's run-time library, which is not part of the repository: the two operations the
  source uses are the parameter \<open>fp_ops\<close>.
\<close>

unbundle bit_operations_syntax

section \<open>Data\<close>

datatype vararg =
    VInt u32                \<comment> \<open>an \<open>int\<close>, \<open>unsigned\<close>, \<open>long\<close> or pointer passed by value\<close>
  | VStr "string option"    \<comment> \<open>a \<open>char *\<close> and the string it points to, or \<open>NULL\<close>\<close>
  | VDouble u64             \<comment> \<open>the bits of a \<open>double\<close>\<close>

record fp_ops =
  fp_mul10 :: "u64 \<Rightarrow> u64"      \<comment> \<open>\<open>d * 10\<close>\<close>
  fp_to_ulong :: "u64 \<Rightarrow> u32"   \<comment> \<open>\<open>(unsigned long) d\<close>\<close>

text \<open>The local variables of \<open>vprintfmt\<close> that one escape sequence sets.\<close>

record fmt_spec =
  f_padc :: char
  f_width :: int
  f_precision :: int
  f_lflag :: nat
  f_altflag :: nat

text \<open>\<open>*p\<close> at a string: the first byte, or NUL at its end.\<close>

definition cur :: "string \<Rightarrow> char" where
  "cur s = (case s of [] \<Rightarrow> CHR 0x00 | c # _ \<Rightarrow> c)"

definition ascii :: "char \<Rightarrow> u32" where
  "ascii c = of_char c"

section \<open>Output callbacks\<close>

text \<open>\<open>sprintf_putch\<close>: store the byte through the pointer, then advance it.\<close>

record sprintf_state =
  sp_mem :: "u32 \<Rightarrow> u8"
  sp_ptr :: u32

definition sprintf_putch :: "u32 \<Rightarrow> sprintf_state \<Rightarrow> sprintf_state" where
  "sprintf_putch ch st = st\<lparr>sp_mem := (sp_mem st)(sp_ptr st := ucast ch), sp_ptr := sp_ptr st + 1\<rparr>"

section \<open>Arguments\<close>

text \<open>On ilp32 \<open>long\<close> and \<open>int\<close> have the same size, so the two branches read the same word.\<close>

fun getuint :: "vararg list \<Rightarrow> nat \<Rightarrow> (u32 \<times> vararg list) option" where
  "getuint (VInt v # ap) lflag = (if lflag \<noteq> 0 then Some (v, ap) else Some (v, ap))"
| "getuint _ lflag = None"

fun getint :: "vararg list \<Rightarrow> nat \<Rightarrow> (u32 \<times> vararg list) option" where
  "getint (VInt v # ap) lflag = (if lflag \<noteq> 0 then Some (v, ap) else Some (v, ap))"
| "getint _ lflag = None"

fun get_str :: "vararg list \<Rightarrow> (string option \<times> vararg list) option" where
  "get_str (VStr p # ap) = Some (p, ap)"
| "get_str _ = None"

fun get_double :: "vararg list \<Rightarrow> (u64 \<times> vararg list) option" where
  "get_double (VDouble v # ap) = Some (v, ap)"
| "get_double _ = None"

section \<open>Numbers\<close>

text \<open>
  The digit loop of \<open>printnum\<close>, least significant digit first. The bases of the callers are
  8, 10 and 16; a base below 2 would divide by zero or never end, and stops here at once.
\<close>

function printnum_digs :: "u32 \<Rightarrow> u32 \<Rightarrow> u32 list" where
  "printnum_digs num base =
     (if num < base \<or> base < 2 then [num mod base]
      else num mod base # printnum_digs (num div base) base)"
  by pat_completeness auto
termination
proof (relation "measure (\<lambda>(num, base). unat num)")
  fix num base :: u32
  assume "\<not> (num < base \<or> base < 2)"
  then have b: "2 \<le> unat base" and n: "unat base \<le> unat num"
    by (auto simp: word_less_nat_alt not_less)
  then have "unat num div unat base < unat num"
    by (intro div_less_dividend) auto
  then show "((num div base, base), num, base) \<in> measure (\<lambda>(num, base). unat num)"
    by (simp add: unat_div)
qed simp

declare printnum_digs.simps [simp del]

text \<open>\<open>while (n-- > 0) putch(c, putdat)\<close> and \<open>for (; n > 0; n--) putch(c, putdat)\<close>.\<close>

function pad_loop :: "(u32 \<Rightarrow> 'd \<Rightarrow> 'd) \<Rightarrow> u32 \<Rightarrow> int \<Rightarrow> 'd \<Rightarrow> 'd" where
  "pad_loop putch c n d = (if n > 0 then pad_loop putch c (n - 1) (putch c d) else d)"
  by pat_completeness auto
termination
  by (relation "measure (\<lambda>(putch, c, n, d). nat n)") auto

declare pad_loop.simps [simp del]

definition digit_char :: "u32 \<Rightarrow> u32" where
  "digit_char dig = dig + (if dig \<ge> 10 then ascii CHR ''a'' - 10 else ascii CHR ''0'')"

text \<open>\<open>while (pos-- > 0) putch(...)\<close>: the digits are read from the last stored one down.\<close>

fun put_digs :: "(u32 \<Rightarrow> 'd \<Rightarrow> 'd) \<Rightarrow> u32 list \<Rightarrow> 'd \<Rightarrow> 'd" where
  "put_digs putch [] d = d"
| "put_digs putch (dig # digs) d = putch (digit_char dig) (put_digs putch digs d)"

definition printnum :: "(u32 \<Rightarrow> 'd \<Rightarrow> 'd) \<Rightarrow> u32 \<Rightarrow> u32 \<Rightarrow> int \<Rightarrow> char \<Rightarrow> 'd \<Rightarrow> 'd" where
  "printnum putch num base width padc d =
     (let digs = printnum_digs num base;
          pos = int (length digs);
          d = pad_loop putch (ascii padc) (width - pos) d
      in put_digs putch digs d)"

text \<open>
  \<open>print_double\<close>. The digits of the scaled value are printed into the local array \<open>buf\<close> of 32
  bytes through \<open>sprintf_putch\<close>; \<open>n\<close> bytes are then in use and \<open>pbuf\<close> is \<open>buf + n\<close>. The array is
  a function on indices; an access outside it is \<open>None\<close>.
\<close>

definition buf_store :: "int \<Rightarrow> u8 \<Rightarrow> (int \<Rightarrow> u8) \<Rightarrow> (int \<Rightarrow> u8) option" where
  "buf_store i c buf = (if 0 \<le> i \<and> i < 32 then Some (buf(i := c)) else None)"

definition buf_load :: "int \<Rightarrow> (int \<Rightarrow> u8) \<Rightarrow> u8 option" where
  "buf_load i buf = (if 0 \<le> i \<and> i < 32 then Some (buf i) else None)"

text \<open>\<open>printnum(sprintf_putch, \<dots>)\<close> with \<open>data\<close> pointing into the local array.\<close>

definition buf_putch :: "u32 \<Rightarrow> ((int \<Rightarrow> u8) \<times> int) option \<Rightarrow> ((int \<Rightarrow> u8) \<times> int) option" where
  "buf_putch ch st = do {
     (buf, p) \<leftarrow> st;
     buf \<leftarrow> buf_store p (ucast ch) buf;
     Some (buf, p + 1)
   }"

text \<open>\<open>for (i = 0; i < prec; i++) pbuf[-i] = pbuf[-i-1]\<close>.\<close>

function shift_loop :: "int \<Rightarrow> int \<Rightarrow> int \<Rightarrow> (int \<Rightarrow> u8) \<Rightarrow> (int \<Rightarrow> u8) option" where
  "shift_loop i prec pbuf buf =
     (if i < prec then do {
        c \<leftarrow> buf_load (pbuf - i - 1) buf;
        buf \<leftarrow> buf_store (pbuf - i) c buf;
        shift_loop (i + 1) prec pbuf buf
      } else Some buf)"
  by pat_completeness auto
termination
  by (relation "measure (\<lambda>(i, prec, pbuf, buf). nat (prec - i))") auto

declare shift_loop.simps [simp del]

text \<open>\<open>for (p = buf; p < pbuf; p++) putch( *p, putdat)\<close>.\<close>

function put_buf :: "(u32 \<Rightarrow> 'd \<Rightarrow> 'd) \<Rightarrow> int \<Rightarrow> int \<Rightarrow> (int \<Rightarrow> u8) \<Rightarrow> 'd \<Rightarrow> 'd option" where
  "put_buf putch p pbuf buf d =
     (if p < pbuf then do {
        c \<leftarrow> buf_load p buf;
        put_buf putch (p + 1) pbuf buf (putch (ucast c) d)
      } else Some d)"
  by pat_completeness auto
termination
  by (relation "measure (\<lambda>(putch, p, pbuf, buf, d). nat (pbuf - p))") auto

declare put_buf.simps [simp del]

definition print_double ::
  "fp_ops \<Rightarrow> (u32 \<Rightarrow> 'd \<Rightarrow> 'd) \<Rightarrow> u64 \<Rightarrow> int \<Rightarrow> int \<Rightarrow> 'd \<Rightarrow> 'd option" where
  "print_double fp putch num width prec d = do {
     let (u, d) = (if bit num 63 then (num AND NOT (push_bit 63 1), putch (ascii CHR ''-'') d)
                   else (num, d));
     let u = (fp_mul10 fp ^^ nat prec) u;
     (buf, pbuf) \<leftarrow> printnum buf_putch (fp_to_ulong fp u) 10 0 (CHR 0x00) (Some ((\<lambda>_. 0), 0));
     (buf, pbuf) \<leftarrow> (if prec > 0 then do {
         buf \<leftarrow> shift_loop 0 prec pbuf buf;
         buf \<leftarrow> buf_store (pbuf - prec) (of_char CHR ''.'') buf;
         Some (buf, pbuf + 1)
       } else Some (buf, pbuf));
     put_buf putch 0 pbuf buf d
   }"

section \<open>Strings\<close>

text \<open>\<open>for (; (ch = *p) != '\0' && (precision < 0 || --precision >= 0); width--) { putch(ch); p++; }\<close>,
  returning the remaining \<open>width\<close>.\<close>

fun put_chars :: "(u32 \<Rightarrow> 'd \<Rightarrow> 'd) \<Rightarrow> string \<Rightarrow> int \<Rightarrow> int \<Rightarrow> 'd \<Rightarrow> int \<times> 'd" where
  "put_chars putch [] precision width d = (width, d)"
| "put_chars putch (c # p) precision width d =
     (if precision < 0 then put_chars putch p precision (width - 1) (putch (ascii c) d)
      else if precision - 1 \<ge> 0 then put_chars putch p (precision - 1) (width - 1) (putch (ascii c) d)
      else (width, d))"

text \<open>\<open>strnlen(p, precision)\<close>: a negative \<open>precision\<close> is a huge \<open>size_t\<close>.\<close>

definition strnlen :: "string \<Rightarrow> int \<Rightarrow> int" where
  "strnlen p n = (if n < 0 then int (length p) else min (int (length p)) n)"

definition put_str ::
  "(u32 \<Rightarrow> 'd \<Rightarrow> 'd) \<Rightarrow> string option \<Rightarrow> int \<Rightarrow> int \<Rightarrow> char \<Rightarrow> 'd \<Rightarrow> 'd" where
  "put_str putch p width precision padc d =
     (let p = (case p of None \<Rightarrow> ''(null)'' | Some s \<Rightarrow> s);
          (width, d) =
            (if width > 0 \<and> padc \<noteq> CHR ''-''
             then let width = width - strnlen p precision
                  in (min width 0, pad_loop putch (ascii padc) width d)
             else (width, d));
          (width, d) = put_chars putch p precision width d
      in pad_loop putch (ascii CHR '' '') width d)"

section \<open>The format interpreter\<close>

text \<open>
  The digits of a field width, from the first digit \<open>ch\<close> on:
  \<open>for (precision = 0; ; ++fmt) { precision = precision * 10 + ch - '0'; ch = *fmt; if (no digit) break; }\<close>.
  A value beyond \<open>INT_MAX\<close> is signed overflow.
\<close>

definition is_digit :: "char \<Rightarrow> bool" where
  "is_digit c \<longleftrightarrow> ascii CHR ''0'' \<le> ascii c \<and> ascii c \<le> ascii CHR ''9''"

fun width_loop :: "int \<Rightarrow> char \<Rightarrow> string \<Rightarrow> (int \<times> string) option" where
  "width_loop precision ch fmt =
     (let precision = precision * 10 + uint (ascii ch) - uint (ascii CHR ''0'')
      in if precision > 2147483647 then None
         else case fmt of
             [] \<Rightarrow> Some (precision, fmt)
           | c # fmt' \<Rightarrow>
               if \<not> is_digit c then Some (precision, fmt) else width_loop precision c fmt')"

declare width_loop.simps [simp del]

lemma width_loop_length: "width_loop p ch fmt = Some (p', fmt') \<Longrightarrow> length fmt' \<le> length fmt"
proof (induction p ch fmt rule: width_loop.induct)
  case (1 p ch fmt)
  show ?case
    using "1.prems" "1.IH" [OF refl]
    by (subst (asm) width_loop.simps) (fastforce simp: Let_def split: if_splits list.splits)
qed

text \<open>The label \<open>process_precision\<close>.\<close>

definition process_precision :: "fmt_spec \<Rightarrow> fmt_spec" where
  "process_precision sp =
     (if f_width sp < 0 then sp\<lparr>f_width := f_precision sp, f_precision := -1\<rparr> else sp)"

text \<open>
  The conversions of the switch in \<open>vprintfmt\<close>, for the character \<open>ch\<close> just read; \<open>rest\<close> is the
  format pointer after it. The result is the format pointer after the escape, the remaining
  arguments and the output state; \<open>last_fmt\<close> is where the pointer goes back to when the escape
  is not recognised (the default case, label \<open>bad\<close>).
\<close>

definition fmt_number ::
  "(u32 \<Rightarrow> 'd \<Rightarrow> 'd) \<Rightarrow> string \<Rightarrow> fmt_spec \<Rightarrow> u32 \<times> vararg list \<Rightarrow> u32 \<Rightarrow> 'd
    \<Rightarrow> string \<times> vararg list \<times> 'd" where
  "fmt_number putch rest sp num_ap base d =
     (rest, snd num_ap, printnum putch (fst num_ap) base (f_width sp) (f_padc sp) d)"

definition fmt_bad :: "(u32 \<Rightarrow> 'd \<Rightarrow> 'd) \<Rightarrow> string \<Rightarrow> vararg list \<Rightarrow> 'd \<Rightarrow> string \<times> vararg list \<times> 'd" where
  "fmt_bad putch last_fmt ap d = (last_fmt, ap, putch (ascii CHR ''%'') d)"

definition fmt_convert ::
  "fp_ops \<Rightarrow> (u32 \<Rightarrow> 'd \<Rightarrow> 'd) \<Rightarrow> string \<Rightarrow> char \<Rightarrow> string \<Rightarrow> fmt_spec \<Rightarrow> vararg list \<Rightarrow> 'd
    \<Rightarrow> (string \<times> vararg list \<times> 'd) option" where
  "fmt_convert fp putch last_fmt ch rest sp ap d =
     (if ch = CHR ''c'' then do {
        (v, ap) \<leftarrow> getint ap 0;
        Some (rest, ap, putch v d)
      }
      else if ch = CHR ''f'' then do {
        (v, ap) \<leftarrow> get_double ap;
        d \<leftarrow> print_double fp putch v (f_width sp) (f_precision sp) d;
        Some (rest, ap, d)
      }
      else if ch = CHR ''s'' then do {
        (p, ap) \<leftarrow> get_str ap;
        Some (rest, ap, put_str putch p (f_width sp) (f_precision sp) (f_padc sp) d)
      }
      else if ch = CHR ''d'' then do {
        (num, ap) \<leftarrow> getint ap (f_lflag sp);
        Some (if num <s 0
              then fmt_number putch rest sp (- num, ap) 10 (putch (ascii CHR ''-'') d)
              else fmt_number putch rest sp (num, ap) 10 d)
      }
      else if ch = CHR ''u'' then do {
        num_ap \<leftarrow> getuint ap (f_lflag sp);
        Some (fmt_number putch rest sp num_ap 10 d)
      }
      else if ch = CHR ''o'' then do {
        num_ap \<leftarrow> getuint ap (f_lflag sp);
        Some (fmt_number putch rest sp num_ap 8 d)
      }
      else if ch = CHR ''p'' then do {
        num_ap \<leftarrow> getuint ap 1;
        Some (fmt_number putch rest sp num_ap 16
          (putch (ascii CHR ''x'') (putch (ascii CHR ''0'') d)))
      }
      else if ch = CHR ''x'' then do {
        num_ap \<leftarrow> getuint ap (f_lflag sp);
        Some (fmt_number putch rest sp num_ap 16 d)
      }
      else if ch = CHR ''%'' then Some (rest, ap, putch (ascii ch) d)
      else Some (fmt_bad putch last_fmt ap d))"

text \<open>
  The flags and the field width, from the label \<open>reswitch\<close> on: the character that ends them, the
  format pointer after it, the variables set and the remaining arguments. No character (\<open>None\<close>)
  stands for the jump to \<open>bad\<close> on a second long flag.
\<close>

function fmt_flags ::
  "string \<Rightarrow> fmt_spec \<Rightarrow> vararg list \<Rightarrow> (char option \<times> string \<times> fmt_spec \<times> vararg list) option" where
  "fmt_flags fmt sp ap =
     (if cur fmt = CHR ''-'' then fmt_flags (tl fmt) (sp\<lparr>f_padc := CHR ''-''\<rparr>) ap
      else if cur fmt = CHR ''0'' then fmt_flags (tl fmt) (sp\<lparr>f_padc := CHR ''0''\<rparr>) ap
      else if is_digit (cur fmt) then
        (case width_loop 0 (cur fmt) (tl fmt) of
           None \<Rightarrow> None
         | Some (p, rest) \<Rightarrow> fmt_flags rest (process_precision (sp\<lparr>f_precision := p\<rparr>)) ap)
      else if cur fmt = CHR ''*'' then
        (case getint ap 0 of
           None \<Rightarrow> None
         | Some (v, ap) \<Rightarrow>
             fmt_flags (tl fmt) (process_precision (sp\<lparr>f_precision := sint v\<rparr>)) ap)
      else if cur fmt = CHR ''.'' then
        fmt_flags (tl fmt) (if f_width sp < 0 then sp\<lparr>f_width := 0\<rparr> else sp) ap
      else if cur fmt = CHR ''#'' then fmt_flags (tl fmt) (sp\<lparr>f_altflag := 1\<rparr>) ap
      else if cur fmt = CHR ''l'' then
        (if f_lflag sp \<noteq> 0 then Some (None, tl fmt, sp, ap) else fmt_flags (tl fmt) sp ap)
      else Some (Some (cur fmt), tl fmt, sp, ap))"
  by pat_completeness auto
termination
  by (relation "measure (\<lambda>(fmt, sp, ap). length fmt)")
    (auto simp: cur_def is_digit_def ascii_def dest: width_loop_length split: list.splits)

declare fmt_flags.simps [simp del]

text \<open>One %-escape.\<close>

definition fmt_escape ::
  "fp_ops \<Rightarrow> (u32 \<Rightarrow> 'd \<Rightarrow> 'd) \<Rightarrow> string \<Rightarrow> string \<Rightarrow> fmt_spec \<Rightarrow> vararg list \<Rightarrow> 'd
    \<Rightarrow> (string \<times> vararg list \<times> 'd) option" where
  "fmt_escape fp putch last_fmt fmt sp ap d =
     (case fmt_flags fmt sp ap of
        None \<Rightarrow> None
      | Some (None, rest, sp, ap) \<Rightarrow> Some (fmt_bad putch last_fmt ap d)
      | Some (Some ch, rest, sp, ap) \<Rightarrow> fmt_convert fp putch last_fmt ch rest sp ap d)"

lemma cur_neq_NUL: "cur s \<noteq> CHR 0x00 \<Longrightarrow> length (tl s) < length s"
  by (cases s) (auto simp: cur_def)

lemma is_digit_neq_NUL: "is_digit (cur s) \<Longrightarrow> cur s \<noteq> CHR 0x00"
  by (auto simp: is_digit_def ascii_def)

lemma fmt_convert_length:
  "fmt_convert fp putch last_fmt ch rest sp ap d = Some (fmt', ap', d') \<Longrightarrow>
     length fmt' \<le> max (length last_fmt) (length rest)"
  by (auto simp: fmt_convert_def fmt_number_def fmt_bad_def bind_Some_iff split: if_splits)

lemma fmt_flags_length:
  "fmt_flags fmt sp ap = Some (ch, rest, sp', ap') \<Longrightarrow> length rest \<le> length fmt"
proof (induction "length fmt" arbitrary: fmt sp ap rule: less_induct)
  case less
  have IH: "length rest \<le> length fmt"
    if "fmt_flags f s a = Some (ch, rest, sp', ap')" and "length f < length fmt" for f s a
    using less.hyps [OF that(2) that(1)] that(2) by simp
  have wl: "length r < length fmt"
    if "width_loop 0 (cur fmt) (tl fmt) = Some (p, r)" and "is_digit (cur fmt)" for p r
    using width_loop_length [OF that(1)] cur_neq_NUL [OF is_digit_neq_NUL [OF that(2)]] by simp
  have tl: "length (tl fmt) \<le> length fmt" by simp
  show ?case
    using less.prems cur_neq_NUL [of fmt] tl
    by (subst (asm) fmt_flags.simps)
      (auto split: if_splits option.splits intro: IH wl simp del: length_tl)
qed

lemma fmt_escape_length:
  "fmt_escape fp putch last_fmt fmt sp ap d = Some (fmt', ap', d') \<Longrightarrow>
     length fmt' \<le> max (length last_fmt) (length fmt)"
  by (fastforce simp: fmt_escape_def fmt_bad_def split: option.splits
      dest: fmt_flags_length fmt_convert_length)

text \<open>The initial values of the escape's variables.\<close>

definition init_spec :: fmt_spec where
  "init_spec = \<lparr>f_padc = CHR '' '', f_width = -1, f_precision = -1, f_lflag = 0, f_altflag = 0\<rparr>"

function vprintfmt ::
  "fp_ops \<Rightarrow> (u32 \<Rightarrow> 'd \<Rightarrow> 'd) \<Rightarrow> string \<Rightarrow> vararg list \<Rightarrow> 'd \<Rightarrow> 'd option" where
  "vprintfmt fp putch fmt ap d =
     (if cur fmt \<noteq> CHR ''%'' then
        (if cur fmt = CHR 0x00 then Some d
         else vprintfmt fp putch (tl fmt) ap (putch (ascii (cur fmt)) d))
      else
        (case fmt_escape fp putch (tl fmt) (tl fmt) init_spec ap d of
           None \<Rightarrow> None
         | Some (fmt, ap, d) \<Rightarrow> vprintfmt fp putch fmt ap d))"
  by pat_completeness auto
termination
proof (relation "measure (\<lambda>(fp, putch, fmt, ap, d). length fmt)", goal_cases)
  case (2 fp putch fmt ap d)
  then show ?case using cur_neq_NUL [of fmt] by (simp del: length_tl)
next
  case (3 fp putch fmt ap d r fmt' r' ap' d')
  then have "length fmt' \<le> length (tl fmt)"
    by (auto dest: fmt_escape_length)
  moreover have "length (tl fmt) < length fmt"
    using 3 by (intro cur_neq_NUL) simp
  ultimately show ?case by simp
qed simp

declare vprintfmt.simps [simp del]

section \<open>The entry points\<close>

text \<open>
  \<open>__wrap_sprintf\<close>: the string pointer advances with every character; the result is the number of
  characters, after the terminating NUL has been stored.
\<close>

definition wrap_sprintf ::
  "fp_ops \<Rightarrow> u32 \<Rightarrow> string \<Rightarrow> vararg list \<Rightarrow> (u32 \<Rightarrow> u8) \<Rightarrow> (u32 \<times> (u32 \<Rightarrow> u8)) option" where
  "wrap_sprintf fp str fmt ap mem = do {
     let str0 = str;
     st \<leftarrow> vprintfmt fp sprintf_putch fmt ap \<lparr>sp_mem = mem, sp_ptr = str\<rparr>;
     let mem = (sp_mem st)(sp_ptr st := 0);
     Some (sp_ptr st - str0, mem)
   }"

text \<open>\<open>__wrap_printf\<close>, over any console state and its \<open>putchar\<close>; it always returns 0.\<close>

definition wrap_printf ::
  "fp_ops \<Rightarrow> (u32 \<Rightarrow> 'd \<Rightarrow> 'd) \<Rightarrow> string \<Rightarrow> vararg list \<Rightarrow> 'd \<Rightarrow> (u32 \<times> 'd) option" where
  "wrap_printf fp putchar fmt ap d = do {
     d \<leftarrow> vprintfmt fp putchar fmt ap d;
     Some (0, d)
   }"

section \<open>Every printer appends: closed forms over \<open>fold\<close>\<close>

text \<open>
  The characters a printer emits do not depend on the callback. \<open>collect\<close> is the callback that
  only records them; every function is then the callback folded over the recorded characters.
\<close>

definition collect :: "u32 \<Rightarrow> u32 list \<Rightarrow> u32 list" where
  "collect c cs = cs @ [c]"

lemma fold_collect [fmt_simps]: "fold collect cs ds = ds @ cs"
  by (induction cs arbitrary: ds) (auto simp: collect_def)

lemma pad_loop_fold [fmt_simps]: "pad_loop putch c n d = fold putch (replicate (nat n) c) d"
proof (induction putch c n d rule: pad_loop.induct)
  case (1 putch c n d)
  show ?case
  proof (cases "n > 0")
    case True
    then have "nat n = Suc (nat (n - 1))" by simp
    with True "1.IH" show ?thesis by (simp add: pad_loop.simps [of putch c n])
  next
    case False
    then show ?thesis by (simp add: pad_loop.simps [of putch c n])
  qed
qed

lemma put_digs_fold [fmt_simps]: "put_digs putch digs d = fold putch (map digit_char (rev digs)) d"
  by (induction digs arbitrary: d) auto

definition number_text :: "u32 \<Rightarrow> u32 \<Rightarrow> int \<Rightarrow> char \<Rightarrow> u32 list" where
  "number_text num base width padc =
     replicate (nat (width - int (length (printnum_digs num base)))) (ascii padc)
       @ map digit_char (rev (printnum_digs num base))"

lemma printnum_fold [fmt_simps]:
  "printnum putch num base width padc d = fold putch (number_text num base width padc) d"
  by (simp add: printnum_def number_text_def Let_def pad_loop_fold put_digs_fold)

lemma put_chars_fold:
  "put_chars putch p precision width d =
     (let t = (if precision < 0 then p else take (nat precision) p)
      in (width - int (length t), fold putch (map ascii t) d))"
proof (induction p arbitrary: precision width d)
  case (Cons c p)
  show ?case
  proof (cases "precision < 0 \<or> precision = 0")
    case False
    then have "nat precision = Suc (nat (precision - 1))" by arith
    with False show ?thesis by (simp add: Cons.IH Let_def)
  qed (auto simp: Cons.IH Let_def)
qed (simp add: Let_def)

definition str_text :: "string option \<Rightarrow> int \<Rightarrow> int \<Rightarrow> char \<Rightarrow> u32 list" where
  "str_text p width precision padc =
     (let p = (case p of None \<Rightarrow> ''(null)'' | Some s \<Rightarrow> s);
          t = map ascii (if precision < 0 then p else take (nat precision) p);
          fill = nat (width - int (length t))
      in if padc = CHR ''-'' then t @ replicate fill (ascii CHR '' '')
         else replicate fill (ascii padc) @ t)"

lemma put_str_fold [fmt_simps]:
  "put_str putch p width precision padc d = fold putch (str_text p width precision padc) d"
proof -
  define s where "s = (case p of None \<Rightarrow> ''(null)'' | Some s \<Rightarrow> s)"
  define t where "t = (if precision < 0 then s else take (nat precision) s)"
  have n: "strnlen s precision = int (length t)"
    by (auto simp: strnlen_def t_def)
  show ?thesis
    unfolding put_str_def str_text_def s_def [symmetric] Let_def put_chars_fold t_def [symmetric]
    by (auto simp: n pad_loop_fold)
qed

lemma put_buf_fold:
  "p \<le> pbuf \<Longrightarrow> put_buf putch p pbuf buf d =
     (if p = pbuf \<or> 0 \<le> p \<and> pbuf \<le> 32
      then Some (fold putch (map (\<lambda>i. ucast (buf (p + int i))) [0..<nat (pbuf - p)]) d) else None)"
proof (induction putch p pbuf buf d rule: put_buf.induct)
  case (1 putch p pbuf buf d)
  show ?case
  proof (cases "p < pbuf")
    case True
    then have n: "nat (pbuf - p) = Suc (nat (pbuf - (p + 1)))" by simp
    have "[0..<nat (pbuf - p)] = 0 # map Suc [0..<nat (pbuf - (p + 1))]"
      unfolding n by (subst upt_conv_Cons) (auto simp: map_Suc_upt)
    then show ?thesis
      using True "1.IH" [of "buf p"]
      by (auto simp: put_buf.simps [of putch p] buf_load_def comp_def algebra_simps split: if_splits)
  next
    case False
    with "1.prems" have "p = pbuf" by simp
    then show ?thesis by (simp add: put_buf.simps [of putch pbuf])
  qed
qed

lemma put_buf_collect:
  "0 \<le> pbuf \<Longrightarrow> put_buf putch 0 pbuf buf d =
     map_option (\<lambda>cs. fold putch cs d) (put_buf collect 0 pbuf buf [])"
  by (simp add: put_buf_fold fold_collect)

lemma fold_split: "fold f ys (f x d) = fold f (x # ys) d"
  by simp

text \<open>The local array of \<open>print_double\<close> after \<open>printnum\<close> has stored the characters \<open>cs\<close>.\<close>

fun buf_write :: "(int \<Rightarrow> u8) \<Rightarrow> int \<Rightarrow> u32 list \<Rightarrow> (int \<Rightarrow> u8)" where
  "buf_write buf p [] = buf"
| "buf_write buf p (c # cs) = buf_write (buf(p := ucast c)) (p + 1) cs"

lemma buf_putch_None [simp]: "fold buf_putch cs None = None"
  by (induction cs) (auto simp: buf_putch_def)

lemma fold_buf_putch:
  "0 \<le> p \<Longrightarrow> p + int (length cs) \<le> 32 \<Longrightarrow>
     fold buf_putch cs (Some (buf, p)) = Some (buf_write buf p cs, p + int (length cs))"
  by (induction cs arbitrary: buf p) (auto simp: buf_putch_def buf_store_def)

lemma fold_buf_putch_pos:
  "fold buf_putch cs (Some (buf, p)) = Some (buf', p') \<Longrightarrow> p' = p + int (length cs)"
  by (induction cs arbitrary: buf p)
    (fastforce simp: buf_putch_def buf_store_def split: if_splits)+

lemma buf_write_below: "i < p \<Longrightarrow> buf_write buf p cs i = buf i"
  by (induction cs arbitrary: buf p) auto

lemma buf_write_nth:
  "i < length cs \<Longrightarrow> buf_write buf p cs (p + int i) = ucast (cs ! i)"
proof (induction cs arbitrary: buf p i)
  case (Cons c cs)
  show ?case
  proof (cases i)
    case 0
    then show ?thesis by (simp add: buf_write_below)
  next
    case (Suc j)
    with Cons.prems Cons.IH [of j _ "p + 1"] show ?thesis by (simp add: algebra_simps)
  qed
qed simp

text \<open>
  Lifting over a state: the printer run with \<open>collect\<close> gives the characters, and running it with
  any callback folds them over the state. \<open>double_body\<close> is the part of \<open>print_double\<close> between the
  sign and the final loop; it does not touch the output.
\<close>

definition double_body :: "fp_ops \<Rightarrow> u64 \<Rightarrow> int \<Rightarrow> ((int \<Rightarrow> u8) \<times> int) option" where
  "double_body fp u prec = do {
     (buf, pbuf) \<leftarrow> printnum buf_putch (fp_to_ulong fp ((fp_mul10 fp ^^ nat prec) u))
       10 0 (CHR 0x00) (Some ((\<lambda>_. 0), 0));
     if prec > 0 then do {
         buf \<leftarrow> shift_loop 0 prec pbuf buf;
         buf \<leftarrow> buf_store (pbuf - prec) (of_char CHR ''.'') buf;
         Some (buf, pbuf + 1)
       } else Some (buf, pbuf)
   }"

definition double_sign :: "u64 \<Rightarrow> u32 list" where
  "double_sign num = (if bit num 63 then [ascii CHR ''-''] else [])"

definition double_magnitude :: "u64 \<Rightarrow> u64" where
  "double_magnitude num = (if bit num 63 then num AND NOT (push_bit 63 1) else num)"

lemma print_double_split:
  "print_double fp putch num width prec d =
     Option.bind (double_body fp (double_magnitude num) prec)
       (\<lambda>(buf, pbuf). put_buf putch 0 pbuf buf (fold putch (double_sign num) d))"
  by (cases "bit num 63")
    (auto simp: print_double_def double_body_def double_sign_def double_magnitude_def Let_def
      split: Option.bind_splits prod.splits intro!: Option.bind_cong)

lemma double_body_pos: "double_body fp u prec = Some (buf, pbuf) \<Longrightarrow> 0 \<le> pbuf"
  by (auto simp: double_body_def printnum_fold bind_Some_iff split: if_splits
      dest!: fold_buf_putch_pos)

lemma print_double_collect:
  "print_double fp putch num width prec d =
     map_option (\<lambda>cs. fold putch cs d) (print_double fp collect num width prec [])"
  unfolding print_double_split
  by (auto simp: put_buf_fold fold_collect dest: double_body_pos split: Option.bind_splits)

lemma map_option_if: "map_option f (if b then x else y) = (if b then map_option f x else map_option f y)"
  by simp

lemma map_option_bind_pair:
  "map_option f (Option.bind x (\<lambda>(a, b). g a b)) = Option.bind x (\<lambda>(a, b). map_option f (g a b))"
  by (cases x) auto

lemma map_option_bind: "map_option f (Option.bind x g) = Option.bind x (\<lambda>a. map_option f (g a))"
  by (cases x) auto

lemma bind_map_option: "Option.bind (map_option f x) g = Option.bind x (\<lambda>a. g (f a))"
  by (cases x) auto

lemma fmt_number_collect:
  "fmt_number putch rest sp num_ap base (fold putch cs d) =
     (\<lambda>(fmt, ap, cs). (fmt, ap, fold putch cs d)) (fmt_number collect rest sp num_ap base cs)"
  by (simp add: fmt_number_def printnum_fold fold_collect)

lemma fmt_number_collect_0:
  "fmt_number putch rest sp num_ap base d =
     (\<lambda>(fmt, ap, cs). (fmt, ap, fold putch cs d)) (fmt_number collect rest sp num_ap base [])"
  using fmt_number_collect [where cs = "[]"] by simp

lemma fmt_convert_collect:
  "fmt_convert fp putch last_fmt ch rest sp ap d =
     map_option (\<lambda>(fmt, ap, cs). (fmt, ap, fold putch cs d))
       (fmt_convert fp collect last_fmt ch rest sp ap [])"
proof -
  note number = fmt_number_collect_0 [where putch = putch and d = d]
  have sign: "fmt_number putch rest sp na base (putch c d) =
      (\<lambda>(fmt, ap, cs). (fmt, ap, fold putch cs d)) (fmt_number collect rest sp na base (collect c []))"
    for na base c
    using fmt_number_collect [where putch = putch and d = d and cs = "[c]"]
    by (simp add: collect_def)
  have prefix: "fmt_number putch rest sp na base (putch c (putch b d)) =
      (\<lambda>(fmt, ap, cs). (fmt, ap, fold putch cs d))
        (fmt_number collect rest sp na base (collect c (collect b [])))" for na base b c
    using fmt_number_collect [where putch = putch and d = d and cs = "[b, c]"]
    by (simp add: collect_def)
  note lift = map_option_bind bind_map_option case_prod_unfold fmt_convert_def
  consider (c) "ch = CHR ''c''" | (f) "ch = CHR ''f''" | (s) "ch = CHR ''s''" | (d) "ch = CHR ''d''"
    | (u) "ch = CHR ''u''" | (o) "ch = CHR ''o''" | (p) "ch = CHR ''p''" | (x) "ch = CHR ''x''"
    | (percent) "ch = CHR ''%''"
    | (other) "ch \<noteq> CHR ''c''" "ch \<noteq> CHR ''f''" "ch \<noteq> CHR ''s''" "ch \<noteq> CHR ''d''" "ch \<noteq> CHR ''u''"
        "ch \<noteq> CHR ''o''" "ch \<noteq> CHR ''p''" "ch \<noteq> CHR ''x''" "ch \<noteq> CHR ''%''"
    by blast
  then show ?thesis
  proof cases
    case c
    then show ?thesis by (simp add: lift collect_def)
  next
    case f
    then show ?thesis by (simp add: lift print_double_collect [where putch = putch])
  next
    case s
    then show ?thesis by (simp add: lift put_str_fold fold_collect)
  next
    case d
    then show ?thesis
      by (auto simp: lift number sign intro!: Option.bind_cong)
  next
    case p
    then show ?thesis by (simp add: lift prefix)
  next
    case other
    then show ?thesis by (simp add: lift fmt_bad_def collect_def)
  qed (simp_all add: lift number collect_def)
qed

lemma fmt_escape_collect:
  "fmt_escape fp putch last_fmt fmt sp ap d =
     map_option (\<lambda>(fmt, ap, cs). (fmt, ap, fold putch cs d))
       (fmt_escape fp collect last_fmt fmt sp ap [])"
  by (auto simp: fmt_escape_def fmt_bad_def collect_def fmt_convert_collect [where putch = putch]
      split: option.splits)

section \<open>The abstract printer\<close>

text \<open>
  \<open>formatted\<close> says which characters a format and its arguments denote, without any output state:
  the specification both \<open>printf\<close> and \<open>sprintf\<close> refine.
\<close>

function formatted :: "fp_ops \<Rightarrow> string \<Rightarrow> vararg list \<Rightarrow> u32 list option" where
  "formatted fp fmt ap =
     (if cur fmt \<noteq> CHR ''%'' then
        (if cur fmt = CHR 0x00 then Some []
         else map_option ((#) (ascii (cur fmt))) (formatted fp (tl fmt) ap))
      else
        (case fmt_escape fp collect (tl fmt) (tl fmt) init_spec ap [] of
           None \<Rightarrow> None
         | Some (fmt, ap, cs) \<Rightarrow> map_option ((@) cs) (formatted fp fmt ap)))"
  by pat_completeness auto
termination
proof (relation "measure (\<lambda>(fp, fmt, ap). length fmt)", goal_cases)
  case (2 fp fmt ap)
  then show ?case using cur_neq_NUL [of fmt] by (simp del: length_tl)
next
  case (3 fp fmt ap r fmt' r' ap' d')
  then have "length fmt' \<le> length (tl fmt)"
    by (auto dest: fmt_escape_length)
  moreover have "length (tl fmt) < length fmt"
    using 3 by (intro cur_neq_NUL) simp
  ultimately show ?case by simp
qed simp

declare formatted.simps [simp del]

lemma vprintfmt_formatted:
  "vprintfmt fp putch fmt ap d = map_option (\<lambda>cs. fold putch cs d) (formatted fp fmt ap)"
proof (induction fp putch fmt ap d rule: vprintfmt.induct)
  case (1 fp putch fmt ap d)
  show ?case
  proof (cases "cur fmt = CHR ''%''")
    case False
    then show ?thesis
      using "1.IH"(1)
      by (simp add: vprintfmt.simps [of fp putch fmt] formatted.simps [of fp fmt]
          option.map_comp comp_def)
  next
    case True
    show ?thesis
    proof (cases "fmt_escape fp collect (tl fmt) (tl fmt) init_spec ap []")
      case None
      with True show ?thesis
        by (simp add: vprintfmt.simps [of fp putch fmt] formatted.simps [of fp fmt]
            fmt_escape_collect [where putch = putch])
    next
      case (Some r)
      obtain fmt' ap' cs where r: "r = (fmt', ap', cs)" by (cases r)
      have "fmt_escape fp putch (tl fmt) (tl fmt) init_spec ap d = Some (fmt', ap', fold putch cs d)"
        by (simp add: fmt_escape_collect [where putch = putch] Some r)
      with True Some r "1.IH"(2) show ?thesis
        by (simp add: vprintfmt.simps [of fp putch fmt] formatted.simps [of fp fmt]
            option.map_comp comp_def)
    qed
  qed
qed

section \<open>Callbacks as sinks\<close>

text \<open>
  The contract of a callback: while there is room for one more character, it appends the low byte
  of its argument to what has been written. Whatever keeps the contract prints the specified text.
\<close>

locale char_sink =
  fixes putch :: "u32 \<Rightarrow> 'd \<Rightarrow> 'd"
    and written :: "'d \<Rightarrow> u8 list"
    and room :: "'d \<Rightarrow> nat \<Rightarrow> bool"
  assumes written_putch: "room d (Suc n) \<Longrightarrow> written (putch c d) = written d @ [ucast c]"
    and room_putch: "room d (Suc n) \<Longrightarrow> room (putch c d) n"
begin

lemma fold_written:
  "room d (length cs + n) \<Longrightarrow>
     written (fold putch cs d) = written d @ map ucast cs \<and> room (fold putch cs d) n"
proof (induction cs arbitrary: d)
  case (Cons c cs)
  then have "room d (Suc (length cs + n))" by simp
  with Cons.IH [OF room_putch] show ?case by (simp add: written_putch)
qed simp

lemma vprintfmt_written:
  assumes "formatted fp fmt ap = Some cs" and "room d (length cs + n)"
  obtains d' where "vprintfmt fp putch fmt ap d = Some d'"
    and "written d' = written d @ map ucast cs" and "room d' n"
  using assms fold_written by (simp add: vprintfmt_formatted)

end

text \<open>
  The string buffer of \<open>sprintf\<close>: what has been written is the memory between the start of the
  string and the pointer, and there is room as long as the 32-bit pointer does not wrap around to
  the start.
\<close>

definition sprintf_written :: "u32 \<Rightarrow> sprintf_state \<Rightarrow> u8 list" where
  "sprintf_written str0 st = map (\<lambda>i. sp_mem st (str0 + of_nat i)) [0..<unat (sp_ptr st - str0)]"

definition sprintf_room :: "u32 \<Rightarrow> sprintf_state \<Rightarrow> nat \<Rightarrow> bool" where
  "sprintf_room str0 st n \<longleftrightarrow> unat (sp_ptr st - str0) + n < 2 ^ 32"

lemma unat_Suc_sub: "unat (p - q :: u32) + Suc n < 2 ^ 32 \<Longrightarrow> unat (p + 1 - q) = Suc (unat (p - q))"
proof -
  assume "unat (p - q) + Suc n < 2 ^ 32"
  then have "unat (p - q + 1) = unat (p - q) + 1"
    by (simp add: unat_word_ariths)
  then show ?thesis by (simp add: algebra_simps)
qed

interpretation sprintf_sink: char_sink sprintf_putch "sprintf_written str0" "sprintf_room str0"
  for str0
proof
  fix d n c
  assume room: "sprintf_room str0 d (Suc n)"
  then have suc: "unat (sp_ptr d + 1 - str0) = Suc (unat (sp_ptr d - str0))"
    by (intro unat_Suc_sub) (simp add: sprintf_room_def)
  have ptr: "str0 + of_nat (unat (sp_ptr d - str0)) = sp_ptr d" by simp
  have "str0 + of_nat i \<noteq> sp_ptr d" if "i < unat (sp_ptr d - str0)" for i
  proof
    assume "str0 + of_nat i = sp_ptr d"
    then have "sp_ptr d - str0 = of_nat i" by (metis add_diff_cancel_left')
    with that show False
      by (metis le_unat_uoi less_imp_le_nat nat_less_le order_less_irrefl)
  qed
  then show "sprintf_written str0 (sprintf_putch c d) = sprintf_written str0 d @ [ucast c]"
    by (simp add: sprintf_written_def sprintf_putch_def suc)
  show "sprintf_room str0 (sprintf_putch c d) n"
    using room suc by (simp add: sprintf_room_def sprintf_putch_def)
qed

section \<open>Digits\<close>

text \<open>The value a digit sequence stands for, least significant digit first.\<close>

fun digs_value :: "nat \<Rightarrow> u32 list \<Rightarrow> nat" where
  "digs_value b [] = 0"
| "digs_value b (x # xs) = unat x + b * digs_value b xs"

lemma printnum_digs_value:
  "2 \<le> base \<Longrightarrow> digs_value (unat base) (printnum_digs num base) = unat num"
proof (induction num base rule: printnum_digs.induct)
  case (1 num base)
  show ?case
  proof (cases "num < base")
    case True
    then show ?thesis
      by (simp add: printnum_digs.simps [of num] unat_mod word_less_nat_alt)
  next
    case False
    have "\<not> base < 2" using "1.prems" by (simp add: not_less)
    with False "1.prems" "1.IH" show ?thesis
      by (simp add: printnum_digs.simps [of num] unat_mod unat_div)
  qed
qed

lemma printnum_digs_small: "2 \<le> base \<Longrightarrow> x \<in> set (printnum_digs num base) \<Longrightarrow> x < base"
proof (induction num base rule: printnum_digs.induct)
  case (1 num base)
  have m: "num mod base < base"
    using "1.prems"(1) by (intro word_mod_less_divisor) (auto simp: word_less_nat_alt word_le_nat_alt)
  show ?case
  proof (cases "num < base")
    case True
    with "1.prems" m show ?thesis by (simp add: printnum_digs.simps [of num])
  next
    case False
    have "\<not> base < 2" using "1.prems" by (simp add: not_less)
    with False "1.prems" "1.IH" m show ?thesis by (auto simp: printnum_digs.simps [of num])
  qed
qed

text \<open>A number below \<open>base ^ n\<close> has at most \<open>n\<close> digits, so \<open>digs[32]\<close> is large enough.\<close>

lemma printnum_digs_length_aux:
  "2 \<le> base \<Longrightarrow> unat num < unat base ^ n \<Longrightarrow> 0 < n \<Longrightarrow> length (printnum_digs num base) \<le> n"
proof (induction n arbitrary: num)
  case (Suc n)
  show ?case
  proof (cases "num < base")
    case True
    then show ?thesis by (simp add: printnum_digs.simps [of num])
  next
    case False
    have "unat num < unat base ^ n * unat base" using Suc.prems(2) by (simp add: mult.commute)
    then have "unat (num div base) < unat base ^ n"
      by (simp add: unat_div less_mult_imp_div_less)
    moreover have "0 < n"
      using Suc.prems(2) False by (cases n) (auto simp: word_less_nat_alt)
    ultimately have "length (printnum_digs (num div base) base) \<le> n"
      using Suc by blast
    moreover have "\<not> base < 2" using Suc.prems(1) by (simp add: not_less)
    ultimately show ?thesis using False by (simp add: printnum_digs.simps [of num])
  qed
qed simp

lemma printnum_digs_length: "2 \<le> base \<Longrightarrow> length (printnum_digs num base) \<le> 32"
proof (rule printnum_digs_length_aux)
  assume "2 \<le> base"
  then have "2 ^ 32 \<le> unat base ^ 32" by (intro power_mono) (simp_all add: word_le_nat_alt)
  then show "unat num < unat base ^ 32"
    by (intro order_less_le_trans [OF unsigned_less]) simp
qed simp_all

lemma printnum_digs_length_10: "length (printnum_digs num 10) \<le> 10"
proof (rule printnum_digs_length_aux)
  show "unat num < unat (10 :: u32) ^ 10"
    by (rule order_less_le_trans [OF unsigned_less]) simp
qed simp_all

lemma printnum_digs_nonempty [simp]: "printnum_digs num base \<noteq> []"
  by (simp add: printnum_digs.simps [of num])

text \<open>Reading a numeral back: the value of a character, and of a text in a base.\<close>

definition char_value :: "u32 \<Rightarrow> nat" where
  "char_value c = (if c \<ge> ascii CHR ''a'' then unat (c - ascii CHR ''a'' + 10)
                   else unat (c - ascii CHR ''0''))"

definition read_number :: "nat \<Rightarrow> u32 list \<Rightarrow> nat" where
  "read_number b cs = foldl (\<lambda>v c. v * b + char_value c) 0 cs"

lemma char_value_digit_char: "x < 36 \<Longrightarrow> char_value (digit_char x) = unat x"
proof -
  assume x: "x < 36"
  then have "unat x < 36" by (simp add: word_less_nat_alt)
  then show ?thesis
    by (auto simp: char_value_def digit_char_def ascii_def word_le_nat_alt word_less_nat_alt
        unat_word_ariths unat_sub_if_size)
qed

lemma read_number_digits:
  "(\<And>x. x \<in> set digs \<Longrightarrow> x < 36) \<Longrightarrow>
     read_number b (map digit_char (rev digs)) = digs_value b digs"
  by (induction digs) (simp_all add: read_number_def char_value_digit_char algebra_simps)

definition read_signed :: "u32 list \<Rightarrow> int" where
  "read_signed cs =
     (case cs of
        c # cs' \<Rightarrow> if c = ascii CHR ''-'' then - int (read_number 10 cs') else int (read_number 10 cs)
      | [] \<Rightarrow> 0)"

lemma digit_char_neq_minus: "x < 36 \<Longrightarrow> digit_char x \<noteq> ascii CHR ''-''"
proof
  assume x: "x < 36" and eq: "digit_char x = ascii CHR ''-''"
  from x have "unat x < 36" by (simp add: word_less_nat_alt)
  moreover have "unat (digit_char x) = 45" by (simp add: eq ascii_def)
  ultimately show False
    by (auto simp: digit_char_def ascii_def word_le_nat_alt unat_word_ariths split: if_splits)
qed

section \<open>The text of the conversions\<close>

lemma ten_le: "(2 :: u32) \<le> 10" and sixteen_le: "(2 :: u32) \<le> 16" and eight_le: "(2 :: u32) \<le> 8"
  by simp_all

lemma read_number_printnum:
  assumes "2 \<le> base" and "base \<le> 36"
  shows "read_number (unat base) (map digit_char (rev (printnum_digs num base))) = unat num"
proof -
  have "x < 36" if "x \<in> set (printnum_digs num base)" for x
    using printnum_digs_small [OF assms(1) that] assms(2) by (rule order_less_le_trans)
  then show ?thesis using assms by (simp add: read_number_digits printnum_digs_value)
qed

lemma hd_digits_not_minus:
  "2 \<le> base \<Longrightarrow> base \<le> 36 \<Longrightarrow>
     map digit_char (rev (printnum_digs num base)) = c # cs \<Longrightarrow> c \<noteq> ascii CHR ''-''"
proof -
  assume b: "2 \<le> base" "base \<le> 36" and eq: "map digit_char (rev (printnum_digs num base)) = c # cs"
  then have "c \<in> digit_char ` set (printnum_digs num base)"
    by (metis image_set list.set_intros(1) set_rev)
  then obtain x where "x \<in> set (printnum_digs num base)" and c: "c = digit_char x" by blast
  with b have "x < 36" by (meson order_less_le_trans printnum_digs_small)
  then show ?thesis by (simp add: c digit_char_neq_minus)
qed

lemma formatted_d:
  "formatted fp ''%d'' (VInt v # ap) =
     Some ((if v <s 0 then [ascii CHR ''-''] else [])
       @ map digit_char (rev (printnum_digs (if v <s 0 then - v else v) 10)))"
proof -
  have nil: "formatted fp [] ap = Some []" by (simp add: formatted.simps [of fp "[]"] cur_def)
  have "fmt_flags ''d'' init_spec (VInt v # ap) = Some (Some CHR ''d'', [], init_spec, VInt v # ap)"
    by (simp add: fmt_flags.simps [of "''d''"] cur_def is_digit_def ascii_def)
  then show ?thesis
    by (simp add: formatted.simps [of fp "''%d''"] cur_def fmt_escape_def fmt_convert_def
        fmt_number_def printnum_fold fold_collect number_text_def collect_def init_spec_def nil)
qed

lemma neg_abs: "v <s 0 \<Longrightarrow> - int (unat (- v :: u32)) = sint v"
proof -
  assume "v <s 0"
  then have neg: "sint v < 0" by (simp add: word_sless_alt)
  have "uint (- v) = uint (word_of_int (- sint v) :: u32)" by simp
  also have "\<dots> = take_bit 32 (- sint v)" by (subst uint_word_of_int_eq) simp
  also have "\<dots> = - sint v"
    using neg sint_ge [of v] by (intro take_bit_int_eq_self) auto
  finally show ?thesis by simp
qed

lemma nonneg_sint: "\<not> v <s 0 \<Longrightarrow> int (unat (v :: u32)) = sint v"
proof -
  assume "\<not> v <s 0"
  then have "0 \<le> sint v" by (simp add: word_sless_alt)
  moreover have "uint v = take_bit 32 (sint v)" by (subst uint_sint) simp
  ultimately have "uint v = sint v"
    using sint_lt [of v] by (simp add: take_bit_int_eq_self)
  then show ?thesis by simp
qed

section \<open>The decimal point\<close>

text \<open>What \<open>shift_loop\<close> does to the array: the last \<open>prec\<close> bytes move up by one.\<close>

lemma shift_loop_spec:
  "0 \<le> i \<Longrightarrow> i \<le> prec \<Longrightarrow> prec \<le> n \<Longrightarrow> n < 32 \<Longrightarrow>
     shift_loop i prec n buf =
       Some (\<lambda>k. if n - prec < k \<and> k \<le> n - i then buf (k - 1) else buf k)"
proof (induction i prec n buf rule: shift_loop.induct)
  case (1 i prec n buf)
  show ?case
  proof (cases "i < prec")
    case True
    let ?buf = "buf(n - i := buf (n - i - 1))"
    have l: "buf_load (n - i - 1) buf = Some (buf (n - i - 1))"
      and s: "buf_store (n - i) (buf (n - i - 1)) buf = Some ?buf"
      using "1.prems" True by (auto simp: buf_load_def buf_store_def)
    have "shift_loop (i + 1) prec n ?buf =
        Some (\<lambda>k. if n - prec < k \<and> k \<le> n - (i + 1) then ?buf (k - 1) else ?buf k)"
      using "1.IH" [OF True l s] "1.prems" True by (simp del: fun_upd_apply)
    also have "(\<lambda>k. if n - prec < k \<and> k \<le> n - (i + 1) then ?buf (k - 1) else ?buf k) =
        (\<lambda>k. if n - prec < k \<and> k \<le> n - i then buf (k - 1) else buf k)"
      using True by (auto simp: fun_eq_iff)
    finally show ?thesis
      using True l s by (simp add: shift_loop.simps [of i] del: fun_upd_apply)
  next
    case False
    with "1.prems" have "i = prec" by simp
    then show ?thesis by (auto simp add: shift_loop.simps [of prec] fun_eq_iff)
  qed
qed

text \<open>If there are fewer digits than decimals, the loop reads below the array.\<close>

lemma shift_loop_underrun:
  "0 \<le> i \<Longrightarrow> i \<le> n \<Longrightarrow> n < prec \<Longrightarrow> n < 32 \<Longrightarrow> shift_loop i prec n buf = None"
proof (induction i prec n buf rule: shift_loop.induct)
  case (1 i prec n buf)
  then have lt: "i < prec" by simp
  show ?case
  proof (cases "i = n")
    case True
    with lt show ?thesis
      by (simp add: shift_loop.simps [of n] buf_load_def)
  next
    case False
    with "1.prems" have "buf_load (n - i - 1) buf = Some (buf (n - i - 1))"
      and "buf_store (n - i) (buf (n - i - 1)) buf = Some (buf(n - i := buf (n - i - 1)))"
      by (auto simp: buf_load_def buf_store_def)
    with "1.IH" [OF lt] "1.prems" False lt show ?thesis
      by (simp add: shift_loop.simps [of i])
  qed
qed

text \<open>The decimal digits of the scaled value, as characters.\<close>

definition double_digits :: "fp_ops \<Rightarrow> u64 \<Rightarrow> int \<Rightarrow> u32 list" where
  "double_digits fp num prec =
     map digit_char (rev (printnum_digs
       (fp_to_ulong fp ((fp_mul10 fp ^^ nat prec) (double_magnitude num))) 10))"

lemma double_digits_length: "length (double_digits fp num prec) \<le> 10"
  by (simp add: double_digits_def printnum_digs_length_10)

lemma double_body_digits:
  fixes fp num prec
  defines "cs \<equiv> double_digits fp num prec"
  defines "n \<equiv> int (length cs)"
  shows "double_body fp (double_magnitude num) prec =
    (if prec \<le> 0 then Some (buf_write (\<lambda>_. 0) 0 cs, n)
     else if prec \<le> n then
       Some ((\<lambda>k. if n - prec < k \<and> k \<le> n then buf_write (\<lambda>_. 0) 0 cs (k - 1)
                  else buf_write (\<lambda>_. 0) 0 cs k) (n - prec := of_char CHR ''.''), n + 1)
     else None)"
proof -
  have len: "n \<le> 10" "0 \<le> n" using double_digits_length by (simp_all add: n_def cs_def)
  have tx: "number_text (fp_to_ulong fp ((fp_mul10 fp ^^ nat prec) (double_magnitude num))) 10 0 (CHR 0x00) = cs"
    by (simp add: number_text_def cs_def double_digits_def)
  have p: "printnum buf_putch (fp_to_ulong fp ((fp_mul10 fp ^^ nat prec) (double_magnitude num)))
      10 0 (CHR 0x00) (Some ((\<lambda>_. 0), 0)) = Some (buf_write (\<lambda>_. 0) 0 cs, n)"
    using len by (simp add: printnum_fold tx fold_buf_putch n_def)
  consider "prec \<le> 0" | "0 < prec" "prec \<le> n" | "n < prec" "0 < prec" by linarith
  then show ?thesis
  proof cases
    case 1
    then show ?thesis using p by (simp add: double_body_def)
  next
    case 2
    then show ?thesis
      using len by (simp add: double_body_def p shift_loop_spec buf_store_def)
  next
    case 3
    then show ?thesis
      using len by (simp add: double_body_def p shift_loop_underrun)
  qed
qed

lemma double_digits_bytes: "c \<in> set (double_digits fp num prec) \<Longrightarrow> ucast (ucast c :: u8) = c"
proof -
  assume "c \<in> set (double_digits fp num prec)"
  then obtain x where "x \<in> set (printnum_digs
      (fp_to_ulong fp ((fp_mul10 fp ^^ nat prec) (double_magnitude num))) 10)" and c: "c = digit_char x"
    by (auto simp: double_digits_def)
  then have "x < 10" by (intro printnum_digs_small) auto
  then have "unat c < 2 ^ 8"
    by (auto simp: c digit_char_def ascii_def word_less_nat_alt word_le_nat_alt unat_word_ariths)
  then have "unat (ucast (ucast c :: u8) :: u32) = unat c"
    by (simp add: unsigned_ucast_eq unsigned_take_bit_eq take_bit_nat_eq_self)
  then show ?thesis by (simp add: word_unat_eq_iff)
qed

text \<open>The characters \<open>print_double\<close> emits, when it is defined.\<close>

definition double_text :: "fp_ops \<Rightarrow> u64 \<Rightarrow> int \<Rightarrow> u32 list" where
  "double_text fp num prec =
     (let cs = double_digits fp num prec; k = length cs - nat prec
      in double_sign num @
         (if prec > 0 then take k cs @ [ascii CHR ''.''] @ drop k cs else cs))"

lemma ucast_ascii: "ucast (of_char c :: u8) = ascii c"
  by (cases c) (simp add: ascii_def horner_sum_simps)

lemma digits_read_back:
  "map (\<lambda>i. ucast (buf_write buf 0 (double_digits fp num prec) (int i)))
     [0..<length (double_digits fp num prec)] = double_digits fp num prec"
proof (rule nth_equalityI)
  fix i assume "i < length (map (\<lambda>i. ucast (buf_write buf 0 (double_digits fp num prec) (int i)))
     [0..<length (double_digits fp num prec)] :: u32 list)"
  then have i: "i < length (double_digits fp num prec)" by simp
  then show "map (\<lambda>i. ucast (buf_write buf 0 (double_digits fp num prec) (int i)))
     [0..<length (double_digits fp num prec)] ! i = double_digits fp num prec ! i"
    using buf_write_nth [OF i, of buf 0] double_digits_bytes [OF nth_mem [OF i]] by simp
qed simp

lemma print_double_text:
  "print_double fp putch num width prec d =
     (if prec \<le> int (length (double_digits fp num prec))
      then Some (fold putch (double_text fp num prec) d) else None)"
proof -
  define cs where "cs = double_digits fp num prec"
  define n where "n = length cs"
  have n10: "n \<le> 10" using double_digits_length by (simp add: n_def cs_def)
  consider "prec \<le> 0" | "0 < prec" "prec \<le> int n" | "0 < prec" "int n < prec" by linarith
  then show ?thesis
  proof cases
    case 1
    then show ?thesis
      using digits_read_back [of "\<lambda>_. 0" fp num prec] n10
      by (simp add: print_double_split double_body_digits put_buf_fold double_text_def
          cs_def [symmetric] n_def [symmetric])
  next
    case 2
    define k where "k = n - nat prec"
    have k: "int k = int n - prec" "k < n" using 2 by (auto simp: k_def)
    let ?b = "buf_write (\<lambda>_. 0) 0 cs"
    let ?buf = "(\<lambda>j. if int n - prec < j \<and> j \<le> int n then ?b (j - 1) else ?b j)(int n - prec := of_char CHR ''.'')"
    have nth: "(ucast (?b (int i)) :: u32) = cs ! i" if "i < n" for i
      using that digits_read_back [of "\<lambda>_. 0" fp num prec, folded cs_def]
      by (metis (mono_tags, lifting) n_def nth_map_upt plus_nat.add_0 diff_zero)
    have "map (\<lambda>i. (ucast (?buf (int i)) :: u32)) [0..<Suc n] = take k cs @ [ascii CHR ''.''] @ drop k cs"
    proof (rule nth_equalityI)
      fix i assume "i < length (map (\<lambda>i. (ucast (?buf (int i)) :: u32)) [0..<Suc n])"
      then have i: "i < Suc n" by simp
      consider "i < k" | "i = k" | "k < i" by linarith
      then show "map (\<lambda>i. (ucast (?buf (int i)) :: u32)) [0..<Suc n] ! i =
          (take k cs @ [ascii CHR ''.''] @ drop k cs) ! i"
      proof cases
        case 1
        then show ?thesis using i k nth [of i] by (simp add: nth_append n_def [symmetric] del: upt_Suc)
      next
        case 2
        then show ?thesis using i k by (simp add: nth_append n_def [symmetric] ascii_def del: upt_Suc)
      next
        case 3
        then obtain j where j: "i = Suc j" "k \<le> j" by (cases i) auto
        then show ?thesis using i k nth [of j]
          by (simp add: nth_append n_def [symmetric] nth_Cons' min_def del: upt_Suc)
      qed
    qed (use k in \<open>simp add: n_def\<close>)
    then have out: "put_buf putch 0 (int n + 1) ?buf e = Some (fold putch (take k cs @ [ascii CHR ''.''] @ drop k cs) e)" for e
      using n10 by (simp add: put_buf_fold nat_add_distrib del: upt_Suc fun_upd_apply)
    have dot: "of_char CHR ''.'' = (46 :: u8)" by simp
    have "double_body fp (double_magnitude num) prec = Some (?buf, int n + 1)"
      using 2 unfolding cs_def n_def by (simp add: double_body_digits)
    with 2 show ?thesis
      using out [unfolded dot]
      by (simp add: print_double_split double_text_def cs_def [symmetric] n_def [symmetric] k_def
          Let_def del: fun_upd_apply)
  next
    case 3
    then show ?thesis
      by (simp add: print_double_split double_body_digits cs_def [symmetric] n_def [symmetric])
  qed
qed

text \<open>What \<open>sprintf_putch\<close> leaves alone, and where the pointer ends.\<close>

lemma sprintf_fold_ptr: "sp_ptr (fold sprintf_putch cs st) = sp_ptr st + of_nat (length cs)"
  by (induction cs arbitrary: st) (auto simp: sprintf_putch_def)

lemma unat_sub_Suc: "Suc n \<le> unat (a - p :: u32) \<Longrightarrow> a \<noteq> p \<and> n \<le> unat (a - (p + 1))"
proof -
  assume n: "Suc n \<le> unat (a - p)"
  then have "a - p \<noteq> 0" by auto
  then have "unat (a - p - 1) = unat (a - p) - 1"
    by (rule unat_minus_one)
  moreover have "a - p - 1 = a - (p + 1)" by simp
  ultimately show ?thesis using n by (auto simp del: diff_diff_eq)
qed

lemma sprintf_fold_frame:
  "length cs \<le> unat (a - sp_ptr st) \<Longrightarrow> sp_mem (fold sprintf_putch cs st) a = sp_mem st a"
proof (induction cs arbitrary: st)
  case (Cons c cs)
  then have "a \<noteq> sp_ptr st" and "length cs \<le> unat (a - (sp_ptr st + 1))"
    using unat_sub_Suc [of "length cs" a "sp_ptr st"] by auto
  with Cons.IH [of "sprintf_putch c st"] show ?case by (simp add: sprintf_putch_def)
qed simp

lemma fmt_flags_minus_digit:
  assumes "is_digit c" and "c \<noteq> CHR ''0''"
  shows "fmt_flags [CHR ''-'', c, CHR ''u''] init_spec ap =
    Some (Some CHR ''u'', [],
      init_spec\<lparr>f_padc := CHR ''-'', f_width := int (char_value (ascii c))\<rparr>, ap)"
proof -
  have c: "ascii CHR ''0'' \<le> ascii c" "ascii c \<le> ascii CHR ''9''"
    using assms(1) by (simp_all add: is_digit_def)
  then have b: "48 \<le> unat (ascii c)" "unat (ascii c) \<le> 57"
    by (simp_all add: word_le_nat_alt ascii_def [of "CHR ''0''"] ascii_def [of "CHR ''9''"])
  have "unat (ascii c - 48) = unat (ascii c) - 48"
    using b(1) by (simp add: unat_sub word_le_nat_alt)
  with b have v: "uint (ascii c) - 48 = int (char_value (ascii c))"
    by (simp add: char_value_def ascii_def [of "CHR ''0''"] ascii_def [of "CHR ''a''"]
        word_le_nat_alt of_nat_diff)
  have m: "c \<noteq> CHR ''-''"
    using b(1) by (auto simp: ascii_def)
  have w: "width_loop 0 c ''u'' = Some (uint (ascii c) - 48, ''u'')"
  proof -
    have "\<not> is_digit CHR ''u''" by (simp add: is_digit_def ascii_def)
    moreover have "uint (ascii c) - 48 \<le> 9" using b unfolding uint_nat by linarith
    moreover have "uint (ascii CHR ''0'') = 48" by (simp add: ascii_def)
    ultimately show ?thesis by (subst width_loop.simps) (simp add: Let_def)
  qed
  have u: "fmt_flags ''u'' sp ap = Some (Some CHR ''u'', [], sp, ap)" for sp
    by (simp add: fmt_flags.simps [of "''u''"] cur_def is_digit_def ascii_def)
  have "fmt_flags [c, CHR ''u''] (init_spec\<lparr>f_padc := CHR ''-''\<rparr>) ap =
      Some (Some CHR ''u'', [], init_spec\<lparr>f_padc := CHR ''-'', f_width := int (char_value (ascii c))\<rparr>, ap)"
    using assms m by (simp add: fmt_flags.simps [of "[c, CHR ''u'']"] cur_def w u v process_precision_def init_spec_def)
  then show ?thesis
    by (simp add: fmt_flags.simps [of "[CHR ''-'', c, CHR ''u'']"] cur_def init_spec_def)
qed

section \<open>Properties\<close>

text \<open>
  A concrete arithmetic for the witnesses: the 64 bits read as an unsigned integer. The theorems
  hold for every arithmetic, that of IEEE doubles included.
\<close>

definition fp_integer :: fp_ops where
  "fp_integer = \<lparr>fp_mul10 = (\<lambda>u. 10 * u), fp_to_ulong = ucast\<rparr>"

lemma formatted_d_value:
  "\<exists>cs. formatted fp ''%d'' [VInt v] = Some cs \<and> read_signed cs = sint v"
proof -
  define m where "m = (if v <s 0 then - v else v)"
  define ds where "ds = map digit_char (rev (printnum_digs m 10))"
  have val: "read_number 10 ds = unat m"
    using read_number_printnum [of 10 m] by (simp add: ds_def)
  obtain c cs where ds: "ds = c # cs" by (cases ds) (simp_all add: ds_def)
  have c: "c \<noteq> ascii CHR ''-''"
    using hd_digits_not_minus [of 10 m c cs] ds by (simp add: ds_def)
  show ?thesis
  proof (cases "v <s 0")
    case True
    with formatted_d [of fp v "[]"] val neg_abs [of v] show ?thesis
      by (simp add: ds_def read_signed_def m_def)
  next
    case False
    then have "formatted fp ''%d'' [VInt v] = Some ds"
      using formatted_d [of fp v "[]"] by (simp add: ds_def m_def)
    moreover have "read_signed ds = sint v"
      using val c nonneg_sint [OF False] False by (simp add: ds read_signed_def m_def)
    ultimately show ?thesis by blast
  qed
qed

text \<open>
  The digit loop of \<open>printnum\<close> stays inside its 32-entry array and the characters printed
  denote the number, for every base the printer can write.
\<close>

theorem printnum_digits:
  assumes "2 \<le> base" and "base \<le> 36"
  shows "length (printnum_digs num base) \<le> 32
    \<and> printnum putch num base 0 padc d = fold putch (map digit_char (rev (printnum_digs num base))) d
    \<and> read_number (unat base) (map digit_char (rev (printnum_digs num base))) = unat num"
  using assms by (simp add: printnum_digs_length read_number_printnum printnum_fold number_text_def)

theorem printnum_digits_witness:
  "(2 :: u32) \<le> 16 \<and> length (printnum_digs 0xcafe 16) \<le> 32"
  by (rule conjI [OF _ conjunct1 [OF printnum_digits]]) simp_all

text \<open>\<open>%f\<close> prints the sign, the integer digits, the point and the decimals exactly when the scaled
  value has at least as many digits as decimals are asked for; with fewer digits, as for 0.05 with
  two decimals, \<open>print_double\<close> reads and writes below its buffer.
\<close>

theorem print_double_layout:
  "print_double fp putch num width prec d =
     (if prec \<le> int (length (double_digits fp num prec))
      then Some (fold putch (double_text fp num prec) d) else None)"
  by (rule print_double_text)

text \<open>Text without \<open>%\<close> is printed byte for byte, and printing goes on with the rest of the format.
\<close>

theorem formatted_literal:
  assumes "CHR ''%'' \<notin> set s" and "CHR 0x00 \<notin> set s"
  shows "formatted fp (s @ fmt) ap = map_option ((@) (map ascii s)) (formatted fp fmt ap)"
  using assms
proof (induction s)
  case Nil
  then show ?case by (simp add: option.map_id [unfolded id_def])
next
  case (Cons c s)
  then have "formatted fp (c # s @ fmt) ap = map_option ((#) (ascii c)) (formatted fp (s @ fmt) ap)"
    by (subst formatted.simps) (auto simp: cur_def)
  with Cons show ?case by (simp add: option.map_comp comp_def)
qed

theorem formatted_literal_witness:
  "formatted fp_integer (''trap'' @ []) [] = map_option ((@) (map ascii ''trap'')) (formatted fp_integer [] [])"
  by (rule formatted_literal) simp_all

text \<open>The flag \<open>-\<close> does not pad a number on the right, as its comment says: the number is padded on
  the left, with minus signs.
\<close>

theorem minus_flag_pads_left:
  assumes "is_digit c" and "c \<noteq> CHR ''0''"
  shows "formatted fp [CHR ''%'', CHR ''-'', c, CHR ''u''] [VInt v] =
    Some (replicate (char_value (ascii c) - length (printnum_digs v 10)) (ascii CHR ''-'')
      @ map digit_char (rev (printnum_digs v 10)))"
  using fmt_flags_minus_digit [OF assms, of "[VInt v]"]
  by (simp add: formatted.simps [of fp "[CHR ''%'', CHR ''-'', c, CHR ''u'']"] formatted.simps [of fp "[]"]
      cur_def fmt_escape_def fmt_convert_def fmt_number_def printnum_fold fold_collect number_text_def
      nat_minus_as_int del: fold_replicate)

theorem minus_flag_pads_left_witness:
  "formatted fp_integer ''%-3u'' [VInt 7] = Some (map ascii ''--7'')"
proof -
  have d: "printnum_digs 7 10 = [7]"
    by (simp add: printnum_digs.simps [of 7])
  have c: "char_value 51 = 3" "is_digit CHR ''3''" "digit_char 7 = 55"
    by (simp_all add: char_value_def ascii_def is_digit_def digit_char_def)
  have r: "replicate (3 - Suc 0) (45 :: u32) = [45, 45]"
    by (simp add: eval_nat_numeral)
  have "formatted fp_integer ''%-3u'' [VInt 7] =
      Some (replicate (3 - Suc 0) (45 :: u32) @ [55])"
    using minus_flag_pads_left [OF c(2), of fp_integer 7] by (simp add: d c ascii_def)
  then show ?thesis by (simp only: r) (simp add: ascii_def)
qed

end
