(* ===== verification/Printf_Spec.thy ===== *)
theory Printf_Spec
  imports Printf
begin

text \<open>
  An independent description of what \<open>printf\<close> prints. Numbers are written in positional notation over
  the natural numbers and padded to the width; \<open>argument_text\<close> gives the text of one argument under one
  conversion, and \<open>printed\<close> that of a format. The main lemma says that the interpreter of \<open>printf.c\<close>,
  with its digit array, callbacks and pointers into the format, produces this text.
\<close>

section \<open>Positional notation\<close>

definition digit_name :: "nat \<Rightarrow> char" where
  "digit_name n = ''0123456789abcdefghijklmnopqrstuvwxyz'' ! n"

fun positional :: "nat \<Rightarrow> nat \<Rightarrow> string" where
  "positional b n = (if b < 2 then [] else if n < b then [digit_name n]
     else positional b (n div b) @ [digit_name (n mod b)])"

declare positional.simps [simp del]

definition justify :: "char \<Rightarrow> int \<Rightarrow> string \<Rightarrow> string" where
  "justify c w s = replicate (nat (w - int (length s))) c @ s"

lemma digit_char_name: "x < 36 \<Longrightarrow> digit_char x = ascii (digit_name (unat x))"
proof -
  have all: "list_all (\<lambda>k. digit_char (of_nat k) = ascii (digit_name k)) [0..<36]" by code_simp
  assume "x < 36"
  then have "unat x \<in> set [0..<36]" by (simp add: word_less_nat_alt)
  with all have "digit_char (of_nat (unat x)) = ascii (digit_name (unat x))" unfolding list_all_iff by blast
  then show ?thesis by simp
qed

lemma digits_positional:
  assumes "2 \<le> base" and "base \<le> 36"
  shows "map digit_char (rev (printnum_digs num base)) = map ascii (positional (unat base) (unat num))"
  using assms
proof (induction num base rule: printnum_digs.induct)
  case (1 num base)
  have b: "2 \<le> unat base" "\<not> base < 2" using "1.prems" by (simp_all add: word_le_nat_alt not_less)
  have small: "num mod base < 36"
  proof (rule order_less_le_trans)
    show "num mod base < base" using b(1) by (intro word_mod_less_divisor) (simp add: word_less_nat_alt)
  qed (rule "1.prems"(2))
  show ?case
  proof (cases "num < base")
    case True
    then show ?thesis using b digit_char_name [OF small]
      by (simp add: printnum_digs.simps [of num] positional.simps [of _ "unat num"] word_less_nat_alt unat_mod)
  next
    case False
    with b "1.IH" "1.prems" digit_char_name [OF small] show ?thesis
      by (simp add: printnum_digs.simps [of num] positional.simps [of _ "unat num"] word_less_nat_alt unat_mod unat_div)
  qed
qed

lemma number_text_positional:
  assumes "2 \<le> base" and "base \<le> 36"
  shows "number_text num base width padc = map ascii (justify padc width (positional (unat base) (unat num)))"
proof -
  have "length (printnum_digs num base) = length (positional (unat base) (unat num))"
    using arg_cong [OF digits_positional [OF assms, of num], of length] by simp
  then show ?thesis by (simp add: number_text_def justify_def digits_positional [OF assms])
qed

section \<open>The text of a format\<close>

definition unsigned_text :: "fmt_spec \<Rightarrow> nat \<Rightarrow> u32 \<Rightarrow> u32 list" where
  "unsigned_text sp b v = map ascii (justify (f_padc sp) (f_width sp) (positional b (unat v)))"

definition signed_text :: "fmt_spec \<Rightarrow> u32 \<Rightarrow> u32 list" where
  "signed_text sp v = (if sint v < 0 then [ascii CHR ''-''] else [])
     @ map ascii (justify (f_padc sp) (f_width sp) (positional 10 (nat \<bar>sint v\<bar>)))"

definition argument_text :: "fp_ops \<Rightarrow> char \<Rightarrow> fmt_spec \<Rightarrow> vararg \<Rightarrow> u32 list option" where
  "argument_text fp ch sp a =
     (case a of
        VInt v \<Rightarrow>
          if ch = CHR ''c'' then Some [v]
          else if ch = CHR ''d'' then Some (signed_text sp v)
          else if ch = CHR ''u'' then Some (unsigned_text sp 10 v)
          else if ch = CHR ''o'' then Some (unsigned_text sp 8 v)
          else if ch = CHR ''x'' then Some (unsigned_text sp 16 v)
          else if ch = CHR ''p'' then Some (map ascii ''0x'' @ unsigned_text sp 16 v)
          else None
      | VStr p \<Rightarrow>
          if ch = CHR ''s'' then Some (str_text p (f_width sp) (f_precision sp) (f_padc sp)) else None
      | VDouble v \<Rightarrow>
          if ch = CHR ''f'' \<and> f_precision sp \<le> int (length (double_digits fp v (f_precision sp)))
          then Some (double_text fp v (f_precision sp)) else None)"

definition conversion_text :: "fp_ops \<Rightarrow> char \<Rightarrow> fmt_spec \<Rightarrow> vararg list \<Rightarrow> (u32 list \<times> vararg list) option" where
  "conversion_text fp ch sp ap =
     (if ch = CHR ''%'' then Some (map ascii ''%'', ap)
      else case ap of [] \<Rightarrow> None | a # ap \<Rightarrow> map_option (\<lambda>cs. (cs, ap)) (argument_text fp ch sp a))"

definition known_conversion :: "char \<Rightarrow> bool" where
  "known_conversion ch \<longleftrightarrow> ch \<in> set ''cfsduopx%''"

text \<open>An unknown conversion prints the percent sign, and the format goes on right behind it.\<close>

function printed :: "fp_ops \<Rightarrow> string \<Rightarrow> vararg list \<Rightarrow> u32 list option" where
  "printed fp [] ap = Some []"
| "printed fp (c # fmt) ap =
     (if c = CHR 0x00 then Some []
      else if c \<noteq> CHR ''%'' then map_option ((#) (ascii c)) (printed fp fmt ap)
      else case fmt_flags fmt init_spec ap of
          None \<Rightarrow> None
        | Some (conv, rest, sp, ap) \<Rightarrow>
            if conv = None \<or> \<not> known_conversion (the conv)
            then map_option ((#) (ascii CHR ''%'')) (printed fp fmt ap)
            else case conversion_text fp (the conv) sp ap of
                None \<Rightarrow> None
              | Some (cs, ap) \<Rightarrow> map_option ((@) cs) (printed fp rest ap))"
  by pat_completeness auto
termination
  by (relation "measure (\<lambda>(fp, fmt, ap). length fmt)") (auto dest: fmt_flags_length)

declare printed.simps(2) [simp del]

section \<open>The interpreter prints it\<close>

lemma signed_number_text:
  "(if v <s 0 then [ascii CHR ''-''] else []) @ number_text (if v <s 0 then - v else v) 10 (f_width sp) (f_padc sp)
     = signed_text sp v"
proof (cases "v <s 0")
  case True
  have "nat \<bar>sint v\<bar> = unat (- v)" using neg_abs [OF True] by linarith
  then show ?thesis using True by (simp add: signed_text_def number_text_positional word_sless_alt)
next
  case False
  then have "0 \<le> sint v" by (simp add: word_sless_alt)
  then have "nat \<bar>sint v\<bar> = unat v" using nonneg_sint [OF False] by linarith
  then show ?thesis using False by (simp add: signed_text_def number_text_positional word_sless_alt)
qed

lemma fmt_convert_text:
  assumes "known_conversion ch"
  shows "fmt_convert fp collect last_fmt ch rest sp ap [] =
    map_option (\<lambda>(cs, ap). (rest, ap, cs)) (conversion_text fp ch sp ap)"
proof (cases "ch = CHR ''%''")
  case True
  then show ?thesis by (simp add: fmt_convert_def conversion_text_def collect_def)
next
  case False
  show ?thesis
  proof (cases ap)
    case Nil
    then show ?thesis using assms [unfolded known_conversion_def] False by (auto simp: fmt_convert_def conversion_text_def)
  next
    case (Cons a as)
    show ?thesis
    proof (cases a)
      case (VInt v)
      then show ?thesis
        using assms [unfolded known_conversion_def] False Cons signed_number_text [of v sp]
        by (auto simp: fmt_convert_def conversion_text_def argument_text_def fmt_number_def printnum_fold fold_collect
            collect_def unsigned_text_def number_text_positional split: if_splits)
    next
      case (VStr p)
      then show ?thesis
        using assms [unfolded known_conversion_def] False Cons by (auto simp: fmt_convert_def conversion_text_def argument_text_def put_str_fold fold_collect)
    next
      case (VDouble v)
      then show ?thesis
        using assms [unfolded known_conversion_def] False Cons
        by (auto simp: fmt_convert_def conversion_text_def argument_text_def print_double_text fold_collect)
    qed
  qed
qed

lemma fmt_convert_bad:
  "\<not> known_conversion ch \<Longrightarrow> fmt_convert fp collect last_fmt ch rest sp ap [] = Some (last_fmt, ap, map ascii ''%'')"
  by (simp add: known_conversion_def fmt_convert_def fmt_bad_def collect_def)

lemma formatted_printed: "formatted fp fmt ap = printed fp fmt ap"
proof (induction fp fmt ap rule: printed.induct)
  case (1 fp ap)
  then show ?case by (simp add: formatted.simps [of fp "[]"] cur_def)
next
  case (2 fp c fmt ap)
  show ?case
  proof (cases "c = CHR 0x00 \<or> c \<noteq> CHR ''%''")
    case True
    then show ?thesis using "2.IH"(1)
      by (auto simp: formatted.simps [of fp "c # fmt"] printed.simps(2) cur_def)
  next
    case False
    then have c: "c \<noteq> CHR 0x00" "\<not> c \<noteq> CHR ''%''" by auto
    show ?thesis
    proof (cases "fmt_flags fmt init_spec ap")
      case None
      then show ?thesis using c
        by (simp add: formatted.simps [of fp "CHR ''%'' # fmt"] printed.simps(2) cur_def fmt_escape_def)
    next
      case (Some r)
      obtain conv rest sp ap' where r: "r = (conv, rest, sp, ap')" by (cases r)
      show ?thesis
      proof (cases "conv = None \<or> \<not> known_conversion (the conv)")
        case True
        have "fmt_escape fp collect fmt fmt init_spec ap [] = Some (fmt, ap', map ascii ''%'')"
          using True by (cases conv) (auto simp: fmt_escape_def Some r fmt_bad_def collect_def fmt_convert_bad)
        moreover have "(@) [x] = (#) x" for x :: u32 by (simp add: fun_eq_iff)
        ultimately show ?thesis
          using True c Some r "2.IH"(2) [OF c Some [unfolded r] refl refl refl True]
          by (simp add: formatted.simps [of fp "CHR ''%'' # fmt"] printed.simps(2) cur_def)
      next
        case False
        then obtain ch where ch: "conv = Some ch" "known_conversion ch" by auto
        have e: "fmt_escape fp collect fmt fmt init_spec ap [] =
            map_option (\<lambda>(cs, ap). (rest, ap, cs)) (conversion_text fp ch sp ap')"
          by (simp only: fmt_escape_def Some r ch(1) option.case prod.case fmt_convert_text [OF ch(2)])
        show ?thesis
        proof (cases "conversion_text fp ch sp ap'")
          case None
          then show ?thesis using False c Some r ch e
            by (simp add: formatted.simps [of fp "CHR ''%'' # fmt"] printed.simps(2) cur_def)
        next
          case (Some q)
          obtain cs ap'' where q: "q = (cs, ap'')" by (cases q)
          have "formatted fp rest ap'' = printed fp rest ap''"
            using "2.IH"(3) c \<open>fmt_flags fmt init_spec ap = Some r\<close> r False ch(1) Some q by simp
          with Some q False c \<open>fmt_flags fmt init_spec ap = Some r\<close> r ch e show ?thesis
            by (simp add: formatted.simps [of fp "CHR ''%'' # fmt"] printed.simps(2) cur_def)
        qed
      qed
    qed
  qed
qed

section \<open>Standard directives\<close>

text \<open>
  \<open>%\<close>, perhaps a \<open>0\<close>, perhaps a width, perhaps a point and a precision, and the conversion. Width and
  precision are positive; 0 stands for a width that is left out.
\<close>

definition directive :: "bool \<Rightarrow> nat \<Rightarrow> nat option \<Rightarrow> char \<Rightarrow> string" where
  "directive zero w p ch = ''%'' @ (if zero then ''0'' else []) @ (if w > 0 then positional 10 w else [])
     @ (case p of None \<Rightarrow> [] | Some n \<Rightarrow> ''.'' @ positional 10 n) @ [ch]"

definition directive_spec :: "bool \<Rightarrow> nat \<Rightarrow> nat option \<Rightarrow> fmt_spec" where
  "directive_spec zero w p = init_spec\<lparr>f_padc := (if zero then CHR ''0'' else CHR '' ''),
     f_width := (if w > 0 then int w else if p = None then -1 else 0),
     f_precision := (case p of None \<Rightarrow> -1 | Some n \<Rightarrow> int n)\<rparr>"

definition digit_value :: "char \<Rightarrow> int" where
  "digit_value c = uint (ascii c) - uint (ascii CHR ''0'')"

definition decimal :: "int \<Rightarrow> string \<Rightarrow> int" where
  "decimal = foldl (\<lambda>v c. v * 10 + digit_value c)"

lemma digit_name_digit: "n < 10 \<Longrightarrow> is_digit (digit_name n) \<and> digit_value (digit_name n) = int n"
proof -
  assume "n < 10"
  moreover have "list_all (\<lambda>n. is_digit (digit_name n) \<and> digit_value (digit_name n) = int n) [0..<10]" by code_simp
  ultimately show ?thesis unfolding list_all_iff by simp
qed

lemma positional_decimal: "decimal 0 (positional 10 n) = int n \<and> list_all is_digit (positional 10 n)"
proof (induction n rule: less_induct)
  case (less n)
  show ?case
  proof (cases "n < 10")
    case True
    then show ?thesis using digit_name_digit [OF True] by (simp add: positional.simps [of 10 n] decimal_def)
  next
    case False
    then have "decimal 0 (positional 10 (n div 10)) = int (n div 10) \<and> list_all is_digit (positional 10 (n div 10))"
      by (intro less) simp
    moreover have "int (n div 10) * 10 + int (n mod 10) = int n" by presburger
    ultimately show ?thesis using False digit_name_digit [of "n mod 10"]
      by (simp add: positional.simps [of 10 n] decimal_def)
  qed
qed

lemma positional_first: "0 < n \<Longrightarrow> \<exists>c cs. positional 10 n = c # cs \<and> is_digit c \<and> c \<noteq> CHR ''0''"
proof (induction n rule: less_induct)
  case (less n)
  show ?case
  proof (cases "n < 10")
    case True
    have "digit_value (CHR ''0'') = 0" by (simp add: digit_value_def)
    then show ?thesis using True less.prems digit_name_digit [OF True] by (auto simp: positional.simps [of 10 n])
  next
    case False
    then have "\<exists>c cs. positional 10 (n div 10) = c # cs \<and> is_digit c \<and> c \<noteq> CHR ''0''" by (intro less) auto
    then show ?thesis using False by (auto simp: positional.simps [of 10 n])
  qed
qed

lemma digit_value_nonneg: "is_digit c \<Longrightarrow> 0 \<le> digit_value c"
  by (simp add: is_digit_def digit_value_def word_le_def)

lemma decimal_grows: "0 \<le> v \<Longrightarrow> list_all is_digit cs \<Longrightarrow> v \<le> decimal v cs"
proof (induction cs arbitrary: v)
  case (Cons c cs)
  then have "0 \<le> digit_value c" by (simp add: digit_value_nonneg)
  with Cons.prems Cons.IH [of "v * 10 + digit_value c"] show ?case by (simp add: decimal_def)
qed (simp add: decimal_def)

lemma width_loop_decimal:
  assumes "list_all is_digit (c # cs)" and "rest \<noteq> []" and "\<not> is_digit (hd rest)" and "0 \<le> v"
    and "decimal v (c # cs) \<le> 2147483647"
  shows "width_loop v c (cs @ rest) = Some (decimal v (c # cs), rest)"
  using assms
proof (induction cs arbitrary: v c)
  case Nil
  then show ?case
    by (cases rest) (simp_all add: width_loop.simps [of v c] decimal_def digit_value_def Let_def algebra_simps)
next
  case (Cons c' cs)
  have d: "0 \<le> digit_value c" using Cons.prems(1) by (simp add: digit_value_nonneg)
  have "v * 10 + digit_value c \<le> decimal (v * 10 + digit_value c) (c' # cs)"
    using Cons.prems d by (intro decimal_grows) simp_all
  also have "\<dots> \<le> 2147483647" using Cons.prems(5) by (simp add: decimal_def)
  finally have m: "v * 10 + digit_value c \<le> 2147483647" .
  have "width_loop (v * 10 + digit_value c) c' (cs @ rest) = Some (decimal (v * 10 + digit_value c) (c' # cs), rest)"
    using Cons.prems d by (intro Cons.IH) (simp_all add: decimal_def)
  with m Cons.prems(1) show ?case
    by (simp add: width_loop.simps [of v c] decimal_def digit_value_def Let_def algebra_simps)
qed

text \<open>A positive number in a format sets the width, or the precision once the width is set.\<close>

lemma fmt_flags_number:
  assumes "0 < n" and "int n \<le> 2147483647" and "rest \<noteq> []" and "\<not> is_digit (hd rest)"
  shows "fmt_flags (positional 10 n @ rest) sp ap = fmt_flags rest (process_precision (sp\<lparr>f_precision := int n\<rparr>)) ap"
proof -
  obtain c cs where c: "positional 10 n = c # cs" "is_digit c" "c \<noteq> CHR ''0''"
    using positional_first [OF assms(1)] by blast
  have p: "decimal 0 (c # cs) = int n" "list_all is_digit (c # cs)"
    using positional_decimal [of n] c(1) by simp_all
  have w: "width_loop 0 c (cs @ rest) = Some (int n, rest)"
    using width_loop_decimal [OF p(2) assms(3,4), of 0] p(1) assms(2) by simp
  have "c \<noteq> CHR ''-''" using c(2) by (auto simp: is_digit_def ascii_def)
  then show ?thesis using c w by (simp add: fmt_flags.simps [of "c # cs @ rest"] cur_def)
qed

lemma conversion_chars:
  assumes "ch \<in> set ''cfsduopx''"
  shows "\<not> is_digit ch" and "fmt_flags (ch # rest) sp ap = Some (Some ch, rest, sp, ap)"
proof -
  have "list_all (\<lambda>ch. \<not> is_digit ch \<and> ch \<notin> set ''-0*.#l'') ''cfsduopx''" by code_simp
  with assms have d: "\<not> is_digit ch" "ch \<notin> set ''-0*.#l''" unfolding list_all_iff by blast+
  show "\<not> is_digit ch" by (rule d(1))
  show "fmt_flags (ch # rest) sp ap = Some (Some ch, rest, sp, ap)"
    using d by (simp add: fmt_flags.simps [of "ch # rest"] cur_def)
qed

lemma fmt_flags_directive:
  assumes "ch \<in> set ''cfsduopx''" and "int w \<le> 2147483647" and "\<And>n. p = Some n \<Longrightarrow> 0 < n \<and> int n \<le> 2147483647"
  shows "fmt_flags (tl (directive zero w p ch) @ rest) init_spec ap
    = Some (Some ch, rest, directive_spec zero w p, ap)"
proof -
  note conv = conversion_chars [OF assms(1)]
  let ?P = "case p of None \<Rightarrow> [] | Some n \<Rightarrow> ''.'' @ positional 10 n"
  define sp0 where "sp0 = init_spec\<lparr>f_padc := (if zero then CHR ''0'' else CHR '' '')\<rparr>"
  define sp1 where "sp1 = (if w > 0 then sp0\<lparr>f_width := int w\<rparr> else sp0)"
  have z: "fmt_flags ((if zero then ''0'' else []) @ r) init_spec ap = fmt_flags r sp0 ap" for r
    by (simp add: fmt_flags.simps [of "CHR ''0'' # r"] cur_def sp0_def init_spec_def)
  have nd: "?P @ ch # rest \<noteq> []" "\<not> is_digit (hd (?P @ ch # rest))"
    using conv(1) by (auto simp: is_digit_def ascii_def split: option.splits)
  have w: "fmt_flags ((if w > 0 then positional 10 w else []) @ ?P @ ch # rest) sp0 ap = fmt_flags (?P @ ch # rest) sp1 ap"
    using fmt_flags_number [OF _ assms(2) nd] by (simp add: sp1_def sp0_def process_precision_def init_spec_def)
  have "fmt_flags (?P @ ch # rest) sp1 ap = Some (Some ch, rest, directive_spec zero w p, ap)"
  proof (cases p)
    case None
    then show ?thesis using conv(2) by (auto simp: directive_spec_def sp1_def sp0_def init_spec_def)
  next
    case (Some n)
    have n: "0 < n" "int n \<le> 2147483647" using assms(3) [OF Some] by simp_all
    show ?thesis using conv fmt_flags_number [OF n, of "ch # rest"] Some
      by (auto simp: fmt_flags.simps [of "CHR ''.'' # positional 10 n @ ch # rest"] cur_def is_digit_def ascii_def
          directive_spec_def sp1_def sp0_def init_spec_def process_precision_def)
  qed
  then show ?thesis using z w by (simp add: directive_def)
qed

lemma printed_directive:
  assumes "ch \<in> set ''cfsduopx''" and "int w \<le> 2147483647" and "\<And>n. p = Some n \<Longrightarrow> 0 < n \<and> int n \<le> 2147483647"
    and "argument_text fp ch (directive_spec zero w p) a = Some cs"
  shows "printed fp (directive zero w p ch @ fmt) (a # ap) = map_option ((@) cs) (printed fp fmt ap)"
proof -
  obtain t where t: "directive zero w p ch = CHR ''%'' # t" "t = tl (directive zero w p ch)"
    by (simp add: directive_def)
  have "fmt_flags (t @ fmt) init_spec (a # ap) = Some (Some ch, fmt, directive_spec zero w p, a # ap)"
    unfolding t(2) by (rule fmt_flags_directive) (use assms in auto)
  moreover have "known_conversion ch" "ch \<noteq> CHR ''%''" using assms(1) by (auto simp: known_conversion_def)
  ultimately show ?thesis using assms(4) t(1) by (simp add: printed.simps(2) conversion_text_def)
qed

section \<open>Properties\<close>

text \<open>
  C1: \<open>printf\<close> sends to \<open>putchar\<close>, in order, exactly the characters the specification \<open>printed\<close>
  assigns to the format and its arguments, whatever \<open>putchar\<close> does with them, and returns 0; it is
  defined exactly when the specification is.
\<close>

theorem wrap_printf_refines:
  "wrap_printf fp putchar fmt ap d = map_option (\<lambda>cs. (0, fold putchar cs d)) (printed fp fmt ap)"
  by (simp add: wrap_printf_def vprintfmt_formatted formatted_printed bind_map_option comp_def map_conv_bind_option)

text \<open>
  C27: \<open>sprintf\<close> stores the formatted bytes at the given address followed by a NUL, leaves every
  other byte of memory as it was, and returns the number of bytes before the NUL, provided the
  text fits the 32-bit address space.
\<close>

theorem wrap_sprintf_correct:
  assumes "printed fp fmt ap = Some cs" and "length cs + 1 < 2 ^ 32"
  shows "\<exists>mem'. wrap_sprintf fp str fmt ap mem = Some (of_nat (length cs), mem')
    \<and> (\<forall>i < length cs. mem' (str + of_nat i) = ucast (cs ! i))
    \<and> mem' (str + of_nat (length cs)) = 0
    \<and> (\<forall>a. unat (a - str) > length cs \<longrightarrow> mem' a = mem a)"
proof -
  define st where "st = fold sprintf_putch cs \<lparr>sp_mem = mem, sp_ptr = str\<rparr>"
  have len: "unat (of_nat (length cs) :: u32) = length cs"
    using assms(2) by (simp add: unat_of_nat take_bit_nat_eq_self)
  have ptr: "sp_ptr st = str + of_nat (length cs)" by (simp add: st_def sprintf_fold_ptr)
  have w: "sprintf_written str st = map ucast cs"
    using sprintf_sink.fold_written [of str "\<lparr>sp_mem = mem, sp_ptr = str\<rparr>" cs 0] assms(2)
    by (simp add: st_def sprintf_room_def sprintf_written_def)
  have bytes: "sp_mem st (str + of_nat i) = ucast (cs ! i)" if "i < length cs" for i
  proof -
    have "sprintf_written str st ! i = sp_mem st (str + of_nat i)"
      using that by (simp add: sprintf_written_def ptr len)
    then show ?thesis using w that by simp
  qed
  have frame: "sp_mem st a = mem a" if "length cs < unat (a - str)" for a
    using that by (simp add: st_def sprintf_fold_frame)
  have ne: "str + of_nat i \<noteq> sp_ptr st" if "i < length cs" for i
    using that len by (auto simp: ptr) (metis le_unat_uoi less_imp_le_nat nat_less_le)
  have "wrap_sprintf fp str fmt ap mem = Some (of_nat (length cs), (sp_mem st)(sp_ptr st := 0))"
    by (simp add: wrap_sprintf_def vprintfmt_formatted formatted_printed assms(1) st_def [symmetric] ptr)
  moreover have "a \<noteq> sp_ptr st" if "length cs < unat (a - str)" for a
    using that len by (auto simp: ptr)
  ultimately show ?thesis
    using bytes frame ne by (intro exI [of _ "(sp_mem st)(sp_ptr st := 0)"]) (simp add: ptr)
qed

theorem wrap_sprintf_correct_witness:
  "\<exists>mem'. wrap_sprintf fp_integer 0x10000000 ''ok'' [] (\<lambda>_. 7) = Some (2, mem')
    \<and> mem' 0x10000000 = 111 \<and> mem' 0x10000001 = 107 \<and> mem' 0x10000002 = 0 \<and> mem' 0x10000003 = 7"
proof -
  have f: "printed fp_integer ''ok'' [] = Some [111, 107]" by (simp add: printed.simps(2) ascii_def)
  obtain mem' where m: "wrap_sprintf fp_integer 0x10000000 ''ok'' [] (\<lambda>_. 7) = Some (of_nat (length [111, 107 :: u32]), mem')"
    and b: "\<forall>i < length [111, 107 :: u32]. mem' (0x10000000 + of_nat i) = ucast ([111, 107 :: u32] ! i)"
    and z: "mem' (0x10000000 + of_nat (length [111, 107 :: u32])) = 0"
    and r: "\<forall>a. unat (a - 0x10000000) > length [111, 107 :: u32] \<longrightarrow> mem' a = 7"
    using wrap_sprintf_correct [OF f, where str = "0x10000000" and mem = "\<lambda>_. 7"] by auto
  show ?thesis
    using m z spec [OF b, of 0] spec [OF b, of 1] spec [OF r, of "0x10000003"]
    by (intro exI [of _ mem']) simp
qed

text \<open>
  C24: The number printed by \<open>%d\<close> reads back as the two's complement value of the argument, for
  every 32-bit argument, \<open>INT_MIN\<close> included, and whatever \<open>putchar\<close> does.
\<close>

theorem percent_d_roundtrip:
  "\<exists>cs. wrap_printf fp putchar ''%d'' [VInt v] d = Some (0, fold putchar cs d) \<and> read_signed cs = sint v"
  using formatted_d_value [of fp v]
  by (auto simp: wrap_printf_def vprintfmt_formatted)

text \<open>
  C28: A directive with an optional \<open>0\<close>, width, precision and any conversion prints the text of its
  argument: numbers in positional notation, with the sign, padded on the left to the width with blanks
  or zeros; strings cut to the precision; decimals after the point.
\<close>

theorem printf_directive:
  assumes "ch \<in> set ''cfsduopx''" and "int w \<le> 2147483647" and "\<And>n. p = Some n \<Longrightarrow> 0 < n \<and> int n \<le> 2147483647"
    and "argument_text fp ch (directive_spec zero w p) a = Some cs"
  shows "wrap_printf fp putchar (directive zero w p ch) (a # ap) d = Some (0, fold putchar cs d)"
proof -
  have "printed fp (directive zero w p ch) (a # ap) = Some cs"
    using printed_directive [OF assms(1,2) _ assms(4), of "[]" ap] assms(3) by simp
  then show ?thesis
    by (simp add: wrap_printf_def vprintfmt_formatted formatted_printed)
qed

theorem printf_directive_witness:
  "wrap_printf fp_integer collect (directive True 8 None CHR ''x'') [VInt 0xBEEF] [] = Some (0, map ascii ''0000beef'')"
proof -
  have "positional 16 48879 = ''beef''"
    by (simp add: positional.simps [of _ 48879] positional.simps [of _ 3054] positional.simps [of _ 190]
        positional.simps [of _ 11] digit_name_def)
  moreover have "replicate 4 c = [c, c, c, c]" for c :: char by (simp add: numeral_eq_Suc)
  ultimately have "argument_text fp_integer CHR ''x'' (directive_spec True 8 None) (VInt 0xBEEF) = Some (map ascii ''0000beef'')"
    by (simp add: argument_text_def unsigned_text_def directive_spec_def justify_def)
  from printf_directive [OF _ _ _ this, of collect "[]" "[]"] show ?thesis by (simp add: collect_def)
qed

end
