(* ===== verification/Queue.thy ===== *)
theory Queue
  imports Prelude
begin

text \<open>
  The first-in first-out queue of \<open>design/mem/uv_queue.v\<close>, which buffers both directions of the UART
  and of the SPI controllers: an eight-entry ring with a 3-bit write pointer, a 3-bit read pointer
  and a 4-bit length. One clock edge is \<open>queue_step\<close>. The ring refines a list of at most eight
  elements (\<open>queue_step_refines\<close>); the locale \<open>bounded_fifo\<close> is the interface the device models use,
  interpreted on the ring.
\<close>

section \<open>The ring\<close>

record 'a queue =
  q_mem :: "'a list"   \<comment> \<open>\<open>que\<close>\<close>
  q_wr :: "3 word"     \<comment> \<open>\<open>wr_ptr_r\<close>\<close>
  q_rd :: "3 word"     \<comment> \<open>\<open>rd_ptr_r\<close>\<close>
  q_len :: "4 word"    \<comment> \<open>\<open>len_r\<close>\<close>

definition que_depth :: nat where
  "que_depth = 8"

definition q_full :: "'a queue \<Rightarrow> bool" where
  "q_full q \<longleftrightarrow> q_len q = of_nat que_depth"

definition q_empty :: "'a queue \<Rightarrow> bool" where
  "q_empty q \<longleftrightarrow> q_len q = 0"

text \<open>The pointer increment: the sum has three bits, so the comparison with the depth is always true.\<close>

definition ptr_nxt :: "3 word \<Rightarrow> 3 word" where
  "ptr_nxt p = (if unat (p + 1) < que_depth then p + 1 else 0)"

definition queue_step :: "bool \<Rightarrow> 'a \<Rightarrow> bool \<Rightarrow> bool \<Rightarrow> 'a queue \<Rightarrow> 'a queue" where
  "queue_step wr_vld wr_dat rd_vld clr q =
     (let wr_fire = wr_vld \<and> \<not> q_full q;
          rd_fire = rd_vld \<and> \<not> q_empty q;
          wr_only = wr_fire \<and> \<not> rd_fire;
          rd_only = rd_fire \<and> \<not> wr_fire
      in \<lparr>q_mem = (if clr \<and> wr_fire then (q_mem q)[0 := wr_dat]
                  else if \<not> clr \<and> wr_fire then (q_mem q)[unat (q_wr q) := wr_dat]
                  else q_mem q),
          q_wr = (if clr \<and> \<not> wr_fire then 0
                  else if clr \<and> wr_fire then 1
                  else if \<not> clr \<and> wr_fire then ptr_nxt (q_wr q)
                  else q_wr q),
          q_rd = (if clr then 0 else if rd_fire then ptr_nxt (q_rd q) else q_rd q),
          q_len = (if clr then if wr_fire then 1 else 0
                   else if wr_only then q_len q + 1
                   else if rd_only then q_len q - 1
                   else q_len q)\<rparr>)"

text \<open>The read data, combinational when \<open>ZERO_RDLY\<close> is set, as in every instance of the design.\<close>

definition q_rd_dat :: "'a queue \<Rightarrow> 'a" where
  "q_rd_dat q = q_mem q ! unat (q_rd q)"

text \<open>The reset state; the memory array has no reset.\<close>

definition q_reset :: "'a list \<Rightarrow> 'a queue" where
  "q_reset m = \<lparr>q_mem = m, q_wr = 0, q_rd = 0, q_len = 0\<rparr>"

section \<open>The abstract queue\<close>

definition q_ok :: "'a queue \<Rightarrow> bool" where
  "q_ok q \<longleftrightarrow> length (q_mem q) = que_depth \<and> unat (q_len q) \<le> que_depth
     \<and> q_wr q = q_rd q + of_nat (unat (q_len q))"

definition q_items :: "'a queue \<Rightarrow> 'a list" where
  "q_items q = map (\<lambda>i. q_mem q ! unat (q_rd q + of_nat i)) [0..<unat (q_len q)]"

lemma q_items_length [simp]: "length (q_items q) = unat (q_len q)"
  by (simp add: q_items_def)

lemma unat_3_less: "unat (p :: 3 word) < 8"
  using unsigned_less [of p, where 'a = nat] by simp

lemma ptr_nxt_eq [simp]: "ptr_nxt p = p + 1"
  using unat_3_less [of "p + 1"] by (simp add: ptr_nxt_def que_depth_def)

lemma ptr_add_inj:
  "i < 8 \<Longrightarrow> j < 8 \<Longrightarrow> (p :: 3 word) + of_nat i = p + of_nat j \<longleftrightarrow> i = j"
  by (simp add: word_unat_eq_iff [of "of_nat i"] unat_of_nat take_bit_nat_eq_self)

lemma q_full_iff: "q_ok q \<Longrightarrow> q_full q \<longleftrightarrow> length (q_items q) = que_depth"
  by (auto simp: q_full_def q_ok_def que_depth_def word_unat_eq_iff)

lemma q_empty_iff: "q_empty q \<longleftrightarrow> q_items q = []"
  by (auto simp: q_empty_def q_items_def word_unat_eq_iff)

lemma q_reset_ok: "length m = que_depth \<Longrightarrow> q_ok (q_reset m)"
  and q_reset_items: "q_items (q_reset m) = []"
  by (simp_all add: q_reset_def q_ok_def q_items_def)

text \<open>The three elementary moves of the ring.\<close>

definition q_push :: "'a \<Rightarrow> 'a queue \<Rightarrow> 'a queue" where
  "q_push x = queue_step True x False False"

definition q_pop :: "'a queue \<Rightarrow> 'a queue" where
  "q_pop q = queue_step False (q_rd_dat q) True False q"

definition q_clear :: "'a queue \<Rightarrow> 'a queue" where
  "q_clear q = queue_step False (q_rd_dat q) False True q"

lemma unat_succ_4: "unat (n :: 4 word) < 8 \<Longrightarrow> unat (n + 1) = unat n + 1"
  by (simp add: unat_word_ariths)

lemma unat_pred_4: "(n :: 4 word) \<noteq> 0 \<Longrightarrow> unat (n - 1) = unat n - 1"
  by (simp add: unat_minus_one)

lemma q_items_rd: "q_items q \<noteq> [] \<Longrightarrow> hd (q_items q) = q_rd_dat q"
  by (simp add: q_items_def q_rd_dat_def hd_map)

lemma q_push_items:
  assumes "q_ok q" and "length (q_items q) < que_depth"
  shows "q_items (q_push x q) = q_items q @ [x]" and "q_ok (q_push x q)"
proof -
  let ?n = "unat (q_len q)"
  have n: "?n < 8" and l: "length (q_mem q) = 8" and w: "q_wr q = q_rd q + of_nat ?n"
    using assms by (simp_all add: q_ok_def que_depth_def)
  have nf: "\<not> q_full q" using assms q_full_iff [of q] by simp
  have p: "q_push x q = q\<lparr>q_mem := (q_mem q)[unat (q_wr q) := x], q_wr := q_wr q + 1, q_len := q_len q + 1\<rparr>"
    using nf by (simp add: q_push_def queue_step_def Let_def)
  have n1: "unat (q_len q + 1) = Suc ?n" using n by (simp add: unat_succ_4)
  have ix: "(q_mem q)[unat (q_wr q) := x] ! unat (q_rd q + of_nat i) =
      (if i = ?n then x else q_mem q ! unat (q_rd q + of_nat i))" if "i < Suc ?n" for i
    using that n l unat_3_less [of "q_rd q + of_nat i"] ptr_add_inj [of i ?n "q_rd q"]
    by (auto simp: w nth_list_update word_unat_eq_iff simp del: word_of_nat_eq_iff)
  show "q_items (q_push x q) = q_items q @ [x]"
    using ix ix [of ?n] by (simp add: p q_items_def n1)
  show "q_ok (q_push x q)"
    using n by (simp add: p q_ok_def l n1 que_depth_def w)
qed

lemma q_pop_items:
  assumes "q_ok q" and "q_items q \<noteq> []"
  shows "q_items (q_pop q) = tl (q_items q)" and "q_ok (q_pop q)"
proof -
  have ne: "\<not> q_empty q" using assms(2) q_empty_iff by blast
  then have n0: "q_len q \<noteq> 0" by (simp add: q_empty_def)
  have p: "q_pop q = q\<lparr>q_rd := q_rd q + 1, q_len := q_len q - 1\<rparr>"
    using ne by (simp add: q_pop_def queue_step_def Let_def)
  obtain n where n: "unat (q_len q) = Suc n"
    using n0 by (metis not0_implies_Suc unat_eq_zero)
  have n1: "unat (q_len q - 1) = n" using n n0 by (simp add: unat_pred_4)
  show "q_items (q_pop q) = tl (q_items q)"
    by (simp add: p q_items_def n n1 map_tl [symmetric] tl_upt map_Suc_upt [symmetric] add.assoc comp_def
        del: upt_Suc)
  show "q_ok (q_pop q)"
    using assms(1) n by (simp add: p q_ok_def n1)
qed

lemma q_clear_items:
  assumes "q_ok q"
  shows "q_items (q_clear q) = []" and "q_ok (q_clear q)"
  using assms by (simp_all add: q_clear_def queue_step_def q_items_def q_ok_def Let_def)

text \<open>
  Any step, in terms of the list: a write fires when the queue is not full before the edge, a read
  when it is not empty; a clear drops everything but an element written at the same edge.
\<close>

definition fifo_spec :: "bool \<Rightarrow> 'a \<Rightarrow> bool \<Rightarrow> bool \<Rightarrow> 'a list \<Rightarrow> 'a list" where
  "fifo_spec wr_vld x rd_vld clr xs =
     (let new = (if wr_vld \<and> length xs < que_depth then [x] else [])
      in if clr then new else (if rd_vld then tl xs else xs) @ new)"

lemma queue_step_clear:
  assumes "q_ok q"
  shows "q_ok (queue_step w x r True q)"
    and "q_items (queue_step w x r True q) = fifo_spec w x r True (q_items q)"
proof -
  have l: "length (q_mem q) = 8" using assms by (simp add: q_ok_def que_depth_def)
  have f: "q_full q \<longleftrightarrow> \<not> length (q_items q) < que_depth"
    using assms q_full_iff [OF assms] by (auto simp: q_ok_def)
  show "q_ok (queue_step w x r True q)"
    by (simp add: queue_step_def q_ok_def que_depth_def l Let_def)
  show "q_items (queue_step w x r True q) = fifo_spec w x r True (q_items q)"
    using l f by (simp add: queue_step_def q_items_def fifo_spec_def que_depth_def Let_def)
qed

lemma queue_step_push_pop:
  assumes "q_ok q" and "q_items q \<noteq> []" and "length (q_items q) < que_depth"
  shows "queue_step True x True False q = q_pop (q_push x q)"
proof -
  have n: "unat (q_len q) < 8" using assms by (simp add: que_depth_def)
  have "q_len q + 1 \<noteq> 0" using n unat_succ_4 [of "q_len q"] by auto
  moreover have "\<not> q_full q" "\<not> q_empty q"
    using assms q_full_iff [of q] q_empty_iff [of q] by auto
  ultimately show ?thesis
    by (simp add: queue_step_def q_pop_def q_push_def Let_def q_empty_def)
qed

lemma queue_step_run:
  assumes "q_ok q"
  shows "q_ok (queue_step w x r False q)
    \<and> q_items (queue_step w x r False q) = fifo_spec w x r False (q_items q)"
proof -
  have f: "q_full q \<longleftrightarrow> \<not> length (q_items q) < que_depth"
    using assms q_full_iff [OF assms] by (auto simp: q_ok_def)
  let ?w = "w \<and> length (q_items q) < que_depth" and ?r = "r \<and> q_items q \<noteq> []"
  consider "?w" "?r" | "?w" "\<not> ?r" | "\<not> ?w" "?r" | "\<not> ?w" "\<not> ?r" by blast
  then show ?thesis
  proof cases
    case 1
    then have "queue_step w x r False q = q_pop (q_push x q)"
      using queue_step_push_pop [OF assms] by simp
    with 1 show ?thesis
      using q_push_items [OF assms, of x] q_pop_items [of "q_push x q"]
      by (simp add: fifo_spec_def)
  next
    case 2
    then have "queue_step w x r False q = q_push x q"
      using q_empty_iff [of q] by (auto simp: queue_step_def q_push_def Let_def)
    with 2 show ?thesis
      using q_push_items [OF assms, of x] by (auto simp: fifo_spec_def)
  next
    case 3
    then have "queue_step w x r False q = q_pop q"
      using f q_empty_iff [of q] by (auto simp: queue_step_def q_pop_def Let_def)
    with 3 show ?thesis
      using q_pop_items [OF assms] by (auto simp: fifo_spec_def)
  next
    case 4
    then have "queue_step w x r False q = q"
      using f q_empty_iff [of q] by (auto simp: queue_step_def Let_def)
    with 4 show ?thesis using assms by (auto simp: fifo_spec_def)
  qed
qed

section \<open>The interface of the queue\<close>

text \<open>Reading \<open>n\<close> elements through the interface.\<close>

fun drain :: "('q \<Rightarrow> 'q) \<Rightarrow> ('q \<Rightarrow> 'a) \<Rightarrow> nat \<Rightarrow> 'q \<Rightarrow> 'a list \<times> 'q" where
  "drain pop front 0 q = ([], q)"
| "drain pop front (Suc n) q = (let (xs, q') = drain pop front n (pop q) in (front q # xs, q'))"

text \<open>What the register blocks rely on: the operations they call and the laws they need.\<close>

locale bounded_fifo =
  fixes push :: "'a \<Rightarrow> 'q \<Rightarrow> 'q"
    and pop :: "'q \<Rightarrow> 'q"
    and clear :: "'q \<Rightarrow> 'q"
    and front :: "'q \<Rightarrow> 'a"
    and items :: "'q \<Rightarrow> 'a list"
    and ok :: "'q \<Rightarrow> bool"
    and cap :: nat
  assumes push_ok: "ok q \<Longrightarrow> ok (push x q)"
    and pop_ok: "ok q \<Longrightarrow> ok (pop q)"
    and clear_ok: "ok q \<Longrightarrow> ok (clear q)"
    and push_items: "ok q \<Longrightarrow> items (push x q) = (if length (items q) < cap then items q @ [x] else items q)"
    and pop_items: "ok q \<Longrightarrow> items (pop q) = tl (items q)"
    and clear_items: "ok q \<Longrightarrow> items (clear q) = []"
    and front_items: "items q \<noteq> [] \<Longrightarrow> front q = hd (items q)"
    and within: "ok q \<Longrightarrow> length (items q) \<le> cap"
begin

lemma push_all_ok: "ok q \<Longrightarrow> ok (fold push xs q)"
  by (induction xs arbitrary: q) (auto simp: push_ok)

lemma push_all_items:
  "ok q \<Longrightarrow> items (fold push xs q) = items q @ take (cap - length (items q)) xs"
proof (induction xs arbitrary: q)
  case (Cons x xs)
  from Cons.IH [of "push x q"] Cons.prems show ?case
    by (auto simp: push_ok push_items take_Cons' not_less dest: within)
qed simp

lemma drain_items:
  "ok q \<Longrightarrow> n \<le> length (items q) \<Longrightarrow> fst (drain pop front n q) = take n (items q)
     \<and> ok (snd (drain pop front n q)) \<and> items (snd (drain pop front n q)) = drop n (items q)"
proof (induction n arbitrary: q)
  case (Suc n)
  then obtain x xs where q: "items q = x # xs" by (cases "items q") auto
  with Suc.IH [of "pop q"] Suc.prems show ?case
    by (auto simp: pop_ok pop_items front_items case_prod_unfold Let_def)
qed simp

lemma fifo_order:
  assumes "ok q" and "items q = []" and "length xs \<le> cap"
  shows "fst (drain pop front (length xs) (fold push xs q)) = xs"
  using assms drain_items [of "fold push xs q" "length xs"]
  by (simp add: push_all_ok push_all_items)

end

interpretation ring: bounded_fifo q_push q_pop q_clear q_rd_dat q_items q_ok que_depth
proof unfold_locales
  fix q :: "'a queue" and x
  assume ok: "q_ok q"
  show "q_ok (q_push x q)" "q_ok (q_pop q)" "q_ok (q_clear q)"
    using queue_step_run [OF ok] queue_step_clear [OF ok]
    by (simp_all add: q_push_def q_pop_def q_clear_def)
  show "q_items (q_push x q) = (if length (q_items q) < que_depth then q_items q @ [x] else q_items q)"
    using queue_step_run [OF ok] by (simp add: q_push_def fifo_spec_def)
  show "q_items (q_pop q) = tl (q_items q)"
    using queue_step_run [OF ok] by (simp add: q_pop_def fifo_spec_def)
  show "q_items (q_clear q) = []" using q_clear_items [OF ok] by simp
  show "length (q_items q) \<le> que_depth" using ok by (simp add: q_ok_def)
next
  show "q_items q \<noteq> [] \<Longrightarrow> q_rd_dat q = hd (q_items q)" for q :: "'a queue"
    by (simp add: q_items_rd)
qed

section \<open>Properties\<close>

text \<open>
  C10: Every clock edge of the ring, for every combination of write, read and clear requests,
  keeps the pointers consistent and does to the queued elements what the bounded list does.
\<close>

theorem queue_step_refines:
  assumes "q_ok q"
  shows "q_ok (queue_step wr_vld x rd_vld clr q)
    \<and> q_items (queue_step wr_vld x rd_vld clr q) = fifo_spec wr_vld x rd_vld clr (q_items q)"
  using queue_step_run [OF assms] queue_step_clear [OF assms] by (cases clr) auto

theorem queue_step_refines_witness:
  "q_ok (q_reset (replicate 8 (0 :: u8))) \<and>
   q_items (queue_step True 65 False False (q_reset (replicate 8 (0 :: u8)))) = [65]"
proof -
  have ok: "q_ok (q_reset (replicate 8 (0 :: u8)))"
    by (rule q_reset_ok) (simp add: que_depth_def)
  with queue_step_refines [OF ok, of True 65 False False] show ?thesis
    by (simp add: q_reset_items fifo_spec_def que_depth_def)
qed

end
