(* ===== verification/Devices.thy ===== *)
theory Devices
  imports Queue
begin

text \<open>
  The register blocks the driver talks to, one bus transaction at a time: the system-level
  controller (\<open>design/dev/uv_slc.v\<close>), the UART (\<open>uv_uart_reg.v\<close> with its two queues of
  \<open>uv_uart_apb.v\<close>) and the SPI controller (\<open>uv_spi_reg.v\<close>). A write carries the data and the byte
  strobes, here as a 32-bit mask that is all ones on the strobed bytes. The register indices are the
  \<open>localparam\<close>s of the Verilog; an index that no register has is answered with an error (\<open>None\<close>).
  Serialisation on the wires is not modelled: a transmitter takes words from its queue and a
  receiver puts words into its queue, as environment moves.
\<close>

section \<open>Byte strobes\<close>

definition merge :: "u32 \<Rightarrow> u32 \<Rightarrow> u32 \<Rightarrow> u32" where
  "merge strb data old = (old AND NOT strb) OR (data AND strb)"

lemma merge_all [simp]: "merge (- 1) data old = data"
  by (simp add: merge_def)

section \<open>System-level controller\<close>

text \<open>The registers an access can select (\<open>*_match\<close>).\<close>

datatype slc_sel =
  Rst_vec | Sft_irq | Tmr_cfg | Tmr_val | Tmr_valh | Tmr_cmp | Tmr_cmph | Slc_rst | Dev_rst
  | Sys_icg | Scratch | Gpio_mode | Irq_claim | Target_th
  | Ext_ip nat | Ext_ie nat | Ext_pr nat | Ext_tg nat

definition slc_decode :: "nat \<Rightarrow> slc_sel option" where
  "slc_decode i =
     (if i = 0 then Some Rst_vec
      else if i = 1 then Some Sft_irq
      else if i = 2 then Some Tmr_cfg
      else if i = 3 then Some Tmr_val
      else if i = 4 then Some Tmr_valh
      else if i = 5 then Some Tmr_cmp
      else if i = 6 then Some Tmr_cmph
      else if i = 7 then Some Slc_rst
      else if i = 8 then Some Dev_rst
      else if i = 9 then Some Sys_icg
      else if i = 10 then Some Scratch
      else if i = 11 then Some Gpio_mode
      else if i = 14 then Some Irq_claim
      else if i = 15 then Some Target_th
      else if 16 \<le> i \<and> i \<le> 17 then Some (Ext_ip (i - 16))
      else if 18 \<le> i \<and> i \<le> 19 then Some (Ext_ie (i - 18))
      else if 20 \<le> i \<and> i \<le> 83 then Some (Ext_pr (i - 20))
      else if 84 \<le> i \<and> i \<le> 147 then Some (Ext_tg (i - 84))
      else None)"

record slc_regs =
  rst_vec_r :: u32
  sft_irq_r :: bool
  tmr_irq_r :: bool
  tmr_cnt_r :: bool
  tmr_auto_clr_r :: bool
  tmr_clk_div_r :: u16
  tmr_val_r :: u64
  tmr_cmp_r :: u64
  dev_rst_r :: u32
  sys_icg_r :: u32
  scratch_r :: u32
  gpio_mode_r :: bool
  sel_irq_id_r :: "6 word"
  ext_irq_r :: bool
  target_th_r :: "3 word"
  irq_gate_lock_r :: "nat \<Rightarrow> bool"
  irq_ip_r :: "nat \<Rightarrow> bool"
  irq_ie_r :: "nat \<Rightarrow> u32"        \<comment> \<open>\<open>irq_ie_r\<close> in 32-bit slices\<close>
  irq_pr_r :: "nat \<Rightarrow> 3 word"
  irq_tg_r :: "nat \<Rightarrow> 2 word"

definition tmr_lo :: "u64 \<Rightarrow> u32" where
  "tmr_lo v = ucast v"

definition tmr_hi :: "u64 \<Rightarrow> u32" where
  "tmr_hi v = ucast (drop_bit 32 v)"

definition tmr_join :: "u32 \<Rightarrow> u32 \<Rightarrow> u64" where
  "tmr_join hi lo = push_bit 32 (ucast hi) OR ucast lo"

text \<open>\<open>{tmr_clk_div_r, 14'b0, tmr_auto_clr_r, tmr_cnt_r}\<close>\<close>

definition tmr_cfg_word :: "slc_regs \<Rightarrow> u32" where
  "tmr_cfg_word r = push_bit 16 (ucast (tmr_clk_div_r r))
     OR (if tmr_auto_clr_r r then 2 else 0) OR (if tmr_cnt_r r then 1 else 0)"

definition ip_word :: "(nat \<Rightarrow> bool) \<Rightarrow> nat \<Rightarrow> u32" where
  "ip_word ip k = horner_sum of_bool 2 (map (\<lambda>j. ip (32 * k + j)) [0..<32])"

definition slc_read :: "slc_sel \<Rightarrow> slc_regs \<Rightarrow> u32 \<times> slc_regs" where
  "slc_read sel r =
     (case sel of
        Rst_vec \<Rightarrow> (rst_vec_r r, r)
      | Sft_irq \<Rightarrow> (if sft_irq_r r then 1 else 0, r)
      | Tmr_cfg \<Rightarrow> (tmr_cfg_word r, r)
      | Tmr_val \<Rightarrow> (tmr_lo (tmr_val_r r), r)
      | Tmr_valh \<Rightarrow> (tmr_hi (tmr_val_r r), r)
      | Tmr_cmp \<Rightarrow> (tmr_lo (tmr_cmp_r r), r)
      | Tmr_cmph \<Rightarrow> (tmr_hi (tmr_cmp_r r), r)
      | Slc_rst \<Rightarrow> (0, r)
      | Dev_rst \<Rightarrow> (0, r)
      | Sys_icg \<Rightarrow> (sys_icg_r r, r)
      | Scratch \<Rightarrow> (scratch_r r, r)
      | Gpio_mode \<Rightarrow> (if gpio_mode_r r then 1 else 0, r)
      | Irq_claim \<Rightarrow> (ucast (sel_irq_id_r r), r\<lparr>irq_ip_r := (irq_ip_r r)(unat (sel_irq_id_r r) := False)\<rparr>)
      | Target_th \<Rightarrow> (ucast (target_th_r r), r)
      | Ext_ip k \<Rightarrow> (ip_word (irq_ip_r r) k, r)
      | Ext_ie k \<Rightarrow> (irq_ie_r r k, r)
      | Ext_pr k \<Rightarrow> (ucast (irq_pr_r r k), r)
      | Ext_tg k \<Rightarrow> (ucast (irq_tg_r r k), r))"

definition slc_write :: "slc_sel \<Rightarrow> u32 \<Rightarrow> u32 \<Rightarrow> slc_regs \<Rightarrow> slc_regs" where
  "slc_write sel strb data r =
     (case sel of
        Rst_vec \<Rightarrow> r\<lparr>rst_vec_r := merge strb data (rst_vec_r r)\<rparr>
      | Sft_irq \<Rightarrow> if bit strb 0 then r\<lparr>sft_irq_r := bit data 0\<rparr> else r
      | Tmr_cfg \<Rightarrow>
          r\<lparr>tmr_cnt_r := (if bit strb 0 then bit data 0 else tmr_cnt_r r),
            tmr_auto_clr_r := (if bit strb 0 then bit data 1 else tmr_auto_clr_r r),
            tmr_clk_div_r := ucast (drop_bit 16
              (merge strb data (push_bit 16 (ucast (tmr_clk_div_r r)))))\<rparr>
      | Tmr_val \<Rightarrow> r\<lparr>tmr_val_r := tmr_join (tmr_hi (tmr_val_r r)) (merge strb data (tmr_lo (tmr_val_r r)))\<rparr>
      | Tmr_valh \<Rightarrow> r\<lparr>tmr_val_r := tmr_join (merge strb data (tmr_hi (tmr_val_r r))) (tmr_lo (tmr_val_r r))\<rparr>
      | Tmr_cmp \<Rightarrow> r\<lparr>tmr_cmp_r := tmr_join (tmr_hi (tmr_cmp_r r)) (merge strb data (tmr_lo (tmr_cmp_r r)))\<rparr>
      | Tmr_cmph \<Rightarrow> r\<lparr>tmr_cmp_r := tmr_join (merge strb data (tmr_hi (tmr_cmp_r r))) (tmr_lo (tmr_cmp_r r))\<rparr>
      | Slc_rst \<Rightarrow> r
      | Dev_rst \<Rightarrow> r\<lparr>dev_rst_r := merge strb data (dev_rst_r r)\<rparr>
      | Sys_icg \<Rightarrow> r\<lparr>sys_icg_r := merge strb data (sys_icg_r r)\<rparr>
      | Scratch \<Rightarrow> r\<lparr>scratch_r := merge strb data (scratch_r r)\<rparr>
      | Gpio_mode \<Rightarrow> if bit strb 0 then r\<lparr>gpio_mode_r := bit data 0\<rparr> else r
      | Irq_claim \<Rightarrow>
          r\<lparr>irq_gate_lock_r := (irq_gate_lock_r r)(unat (ucast data :: 6 word) := False),
            ext_irq_r := (if ucast data = sel_irq_id_r r then False else ext_irq_r r)\<rparr>
      | Target_th \<Rightarrow> if bit strb 0 then r\<lparr>target_th_r := ucast data\<rparr> else r
      | Ext_ip k \<Rightarrow> r
      | Ext_ie k \<Rightarrow> r\<lparr>irq_ie_r := (irq_ie_r r)(k := merge strb data (irq_ie_r r k))\<rparr>
      | Ext_pr k \<Rightarrow> if bit strb 0 then r\<lparr>irq_pr_r := (irq_pr_r r)(k := ucast data)\<rparr> else r
      | Ext_tg k \<Rightarrow> if bit strb 0 then r\<lparr>irq_tg_r := (irq_tg_r r)(k := ucast data)\<rparr> else r)"

text \<open>One edge of the always-on clock, with the core's \<open>tmr_irq_clr\<close> input.\<close>

definition tmr_edge :: "bool \<Rightarrow> slc_regs \<Rightarrow> slc_regs" where
  "tmr_edge tmr_irq_clr r =
     (let tmr_val_add = tmr_val_r r + 1;
          tmr_cmp_geq = tmr_val_add \<ge> tmr_cmp_r r
      in r\<lparr>tmr_irq_r := (if tmr_cmp_geq then True else if tmr_irq_clr then False else tmr_irq_r r),
           tmr_val_r := (if tmr_cmp_geq \<and> tmr_auto_clr_r r then 0
                         else if tmr_cnt_r r then tmr_val_add else tmr_val_r r)\<rparr>)"

section \<open>Serial ports\<close>

text \<open>
  The part the UART and the SPI controller share: two queues, two interrupt thresholds and two
  interrupt enables. The last two fields record what has crossed the wires: the words the
  transmitter took, and the words the receiver put into its queue.
\<close>

datatype ser_sel =
  Txq_cap | Txq_len | Txq_clr | Txq_dat | Rxq_cap | Rxq_len | Rxq_clr | Rxq_dat
  | Irq_en | Irq_pend | Tx_irq_th | Rx_irq_th

record 'a serial =
  p_txq :: "'a queue"
  p_rxq :: "'a queue"
  p_tx_ie :: bool
  p_rx_ie :: bool
  p_tx_th :: "4 word"
  p_rx_th :: "4 word"
  p_wire :: "'a list"
  p_rx_log :: "'a list"

definition ser_tx_ip :: "'a serial \<Rightarrow> bool" where
  "ser_tx_ip p \<longleftrightarrow> q_len (p_txq p) \<le> p_tx_th p"

definition ser_rx_ip :: "'a serial \<Rightarrow> bool" where
  "ser_rx_ip p \<longleftrightarrow> q_len (p_rxq p) \<ge> p_rx_th p"

definition ser_irq :: "'a serial \<Rightarrow> bool" where
  "ser_irq p \<longleftrightarrow> ser_rx_ip p \<and> p_rx_ie p \<or> ser_tx_ip p \<and> p_tx_ie p"

definition two_bits :: "bool \<Rightarrow> bool \<Rightarrow> u32" where
  "two_bits hi lo = (if hi then 2 else 0) OR (if lo then 1 else 0)"

definition ser_read :: "ser_sel \<Rightarrow> 'n::len word serial \<Rightarrow> u32 \<times> 'n word serial" where
  "ser_read sel p =
     (case sel of
        Txq_cap \<Rightarrow> (of_nat que_depth, p)
      | Txq_len \<Rightarrow> (ucast (q_len (p_txq p)), p)
      | Txq_clr \<Rightarrow> (0, p)
      | Txq_dat \<Rightarrow> (0, p)
      | Rxq_cap \<Rightarrow> (of_nat que_depth, p)
      | Rxq_len \<Rightarrow> (ucast (q_len (p_rxq p)), p)
      | Rxq_clr \<Rightarrow> (0, p)
      | Rxq_dat \<Rightarrow> (ucast (q_rd_dat (p_rxq p)), p\<lparr>p_rxq := q_pop (p_rxq p)\<rparr>)
      | Irq_en \<Rightarrow> (two_bits (p_rx_ie p) (p_tx_ie p), p)
      | Irq_pend \<Rightarrow> (two_bits (ser_rx_ip p) (ser_tx_ip p), p)
      | Tx_irq_th \<Rightarrow> (ucast (p_tx_th p), p)
      | Rx_irq_th \<Rightarrow> (ucast (p_rx_th p), p))"

text \<open>
  The write strobe of the receive queue's clear register compares with the index of the
  \<^emph>\<open>transmit\<close> clear register in both Verilog files (\<open>rxq_clr_wr\<close> uses \<open>txq_clr_match\<close>), so a write
  to the latter clears both queues and a write to \<open>RXQ_CLR\<close> clears none.
\<close>

definition ser_write :: "ser_sel \<Rightarrow> u32 \<Rightarrow> u32 \<Rightarrow> 'n::len word serial \<Rightarrow> 'n word serial" where
  "ser_write sel strb data p =
     (case sel of
        Txq_clr \<Rightarrow> p\<lparr>p_txq := q_clear (p_txq p), p_rxq := q_clear (p_rxq p)\<rparr>
      | Txq_dat \<Rightarrow> p\<lparr>p_txq := q_push (ucast data) (p_txq p)\<rparr>
      | Irq_en \<Rightarrow>
          if bit strb 0 then p\<lparr>p_tx_ie := bit data 0, p_rx_ie := bit data 1\<rparr> else p
      | Tx_irq_th \<Rightarrow> if bit strb 0 then p\<lparr>p_tx_th := ucast data\<rparr> else p
      | Rx_irq_th \<Rightarrow> if bit strb 0 then p\<lparr>p_rx_th := ucast data\<rparr> else p
      | _ \<Rightarrow> p)"

text \<open>The environment's moves: the transmitter takes a word, the receiver delivers one.\<close>

definition ser_take :: "'a serial \<Rightarrow> 'a serial" where
  "ser_take p = (if q_empty (p_txq p) then p
     else p\<lparr>p_txq := q_pop (p_txq p), p_wire := p_wire p @ [q_rd_dat (p_txq p)]\<rparr>)"

definition ser_recv :: "'a \<Rightarrow> 'a serial \<Rightarrow> 'a serial" where
  "ser_recv x p = (if q_full (p_rxq p) then p
     else p\<lparr>p_rxq := q_push x (p_rxq p), p_rx_log := p_rx_log p @ [x]\<rparr>)"

section \<open>UART and SPI register blocks\<close>

datatype uart_sel = U_glb_cfg | U_ser ser_sel

definition uart_decode :: "nat \<Rightarrow> uart_sel option" where
  "uart_decode i =
     (if i \<le> 12 then Some ([U_glb_cfg, U_ser Txq_cap, U_ser Txq_len, U_ser Txq_clr, U_ser Txq_dat,
        U_ser Rxq_cap, U_ser Rxq_len, U_ser Rxq_clr, U_ser Rxq_dat, U_ser Irq_en, U_ser Irq_pend,
        U_ser Tx_irq_th, U_ser Rx_irq_th] ! i)
      else None)"

record uart_regs =
  uart_glb_cfg_r :: u32
  uart_port :: "u8 serial"

definition uart_read :: "uart_sel \<Rightarrow> uart_regs \<Rightarrow> u32 \<times> uart_regs" where
  "uart_read sel r =
     (case sel of
        U_glb_cfg \<Rightarrow> (uart_glb_cfg_r r, r)
      | U_ser x \<Rightarrow> (let (v, p) = ser_read x (uart_port r) in (v, r\<lparr>uart_port := p\<rparr>)))"

definition uart_write :: "uart_sel \<Rightarrow> u32 \<Rightarrow> u32 \<Rightarrow> uart_regs \<Rightarrow> uart_regs" where
  "uart_write sel strb data r =
     (case sel of
        U_glb_cfg \<Rightarrow> r\<lparr>uart_glb_cfg_r := merge strb data (uart_glb_cfg_r r)\<rparr>
      | U_ser x \<Rightarrow> r\<lparr>uart_port := ser_write x strb data (uart_port r)\<rparr>)"

datatype spi_sel = S_glb_cfg | S_recv_en | S_cs_idle | S_cs_mask | S_ser ser_sel

definition spi_decode :: "nat \<Rightarrow> spi_sel option" where
  "spi_decode i =
     (if i \<le> 15 then Some ([S_glb_cfg, S_recv_en, S_cs_idle, S_cs_mask, S_ser Txq_cap, S_ser Txq_len,
        S_ser Txq_clr, S_ser Txq_dat, S_ser Rxq_cap, S_ser Rxq_len, S_ser Rxq_clr, S_ser Rxq_dat,
        S_ser Irq_en, S_ser Irq_pend, S_ser Tx_irq_th, S_ser Rx_irq_th] ! i)
      else None)"

record spi_regs =
  spi_glb_cfg_r :: u32
  spi_recv_en_r :: bool
  spi_cs_idle_r :: "4 word"
  spi_cs_mask_r :: "4 word"
  spi_port :: "u32 serial"

definition spi_read :: "spi_sel \<Rightarrow> spi_regs \<Rightarrow> u32 \<times> spi_regs" where
  "spi_read sel r =
     (case sel of
        S_glb_cfg \<Rightarrow> (spi_glb_cfg_r r, r)
      | S_recv_en \<Rightarrow> (if spi_recv_en_r r then 1 else 0, r)
      | S_cs_idle \<Rightarrow> (ucast (spi_cs_idle_r r), r)
      | S_cs_mask \<Rightarrow> (ucast (spi_cs_mask_r r), r)
      | S_ser x \<Rightarrow> (let (v, p) = ser_read x (spi_port r) in (v, r\<lparr>spi_port := p\<rparr>)))"

definition spi_write :: "spi_sel \<Rightarrow> u32 \<Rightarrow> u32 \<Rightarrow> spi_regs \<Rightarrow> spi_regs" where
  "spi_write sel strb data r =
     (case sel of
        S_glb_cfg \<Rightarrow> r\<lparr>spi_glb_cfg_r := merge strb data (spi_glb_cfg_r r)\<rparr>
      | S_recv_en \<Rightarrow> if bit strb 0 then r\<lparr>spi_recv_en_r := bit data 0\<rparr> else r
      | S_cs_idle \<Rightarrow> if bit strb 0 then r\<lparr>spi_cs_idle_r := ucast data\<rparr> else r
      | S_cs_mask \<Rightarrow> if bit strb 0 then r\<lparr>spi_cs_mask_r := ucast data\<rparr> else r
      | S_ser x \<Rightarrow> r\<lparr>spi_port := ser_write x strb data (spi_port r)\<rparr>)"

text \<open>A received unit enters the queue only while reception is enabled.\<close>

definition spi_recv :: "u32 \<Rightarrow> spi_regs \<Rightarrow> spi_regs" where
  "spi_recv x r = (if spi_recv_en_r r then r\<lparr>spi_port := ser_recv x (spi_port r)\<rparr> else r)"

section \<open>Lemmas\<close>

lemma tmr_join_hi_lo [simp]: "tmr_join (tmr_hi v) (tmr_lo v) = v"
proof (rule bit_word_eqI)
  fix n assume "n < LENGTH(64)"
  then show "bit (tmr_join (tmr_hi v) (tmr_lo v)) n = bit v n"
    by (auto simp: tmr_join_def tmr_hi_def tmr_lo_def bit_or_iff bit_push_bit_iff bit_ucast_iff
        bit_drop_bit_eq)
qed

lemma tmr_hi_join [simp]: "tmr_hi (tmr_join hi lo) = hi"
proof (rule bit_word_eqI)
  fix n assume "n < LENGTH(32)"
  then show "bit (tmr_hi (tmr_join hi lo)) n = bit hi n"
    by (auto simp: tmr_join_def tmr_hi_def bit_or_iff bit_push_bit_iff bit_ucast_iff bit_drop_bit_eq
        dest: bit_imp_le_length)
qed

lemma tmr_lo_join [simp]: "tmr_lo (tmr_join hi lo) = lo"
proof (rule bit_word_eqI)
  fix n assume "n < LENGTH(32)"
  then show "bit (tmr_lo (tmr_join hi lo)) n = bit lo n"
    by (auto simp: tmr_join_def tmr_lo_def bit_or_iff bit_push_bit_iff bit_ucast_iff)
qed

definition ser_ok :: "'a serial \<Rightarrow> bool" where
  "ser_ok p \<longleftrightarrow> q_ok (p_txq p) \<and> q_ok (p_rxq p)"

text \<open>Everything handed to the transmitter so far: on the wire, or still queued.\<close>

definition ser_sent :: "'a serial \<Rightarrow> 'a list" where
  "ser_sent p = p_wire p @ q_items (p_txq p)"

lemma ser_take_ok: "ser_ok p \<Longrightarrow> ser_ok (ser_take p)"
  by (simp add: ser_ok_def ser_take_def ring.pop_ok)

lemma ser_recv_ok: "ser_ok p \<Longrightarrow> ser_ok (ser_recv x p)"
  by (simp add: ser_ok_def ser_recv_def ring.push_ok)

lemma ser_write_ok: "ser_ok p \<Longrightarrow> ser_ok (ser_write sel m d p)"
  by (cases sel) (simp_all add: ser_ok_def ser_write_def ring.push_ok ring.clear_ok)

lemma ser_read_ok: "ser_ok p \<Longrightarrow> ser_ok (snd (ser_read sel p))"
  by (cases sel) (simp_all add: ser_ok_def ser_read_def ring.pop_ok)

lemma ser_take_sent: "ser_ok p \<Longrightarrow> ser_sent (ser_take p) = ser_sent p"
  by (cases "q_items (p_txq p)")
    (simp_all add: ser_take_def ser_sent_def ser_ok_def q_empty_iff ring.pop_items ring.front_items)

lemma ser_recv_sent [simp]: "ser_sent (ser_recv x p) = ser_sent p"
  by (simp add: ser_recv_def ser_sent_def)

lemma ser_take_len:
  "ser_ok p \<Longrightarrow> length (q_items (p_txq (ser_take p))) = length (q_items (p_txq p)) - 1"
  by (auto simp: ser_take_def ser_ok_def q_empty_iff ring.pop_items simp del: q_items_length)

lemma ser_recv_txq [simp]: "p_txq (ser_recv x p) = p_txq p"
  by (simp add: ser_recv_def)

lemma ser_take_rx [simp]: "p_rxq (ser_take p) = p_rxq p" "p_rx_log (ser_take p) = p_rx_log p"
  by (simp_all add: ser_take_def)

lemma ser_recv_log:
  "ser_ok p \<Longrightarrow> p_rx_log p = pre @ q_items (p_rxq p) \<Longrightarrow>
    p_rx_log (ser_recv x p) = pre @ q_items (p_rxq (ser_recv x p))"
  using q_full_iff [of "p_rxq p"] ring.within [of "p_rxq p"]
  by (auto simp: ser_recv_def ser_ok_def ring.push_items)

end
