(* ===== verification/Soc.thy ===== *)
theory Soc
  imports Devices
begin

text \<open>
  The machine the C code runs on: the devices behind their base addresses (\<open>uv_sys.h\<close>), and an
  environment that moves the hardware between two accesses. The C structures of registers are
  given by their field order; \<open>decode_slc\<close>, \<open>decode_uart\<close> and \<open>decode_spi\<close> relate the addresses the
  C code forms to the registers the Verilog decodes.
\<close>

section \<open>Addresses\<close>

definition REG_SLC_BASE :: u32 where "REG_SLC_BASE = 0x08000000"
definition REG_SLC_SCRATCH :: u32 where "REG_SLC_SCRATCH = 0x08000028"
definition REG_UART_BASE :: u32 where "REG_UART_BASE = 0x70001000"
definition REG_SPI0_BASE :: u32 where "REG_SPI0_BASE = 0x70003000"
definition REG_SPI1_BASE :: u32 where "REG_SPI1_BASE = 0x70004000"

text \<open>The structures of volatile 32-bit fields: the field number gives the offset.\<close>

definition slc_type :: "slc_sel list" where
  "slc_type = [Rst_vec, Sft_irq, Tmr_cfg, Tmr_val, Tmr_valh, Tmr_cmp, Tmr_cmph, Slc_rst, Dev_rst,
     Sys_icg, Scratch, Gpio_mode]"

definition uart_type :: "uart_sel list" where
  "uart_type = [U_glb_cfg, U_ser Txq_cap, U_ser Txq_len, U_ser Txq_clr, U_ser Txq_dat,
     U_ser Rxq_cap, U_ser Rxq_len, U_ser Rxq_clr, U_ser Rxq_dat, U_ser Irq_en, U_ser Irq_pend,
     U_ser Tx_irq_th, U_ser Rx_irq_th]"

definition spi_type :: "spi_sel list" where
  "spi_type = [S_glb_cfg, S_recv_en, S_cs_idle, S_cs_mask, S_ser Txq_cap, S_ser Txq_len,
     S_ser Txq_clr, S_ser Txq_dat, S_ser Rxq_cap, S_ser Rxq_len, S_ser Rxq_clr, S_ser Rxq_dat,
     S_ser Irq_en, S_ser Irq_pend, S_ser Tx_irq_th, S_ser Rx_irq_th]"

fun field_index :: "'f \<Rightarrow> 'f list \<Rightarrow> nat" where
  "field_index f [] = 0"
| "field_index f (g # gs) = (if f = g then 0 else Suc (field_index f gs))"

definition field_addr :: "u32 \<Rightarrow> 'f list \<Rightarrow> 'f \<Rightarrow> u32" where
  "field_addr base fs f = base + 4 * of_nat (field_index f fs)"

definition slc_addr :: "slc_sel \<Rightarrow> u32" where
  "slc_addr = field_addr REG_SLC_BASE slc_type"

definition uart_addr :: "ser_sel \<Rightarrow> u32" where
  "uart_addr x = field_addr REG_UART_BASE uart_type (U_ser x)"

definition uart_glb_addr :: u32 where
  "uart_glb_addr = field_addr REG_UART_BASE uart_type U_glb_cfg"

text \<open>\<open>static spi_type *SPIs[2] = {SPI0, SPI1}\<close>\<close>

definition SPIs :: "u32 list" where
  "SPIs = [REG_SPI0_BASE, REG_SPI1_BASE]"

definition spi_addr :: "u32 \<Rightarrow> spi_sel \<Rightarrow> u32 option" where
  "spi_addr idx x = (if unat idx < length SPIs
     then Some (field_addr (SPIs ! unat idx) spi_type x) else None)"

section \<open>Decoding\<close>

datatype dev_reg = R_slc slc_sel | R_uart uart_sel | R_spi nat spi_sel

text \<open>
  The bus selects the controller with the upper six address bits and a peripheral with bits 12 to
  31; the blocks decode the word index. An address of memory, of a device that is not modelled, or
  of no register has no entry: an access to it is outside the model.
\<close>

definition decode :: "u32 \<Rightarrow> dev_reg option" where
  "decode a =
     (if drop_bit 26 a = 2 then map_option R_slc (slc_decode (unat (take_bit 26 a) div 4))
      else if drop_bit 12 a = 0x70001 then map_option R_uart (uart_decode (unat (take_bit 12 a) div 4))
      else if drop_bit 12 a = 0x70003 then map_option (R_spi 0) (spi_decode (unat (take_bit 12 a) div 4))
      else if drop_bit 12 a = 0x70004 then map_option (R_spi 1) (spi_decode (unat (take_bit 12 a) div 4))
      else None)"

section \<open>Machine\<close>

datatype hw_event =
    Aon_clk bool            \<comment> \<open>an edge of the always-on clock, with \<open>tmr_irq_clr\<close>\<close>
  | Uart_take               \<comment> \<open>the UART transmitter takes a byte\<close>
  | Uart_recv u8            \<comment> \<open>the UART receiver delivers a byte\<close>
  | Spi_take nat            \<comment> \<open>an SPI transmitter takes a word\<close>
  | Spi_recv nat u32        \<comment> \<open>an SPI receiver delivers a unit\<close>
  | Irq_trig nat            \<comment> \<open>an external interrupt passes its gateway\<close>
  | Irq_grant nat           \<comment> \<open>the interrupt arbiter grants a request\<close>

text \<open>
  \<open>env t\<close> is what the hardware does just before the \<open>t\<close>-th bus access of the program. The writes to
  the scratch register are recorded with their strobes: the test bench prints the bytes written
  there (\<open>console\<close>).
\<close>

record soc =
  slc :: slc_regs
  uart :: uart_regs
  spi :: "nat \<Rightarrow> spi_regs"
  scratch_log :: "(u32 \<times> u32) list"
  env :: "nat \<Rightarrow> hw_event list"
  now :: nat

text \<open>An interrupt asks for the arbiter when it is pending, enabled, above the threshold and of the
  highest priority among these; which of several the arbiter grants is left to \<open>env\<close>.\<close>

definition irq_to_arb :: "slc_regs \<Rightarrow> nat \<Rightarrow> bool" where
  "irq_to_arb r i \<longleftrightarrow> irq_ip_r r i \<and> bit (irq_ie_r r (i div 32)) (i mod 32) \<and> target_th_r r < irq_pr_r r i"

definition irq_arb_req :: "slc_regs \<Rightarrow> nat \<Rightarrow> bool" where
  "irq_arb_req r i \<longleftrightarrow> i < 64 \<and> irq_to_arb r i
     \<and> list_all (\<lambda>j. irq_to_arb r j \<longrightarrow> irq_pr_r r j \<le> irq_pr_r r i) [0..<64]"

definition hw_step :: "hw_event \<Rightarrow> soc \<Rightarrow> soc" where
  "hw_step e s =
     (case e of
        Aon_clk c \<Rightarrow> s\<lparr>slc := tmr_edge c (slc s)\<rparr>
      | Uart_take \<Rightarrow> s\<lparr>uart := (uart s)\<lparr>uart_port := ser_take (uart_port (uart s))\<rparr>\<rparr>
      | Uart_recv b \<Rightarrow> s\<lparr>uart := (uart s)\<lparr>uart_port := ser_recv b (uart_port (uart s))\<rparr>\<rparr>
      | Spi_take i \<Rightarrow> s\<lparr>spi := (spi s)(i := (spi s i)\<lparr>spi_port := ser_take (spi_port (spi s i))\<rparr>)\<rparr>
      | Spi_recv i w \<Rightarrow> s\<lparr>spi := (spi s)(i := spi_recv w (spi s i))\<rparr>
      | Irq_trig i \<Rightarrow>
          if irq_gate_lock_r (slc s) i then s
          else s\<lparr>slc := (slc s)\<lparr>irq_ip_r := (irq_ip_r (slc s))(i := True),
                               irq_gate_lock_r := (irq_gate_lock_r (slc s))(i := True)\<rparr>\<rparr>
      | Irq_grant i \<Rightarrow>
          if irq_arb_req (slc s) i then s\<lparr>slc := (slc s)\<lparr>sel_irq_id_r := of_nat i, ext_irq_r := True\<rparr>\<rparr>
          else s)"

definition sync :: "soc \<Rightarrow> soc" where
  "sync s = (fold hw_step (env s (now s)) s)\<lparr>now := Suc (now s)\<rparr>"

definition reg_read :: "dev_reg \<Rightarrow> soc \<Rightarrow> u32 \<times> soc" where
  "reg_read r s =
     (case r of
        R_slc x \<Rightarrow> (let (v, c) = slc_read x (slc s) in (v, s\<lparr>slc := c\<rparr>))
      | R_uart x \<Rightarrow> (let (v, c) = uart_read x (uart s) in (v, s\<lparr>uart := c\<rparr>))
      | R_spi i x \<Rightarrow> (let (v, c) = spi_read x (spi s i) in (v, s\<lparr>spi := (spi s)(i := c)\<rparr>)))"

definition reg_write :: "dev_reg \<Rightarrow> u32 \<Rightarrow> u32 \<Rightarrow> soc \<Rightarrow> soc" where
  "reg_write r strb d s =
     (case r of
        R_slc x \<Rightarrow> s\<lparr>slc := slc_write x strb d (slc s),
            scratch_log := (if x = Scratch then scratch_log s @ [(strb, d)] else scratch_log s)\<rparr>
      | R_uart x \<Rightarrow> s\<lparr>uart := uart_write x strb d (uart s)\<rparr>
      | R_spi i x \<Rightarrow> s\<lparr>spi := (spi s)(i := spi_write x strb d (spi s i))\<rparr>)"

text \<open>\<open>LOAD_WORD\<close>, \<open>STORE_WORD\<close> and \<open>STORE_BYTE\<close>; a byte store strobes one byte lane.\<close>

definition load_word :: "u32 \<Rightarrow> soc \<Rightarrow> (u32 \<times> soc) option" where
  "load_word a s = do { r \<leftarrow> decode a; Some (reg_read r (sync s)) }"

definition store_word :: "u32 \<Rightarrow> u32 \<Rightarrow> soc \<Rightarrow> soc option" where
  "store_word a d s = do { r \<leftarrow> decode a; Some (reg_write r (- 1) d (sync s)) }"

definition store_byte :: "u32 \<Rightarrow> u8 \<Rightarrow> soc \<Rightarrow> soc option" where
  "store_byte a d s = do {
     r \<leftarrow> decode a;
     let lane = 8 * (unat a mod 4);
     Some (reg_write r (push_bit lane 0xFF) (push_bit lane (ucast d)) (sync s)) }"

text \<open>The bytes the test bench shows: byte writes to lane 0 of the scratch register.\<close>

definition console :: "soc \<Rightarrow> u8 list" where
  "console s = map (\<lambda>(m, d). ucast d) (filter (\<lambda>(m, d). m = 0xFF) (scratch_log s))"

text \<open>The state after power-on reset, in a given environment.\<close>

definition slc_reset :: slc_regs where
  "slc_reset = \<lparr>rst_vec_r = 0x04000000, sft_irq_r = False, tmr_irq_r = False, tmr_cnt_r = False,
     tmr_auto_clr_r = False, tmr_clk_div_r = 0, tmr_val_r = 0, tmr_cmp_r = - 1, dev_rst_r = - 1,
     sys_icg_r = - 1, scratch_r = - 1, gpio_mode_r = False, sel_irq_id_r = 0, ext_irq_r = False,
     target_th_r = 0, irq_gate_lock_r = (\<lambda>_. False), irq_ip_r = (\<lambda>_. False), irq_ie_r = (\<lambda>_. 0),
     irq_pr_r = (\<lambda>_. 0), irq_tg_r = (\<lambda>_. 0)\<rparr>"

definition serial_reset :: "'n::len word serial" where
  "serial_reset = \<lparr>p_txq = q_reset (replicate 8 0), p_rxq = q_reset (replicate 8 0), p_tx_ie = False,
     p_rx_ie = False, p_tx_th = 0, p_rx_th = 0, p_wire = [], p_rx_log = []\<rparr>"

definition soc_reset :: "(nat \<Rightarrow> hw_event list) \<Rightarrow> soc" where
  "soc_reset e = \<lparr>slc = slc_reset, uart = \<lparr>uart_glb_cfg_r = 0, uart_port = serial_reset\<rparr>,
     spi = (\<lambda>_. \<lparr>spi_glb_cfg_r = 0, spi_recv_en_r = False, spi_cs_idle_r = - 1, spi_cs_mask_r = 0,
       spi_port = serial_reset\<rparr>), scratch_log = [], env = e, now = 0\<rparr>"

lemma serial_reset_ok: "ser_ok serial_reset"
  by (simp add: ser_ok_def serial_reset_def q_reset_ok que_depth_def)

lemma serial_reset_empty: "ser_sent serial_reset = []" "p_rx_log serial_reset = []"
    "q_items (p_rxq serial_reset) = []"
  by (simp_all add: ser_sent_def serial_reset_def q_reset_items)

section \<open>Decoding the addresses of the C code\<close>

lemma decode_slc:
  assumes "x \<in> set slc_type"
  shows "decode (slc_addr x) = Some (R_slc x)"
  using assms
  by (auto simp: slc_type_def slc_addr_def field_addr_def REG_SLC_BASE_def decode_def slc_decode_def)

lemma decode_uart [simp]: "decode (uart_addr x) = Some (R_uart (U_ser x))"
  by (cases x)
    (simp_all add: uart_type_def uart_addr_def field_addr_def REG_UART_BASE_def decode_def uart_decode_def)

lemma decode_uart_glb [simp]: "decode uart_glb_addr = Some (R_uart U_glb_cfg)"
  by (simp add: uart_type_def uart_glb_addr_def field_addr_def REG_UART_BASE_def decode_def uart_decode_def)

lemma decode_spi0: "decode (field_addr REG_SPI0_BASE spi_type x) = Some (R_spi 0 x)"
proof (cases x)
  case (S_ser y)
  then show ?thesis
    by (cases y) (simp_all add: spi_type_def field_addr_def REG_SPI0_BASE_def decode_def spi_decode_def)
qed (simp_all add: spi_type_def field_addr_def REG_SPI0_BASE_def decode_def spi_decode_def)

lemma decode_spi1: "decode (field_addr REG_SPI1_BASE spi_type x) = Some (R_spi 1 x)"
proof (cases x)
  case (S_ser y)
  then show ?thesis
    by (cases y) (simp_all add: spi_type_def field_addr_def REG_SPI1_BASE_def decode_def spi_decode_def)
qed (simp_all add: spi_type_def field_addr_def REG_SPI1_BASE_def decode_def spi_decode_def)

lemma spi_addr_eq:
  "unat idx < 2 \<Longrightarrow> spi_addr idx x = Some (field_addr (SPIs ! unat idx) spi_type x)"
  by (simp add: spi_addr_def SPIs_def)

lemma spi_addr_None: "2 \<le> unat idx \<Longrightarrow> spi_addr idx x = None"
  by (simp add: spi_addr_def SPIs_def)

lemma decode_spi:
  assumes "unat idx < 2"
  shows "decode (field_addr (SPIs ! unat idx) spi_type x) = Some (R_spi (unat idx) x)"
proof -
  consider "unat idx = 0" | "unat idx = 1" using assms by linarith
  then show ?thesis
    by cases (simp_all add: SPIs_def decode_spi0 decode_spi1)
qed

end
