(* ===== verification/Uv_Sys.thy ===== *)
theory Uv_Sys
  imports Soc
begin

text \<open>
  The driver library \<open>software/driver/src/uv_sys.c\<close>: the system timer, the UART and the SPI
  controllers. Every access to a register is a \<open>load_word\<close> or \<open>store_word\<close> of the machine of
  \<open>Soc\<close>, in the order of the source (in a comparison of two registers, the left one first). A
  polling loop is a \<open>partial_function\<close>, so that a loop that never ends is the value \<open>None\<close>; the
  properties show when the functions return.
\<close>

section \<open>Register access\<close>

definition ld_slc :: "slc_sel \<Rightarrow> soc \<Rightarrow> (u32 \<times> soc) option" where
  "ld_slc x = load_word (slc_addr x)"

definition st_slc :: "slc_sel \<Rightarrow> u32 \<Rightarrow> soc \<Rightarrow> soc option" where
  "st_slc x = store_word (slc_addr x)"

definition ld_uart :: "ser_sel \<Rightarrow> soc \<Rightarrow> (u32 \<times> soc) option" where
  "ld_uart x = load_word (uart_addr x)"

definition st_uart :: "ser_sel \<Rightarrow> u32 \<Rightarrow> soc \<Rightarrow> soc option" where
  "st_uart x = store_word (uart_addr x)"

definition ld_spi :: "u32 \<Rightarrow> spi_sel \<Rightarrow> soc \<Rightarrow> (u32 \<times> soc) option" where
  "ld_spi idx x s = do { a \<leftarrow> spi_addr idx x; load_word a s }"

definition st_spi :: "u32 \<Rightarrow> spi_sel \<Rightarrow> u32 \<Rightarrow> soc \<Rightarrow> soc option" where
  "st_spi idx x d s = do { a \<leftarrow> spi_addr idx x; store_word a d s }"

section \<open>Timer operations\<close>

definition SLC_TMR_CNT_EN_MASK :: u32 where "SLC_TMR_CNT_EN_MASK = 0x1"
definition SLC_TMR_CLR_EN_MASK :: u32 where "SLC_TMR_CLR_EN_MASK = 0x2"
definition SLC_TMR_CLK_DIV_MASK :: u32 where "SLC_TMR_CLK_DIV_MASK = 0xFFFF0000"

definition uv_tmr_init :: "bool \<Rightarrow> u32 \<Rightarrow> u64 \<Rightarrow> soc \<Rightarrow> soc option" where
  "uv_tmr_init auto_clr clk_div cmp s = do {
     (tmr_cfg, s) \<leftarrow> ld_slc Tmr_cfg s;
     let tmr_cfg = (if auto_clr then tmr_cfg OR SLC_TMR_CLR_EN_MASK
                    else tmr_cfg AND NOT SLC_TMR_CLR_EN_MASK);
     let tmr_cfg = tmr_cfg AND NOT SLC_TMR_CLK_DIV_MASK;
     let tmr_cfg = tmr_cfg OR (push_bit 16 clk_div AND SLC_TMR_CLK_DIV_MASK);
     s \<leftarrow> st_slc Tmr_cfg tmr_cfg s;
     s \<leftarrow> st_slc Tmr_cmp (ucast (cmp AND 0xFFFFFFFF)) s;
     st_slc Tmr_cmph (ucast (drop_bit 32 cmp)) s }"

definition uv_tmr_start :: "soc \<Rightarrow> soc option" where
  "uv_tmr_start s = do {
     (v, s) \<leftarrow> ld_slc Tmr_cfg s;
     st_slc Tmr_cfg (v OR SLC_TMR_CNT_EN_MASK) s }"

definition uv_tmr_stop :: "soc \<Rightarrow> soc option" where
  "uv_tmr_stop s = do {
     (v, s) \<leftarrow> ld_slc Tmr_cfg s;
     st_slc Tmr_cfg (v AND NOT SLC_TMR_CNT_EN_MASK) s }"

definition uv_tmr_set_val :: "u64 \<Rightarrow> soc \<Rightarrow> soc option" where
  "uv_tmr_set_val val s = do {
     (v, s) \<leftarrow> ld_slc Tmr_cfg s;
     let has_started = (v AND SLC_TMR_CNT_EN_MASK \<noteq> 0);
     s \<leftarrow> (if has_started then uv_tmr_stop s else Some s);
     s \<leftarrow> st_slc Tmr_val (ucast (val AND 0xFFFFFFFF)) s;
     s \<leftarrow> st_slc Tmr_valh (ucast (drop_bit 32 val)) s;
     (if has_started then uv_tmr_start s else Some s) }"

text \<open>The loop of \<open>uv_tmr_get_val\<close>: the pair of halves it leaves with.\<close>

partial_function (option) tmr_read_loop :: "soc \<Rightarrow> ((u32 \<times> u32) \<times> soc) option" where
  "tmr_read_loop s = do {
     (high, s) \<leftarrow> ld_slc Tmr_valh s;
     (low, s) \<leftarrow> ld_slc Tmr_val s;
     (again, s) \<leftarrow> ld_slc Tmr_valh s;
     (if high = again then Some ((high, low), s) else tmr_read_loop s) }"

definition uv_tmr_get_val :: "soc \<Rightarrow> (u64 \<times> soc) option" where
  "uv_tmr_get_val s = do {
     ((high, low), s) \<leftarrow> tmr_read_loop s;
     Some (push_bit 32 (ucast high) OR ucast low, s) }"

section \<open>Polling loops\<close>

text \<open>
  The three shapes of loop the transfer functions share: waiting for a flag; sending the first
  \<open>len\<close> elements of a buffer; filling the first \<open>len\<close> elements of a buffer. An index past the end
  of the caller's array has no value (\<open>None\<close>).
\<close>

partial_function (option) poll :: "('s \<Rightarrow> (bool \<times> 's) option) \<Rightarrow> 's \<Rightarrow> 's option" where
  "poll ready s = do { (r, s) \<leftarrow> ready s; (if r then Some s else poll ready s) }"

fun send_loop ::
  "('s \<Rightarrow> (bool \<times> 's) option) \<Rightarrow> ('a \<Rightarrow> 's \<Rightarrow> 's option) \<Rightarrow> 'a list \<Rightarrow> 's \<Rightarrow> 's option" where
  "send_loop ready put [] s = Some s"
| "send_loop ready put (x # xs) s = do {
     s \<leftarrow> poll ready s;
     s \<leftarrow> put x s;
     send_loop ready put xs s }"

definition send_buffer ::
  "('s \<Rightarrow> (bool \<times> 's) option) \<Rightarrow> ('a \<Rightarrow> 's \<Rightarrow> 's option) \<Rightarrow> 'a list \<Rightarrow> nat \<Rightarrow> 's \<Rightarrow> 's option" where
  "send_buffer ready put buf len s =
     (if len \<le> length buf then send_loop ready put (take len buf) s else None)"

fun recv_loop ::
  "('s \<Rightarrow> (bool \<times> 's) option) \<Rightarrow> ('s \<Rightarrow> ('a \<times> 's) option) \<Rightarrow> nat \<Rightarrow> nat \<Rightarrow> 'a list \<Rightarrow> 's
     \<Rightarrow> ('a list \<times> 's) option" where
  "recv_loop ready get 0 i buf s = Some (buf, s)"
| "recv_loop ready get (Suc n) i buf s = do {
     s \<leftarrow> poll ready s;
     (v, s) \<leftarrow> get s;
     recv_loop ready get n (Suc i) (buf[i := v]) s }"

definition recv_buffer ::
  "('s \<Rightarrow> (bool \<times> 's) option) \<Rightarrow> ('s \<Rightarrow> ('a \<times> 's) option) \<Rightarrow> 'a list \<Rightarrow> nat \<Rightarrow> 's
     \<Rightarrow> ('a list \<times> 's) option" where
  "recv_buffer ready get buf len s =
     (if len \<le> length buf then recv_loop ready get len 0 buf s else None)"

section \<open>UART operations\<close>

definition MAIN_CLK_FREQ :: u32 where "MAIN_CLK_FREQ = 100000000"

definition UART_TX_EN_MASK :: u32 where "UART_TX_EN_MASK = 0x1"
definition UART_RX_EN_MASK :: u32 where "UART_RX_EN_MASK = 0x2"
definition UART_NBITS_MASK :: u32 where "UART_NBITS_MASK = 0xC"
definition UART_NSTOP_MASK :: u32 where "UART_NSTOP_MASK = 0x10"
definition UART_ENDIAN_MASK :: u32 where "UART_ENDIAN_MASK = 0x20"
definition UART_PARITY_EN_MASK :: u32 where "UART_PARITY_EN_MASK = 0x80"
definition UART_PARITY_TYPE_MASK :: u32 where "UART_PARITY_TYPE_MASK = 0x300"
definition UART_CLK_DIV_MASK :: u32 where "UART_CLK_DIV_MASK = 0xFFFF0000"
definition UART_TX_IRQ_MASK :: u32 where "UART_TX_IRQ_MASK = 0x1"
definition UART_RX_IRQ_MASK :: u32 where "UART_RX_IRQ_MASK = 0x2"
definition UART_DEFAULT_ENDIAN :: u32 where "UART_DEFAULT_ENDIAN = 0"
definition UART_DEFAULT_NUM_BITS :: u32 where "UART_DEFAULT_NUM_BITS = 8"
definition UART_DEFAULT_NUM_STOPS :: u32 where "UART_DEFAULT_NUM_STOPS = 1"

text \<open>The divider for a baud rate, rounded to the nearest; a baud rate of 0 divides by zero.\<close>

definition uart_clk_div :: "u32 \<Rightarrow> u32" where
  "uart_clk_div baud_rate =
     (let clk_div = MAIN_CLK_FREQ div baud_rate
      in if MAIN_CLK_FREQ mod baud_rate > drop_bit 1 baud_rate then clk_div + 1 else clk_div)"

definition uart_cfg_word :: "bool \<Rightarrow> bool \<Rightarrow> u32 \<Rightarrow> u32" where
  "uart_cfg_word tx_en rx_en baud_rate =
     (let glb_cfg = 0;
          endian = UART_DEFAULT_ENDIAN;
          nbits = UART_DEFAULT_NUM_BITS - 5;
          nstop = UART_DEFAULT_NUM_STOPS - 1;
          glb_cfg = (if tx_en then glb_cfg OR UART_TX_EN_MASK else glb_cfg);
          glb_cfg = (if rx_en then glb_cfg OR UART_RX_EN_MASK else glb_cfg);
          glb_cfg = glb_cfg AND NOT UART_ENDIAN_MASK;
          glb_cfg = glb_cfg OR (push_bit 5 endian AND UART_ENDIAN_MASK);
          glb_cfg = glb_cfg AND NOT UART_NBITS_MASK;
          glb_cfg = glb_cfg OR (push_bit 2 nbits AND UART_NBITS_MASK);
          glb_cfg = glb_cfg AND NOT UART_NSTOP_MASK;
          glb_cfg = glb_cfg OR (push_bit 4 nstop AND UART_NSTOP_MASK);
          glb_cfg = glb_cfg AND NOT UART_CLK_DIV_MASK
      in glb_cfg OR (push_bit 16 (uart_clk_div baud_rate) AND UART_CLK_DIV_MASK))"

definition uv_uart_init :: "bool \<Rightarrow> bool \<Rightarrow> u32 \<Rightarrow> soc \<Rightarrow> soc option" where
  "uv_uart_init tx_en rx_en baud_rate s =
     (if baud_rate = 0 then None
      else store_word uart_glb_addr (uart_cfg_word tx_en rx_en baud_rate) s)"

text \<open>The configuration is computed in a local variable and never stored.\<close>

definition uv_uart_set_parity :: "bool \<Rightarrow> u32 \<Rightarrow> soc \<Rightarrow> soc option" where
  "uv_uart_set_parity parity_en parity_type s = do {
     (glb_cfg, s) \<leftarrow> load_word uart_glb_addr s;
     let glb_cfg =
       (if parity_en
        then ((glb_cfg AND NOT UART_PARITY_TYPE_MASK)
              OR (push_bit 8 parity_type AND UART_PARITY_TYPE_MASK)) OR UART_PARITY_EN_MASK
        else glb_cfg);
     Some s }"

text \<open>The two interrupt set-up functions, for the register access functions of a port.\<close>

definition set_tx_irq ::
  "(ser_sel \<Rightarrow> 's \<Rightarrow> (u32 \<times> 's) option) \<Rightarrow> (ser_sel \<Rightarrow> u32 \<Rightarrow> 's \<Rightarrow> 's option)
     \<Rightarrow> bool \<Rightarrow> u32 \<Rightarrow> 's \<Rightarrow> 's option" where
  "set_tx_irq ld st tx_ie tx_th s =
     (if tx_ie then do {
        (cap, s) \<leftarrow> ld Txq_cap s;
        s \<leftarrow> (if tx_th < cap then st Tx_irq_th tx_th s else st Tx_irq_th 0 s);
        (ie, s) \<leftarrow> ld Irq_en s;
        st Irq_en (ie OR UART_TX_IRQ_MASK) s }
      else do {
        (ie, s) \<leftarrow> ld Irq_en s;
        st Irq_en (ie AND NOT UART_TX_IRQ_MASK) s })"

definition set_rx_irq ::
  "(ser_sel \<Rightarrow> 's \<Rightarrow> (u32 \<times> 's) option) \<Rightarrow> (ser_sel \<Rightarrow> u32 \<Rightarrow> 's \<Rightarrow> 's option)
     \<Rightarrow> bool \<Rightarrow> u32 \<Rightarrow> 's \<Rightarrow> 's option" where
  "set_rx_irq ld st rx_ie rx_th s =
     (if rx_ie then do {
        (in_range, s) \<leftarrow> (if rx_th > 0 then do { (cap, s) \<leftarrow> ld Rxq_cap s; Some (rx_th \<le> cap, s) }
                           else Some (False, s));
        s \<leftarrow> (if in_range then st Rx_irq_th rx_th s
               else do { (cap, s) \<leftarrow> ld Rxq_cap s; st Rx_irq_th cap s });
        (ie, s) \<leftarrow> ld Irq_en s;
        st Irq_en (ie OR UART_RX_IRQ_MASK) s }
      else do {
        (ie, s) \<leftarrow> ld Irq_en s;
        st Irq_en (ie AND NOT UART_RX_IRQ_MASK) s })"

definition uv_uart_set_tx_irq :: "bool \<Rightarrow> u32 \<Rightarrow> soc \<Rightarrow> soc option" where
  "uv_uart_set_tx_irq = set_tx_irq ld_uart st_uart"

definition uv_uart_set_rx_irq :: "bool \<Rightarrow> u32 \<Rightarrow> soc \<Rightarrow> soc option" where
  "uv_uart_set_rx_irq = set_rx_irq ld_uart st_uart"

text \<open>\<open>txq_len == txq_cap\<close> and \<open>rxq_len == 0\<close>, negated.\<close>

definition tx_ready :: "(ser_sel \<Rightarrow> 's \<Rightarrow> (u32 \<times> 's) option) \<Rightarrow> 's \<Rightarrow> (bool \<times> 's) option" where
  "tx_ready ld s = do { (len, s) \<leftarrow> ld Txq_len s; (cap, s) \<leftarrow> ld Txq_cap s; Some (len \<noteq> cap, s) }"

definition rx_ready :: "(ser_sel \<Rightarrow> 's \<Rightarrow> (u32 \<times> 's) option) \<Rightarrow> 's \<Rightarrow> (bool \<times> 's) option" where
  "rx_ready ld s = do { (len, s) \<leftarrow> ld Rxq_len s; Some (len \<noteq> 0, s) }"

definition tx_put ::
  "(ser_sel \<Rightarrow> u32 \<Rightarrow> 's \<Rightarrow> 's option) \<Rightarrow> 'n::len word \<Rightarrow> 's \<Rightarrow> 's option" where
  "tx_put st x s = st Txq_dat (ucast x) s"

definition rx_get ::
  "(ser_sel \<Rightarrow> 's \<Rightarrow> (u32 \<times> 's) option) \<Rightarrow> 's \<Rightarrow> ('n::len word \<times> 's) option" where
  "rx_get ld s = do { (v, s) \<leftarrow> ld Rxq_dat s; Some (ucast v, s) }"

definition uv_uart_send_data :: "u8 list \<Rightarrow> nat \<Rightarrow> soc \<Rightarrow> soc option" where
  "uv_uart_send_data = send_buffer (tx_ready ld_uart) (tx_put st_uart)"

definition uv_uart_recv_data :: "u8 list \<Rightarrow> nat \<Rightarrow> soc \<Rightarrow> (u8 list \<times> soc) option" where
  "uv_uart_recv_data = recv_buffer (rx_ready ld_uart) (rx_get ld_uart)"

section \<open>SPI operations\<close>

record spi_cfg =
  cpol :: "1 word"
  cpha :: "1 word"
  endian :: "1 word"
  unit_len :: "5 word"
  sck_dly :: "8 word"
  clk_div :: "16 word"

text \<open>The bit-fields fill the word from the least significant bit.\<close>

definition spi_cfg_word :: "spi_cfg \<Rightarrow> u32" where
  "spi_cfg_word c = ucast (cpol c) OR push_bit 1 (ucast (cpha c)) OR push_bit 2 (ucast (endian c))
     OR push_bit 3 (ucast (unit_len c)) OR push_bit 8 (ucast (sck_dly c)) OR push_bit 16 (ucast (clk_div c))"

definition SPI_DEFAULT_CS_IDLE :: u32 where "SPI_DEFAULT_CS_IDLE = 0xF"

definition uv_spi_init :: "u32 \<Rightarrow> u32 \<Rightarrow> bool \<Rightarrow> spi_cfg \<Rightarrow> soc \<Rightarrow> soc option" where
  "uv_spi_init idx cs_mask rx_en cfg s = do {
     s \<leftarrow> st_spi idx S_glb_cfg (spi_cfg_word cfg) s;
     s \<leftarrow> st_spi idx S_cs_idle SPI_DEFAULT_CS_IDLE s;
     s \<leftarrow> st_spi idx S_cs_mask (cs_mask AND 0xF) s;
     st_spi idx S_recv_en (if rx_en then 1 else 0) s }"

definition ld_port :: "u32 \<Rightarrow> ser_sel \<Rightarrow> soc \<Rightarrow> (u32 \<times> soc) option" where
  "ld_port idx x = ld_spi idx (S_ser x)"

definition st_port :: "u32 \<Rightarrow> ser_sel \<Rightarrow> u32 \<Rightarrow> soc \<Rightarrow> soc option" where
  "st_port idx x = st_spi idx (S_ser x)"

definition uv_spi_set_tx_irq :: "u32 \<Rightarrow> bool \<Rightarrow> u32 \<Rightarrow> soc \<Rightarrow> soc option" where
  "uv_spi_set_tx_irq idx = set_tx_irq (ld_port idx) (st_port idx)"

definition uv_spi_set_rx_irq :: "u32 \<Rightarrow> bool \<Rightarrow> u32 \<Rightarrow> soc \<Rightarrow> soc option" where
  "uv_spi_set_rx_irq idx = set_rx_irq (ld_port idx) (st_port idx)"

definition uv_spi_send_bytes :: "u32 \<Rightarrow> u8 list \<Rightarrow> nat \<Rightarrow> soc \<Rightarrow> soc option" where
  "uv_spi_send_bytes idx = send_buffer (tx_ready (ld_port idx)) (tx_put (st_port idx))"

definition uv_spi_recv_bytes :: "u32 \<Rightarrow> u8 list \<Rightarrow> nat \<Rightarrow> soc \<Rightarrow> (u8 list \<times> soc) option" where
  "uv_spi_recv_bytes idx = recv_buffer (rx_ready (ld_port idx)) (rx_get (ld_port idx))"

definition uv_spi_send_halfs :: "u32 \<Rightarrow> u16 list \<Rightarrow> nat \<Rightarrow> soc \<Rightarrow> soc option" where
  "uv_spi_send_halfs idx = send_buffer (tx_ready (ld_port idx)) (tx_put (st_port idx))"

definition uv_spi_recv_halfs :: "u32 \<Rightarrow> u16 list \<Rightarrow> nat \<Rightarrow> soc \<Rightarrow> (u16 list \<times> soc) option" where
  "uv_spi_recv_halfs idx = recv_buffer (rx_ready (ld_port idx)) (rx_get (ld_port idx))"

definition uv_spi_send_words :: "u32 \<Rightarrow> u32 list \<Rightarrow> nat \<Rightarrow> soc \<Rightarrow> soc option" where
  "uv_spi_send_words idx = send_buffer (tx_ready (ld_port idx)) (tx_put (st_port idx))"

definition uv_spi_recv_words :: "u32 \<Rightarrow> u32 list \<Rightarrow> nat \<Rightarrow> soc \<Rightarrow> (u32 list \<times> soc) option" where
  "uv_spi_recv_words idx = recv_buffer (rx_ready (ld_port idx)) (rx_get (ld_port idx))"

end
