(* ===== verification/Port_Interface.thy ===== *)
theory Port_Interface
  imports Uv_Sys
begin

text \<open>
  The interface between the driver and a serial port. \<open>serial_port\<close> states what a load and a store
  of a port register do: the environment moves the port, then the register block answers. Inside
  the locale the polling loops are shown to end under a fair environment, the transfer functions to
  move the data in order, and the interrupt set-up functions to configure what they are asked to.
  The locale is interpreted on the UART and on both SPI controllers.
\<close>

section \<open>Moves of a port\<close>

datatype 'a port_event = P_take | P_recv 'a

fun port_step :: "'a port_event \<Rightarrow> 'a serial \<Rightarrow> 'a serial" where
  "port_step P_take p = ser_take p"
| "port_step (P_recv x) p = ser_recv x p"

definition port_run :: "'a port_event list \<Rightarrow> 'a serial \<Rightarrow> 'a serial" where
  "port_run es p = fold port_step es p"

definition tx_count :: "'a serial \<Rightarrow> nat" where
  "tx_count p = length (q_items (p_txq p))"

definition rx_count :: "'a serial \<Rightarrow> nat" where
  "rx_count p = length (q_items (p_rxq p))"

text \<open>The registers software sets; the environment leaves them alone.\<close>

definition port_cfg :: "'a serial \<Rightarrow> bool \<times> bool \<times> 4 word \<times> 4 word" where
  "port_cfg p = (p_tx_ie p, p_rx_ie p, p_tx_th p, p_rx_th p)"

lemma port_run_induct:
  assumes "\<And>e p. P p \<Longrightarrow> P (port_step e p)" and "P p"
  shows "P (port_run es p)"
  using assms(2) unfolding port_run_def by (induction es arbitrary: p) (auto simp: assms(1))

lemma port_run_ok: "ser_ok p \<Longrightarrow> ser_ok (port_run es p)"
  by (erule port_run_induct [rotated]) (metis port_step.elims ser_take_ok ser_recv_ok)

lemma port_run_sent:
  assumes "ser_ok p"
  shows "ser_sent (port_run es p) = ser_sent p"
proof -
  have "ser_ok (port_run es p) \<and> ser_sent (port_run es p) = ser_sent p"
  proof (rule port_run_induct)
    fix e q
    assume "ser_ok q \<and> ser_sent q = ser_sent p"
    then show "ser_ok (port_step e q) \<and> ser_sent (port_step e q) = ser_sent p"
      by (cases e) (simp_all add: ser_take_ok ser_recv_ok ser_take_sent)
  qed (simp add: assms)
  then show ?thesis ..
qed

lemma port_step_cfg: "port_cfg (port_step e p) = port_cfg p"
  by (cases e) (simp_all add: port_cfg_def ser_take_def ser_recv_def)

lemma port_run_cfg [simp]: "port_cfg (port_run es p) = port_cfg p"
  by (rule port_run_induct [where P = "\<lambda>q. port_cfg q = port_cfg p"]) (simp_all add: port_step_cfg)

lemma port_run_log:
  assumes "ser_ok p" and "p_rx_log p = pre @ q_items (p_rxq p)"
  shows "p_rx_log (port_run es p) = pre @ q_items (p_rxq (port_run es p))"
proof -
  have "ser_ok (port_run es p) \<and> p_rx_log (port_run es p) = pre @ q_items (p_rxq (port_run es p))"
  proof (rule port_run_induct)
    fix e q
    assume "ser_ok q \<and> p_rx_log q = pre @ q_items (p_rxq q)"
    then show "ser_ok (port_step e q) \<and> p_rx_log (port_step e q) = pre @ q_items (p_rxq (port_step e q))"
      by (cases e) (auto simp: ser_take_ok ser_recv_ok intro: ser_recv_log)
  qed (use assms in simp)
  then show ?thesis ..
qed

lemma port_step_tx: "ser_ok p \<Longrightarrow> tx_count (port_step e p) \<le> tx_count p"
  by (cases e) (auto simp: tx_count_def ser_take_len simp del: q_items_length)

lemma port_step_rx: "ser_ok p \<Longrightarrow> rx_count p \<le> rx_count (port_step e p)"
  by (cases e) (auto simp: rx_count_def ser_recv_def ser_ok_def ring.push_items simp del: q_items_length)

lemma port_step_ok: "ser_ok p \<Longrightarrow> ser_ok (port_step e p)"
  by (cases e) (simp_all add: ser_take_ok ser_recv_ok)

lemma port_run_tx: "ser_ok p \<Longrightarrow> tx_count (port_run es p) \<le> tx_count p"
proof (induction es arbitrary: p)
  case (Cons e es)
  from Cons.IH [OF port_step_ok [OF Cons.prems, of e]] port_step_tx [OF Cons.prems, of e]
  show ?case by (simp add: port_run_def)
qed (simp add: port_run_def)

lemma port_run_rx: "ser_ok p \<Longrightarrow> rx_count p \<le> rx_count (port_run es p)"
proof (induction es arbitrary: p)
  case (Cons e es)
  from Cons.IH [OF port_step_ok [OF Cons.prems, of e]] port_step_rx [OF Cons.prems, of e]
  show ?case by (simp add: port_run_def)
qed (simp add: port_run_def)

text \<open>A take makes room; a delivery makes data available.\<close>

lemma port_run_take:
  assumes "ser_ok p" and "P_take \<in> set es"
  shows "tx_count (port_run es p) < que_depth"
  using assms
proof (induction es arbitrary: p)
  case (Cons e es)
  show ?case
  proof (cases "e = P_take")
    case True
    have "tx_count p \<le> que_depth"
      using Cons.prems ring.within [of "p_txq p"] by (simp add: tx_count_def ser_ok_def)
    then have "tx_count (ser_take p) < que_depth"
      using ser_take_len [OF Cons.prems(1)] by (auto simp: tx_count_def que_depth_def)
    with port_run_tx [OF port_step_ok [OF Cons.prems(1), of e], of es] True
    show ?thesis by (simp add: port_run_def)
  next
    case False
    with Cons.prems Cons.IH [OF port_step_ok [OF Cons.prems(1), of e]]
    show ?thesis by (simp add: port_run_def)
  qed
qed simp

lemma port_run_recv:
  assumes "ser_ok p" and "P_recv x \<in> set es"
  shows "0 < rx_count (port_run es p)"
  using assms
proof (induction es arbitrary: p)
  case (Cons e es)
  show ?case
  proof (cases "e = P_recv x")
    case True
    have "0 < rx_count (ser_recv x p)"
      using Cons.prems q_full_iff [of "p_rxq p"]
      by (auto simp: rx_count_def ser_recv_def ser_ok_def ring.push_items que_depth_def
          simp del: q_items_length)
    with port_run_rx [OF port_step_ok [OF Cons.prems(1), of e], of es] True
    show ?thesis by (simp add: port_run_def)
  next
    case False
    with Cons.prems Cons.IH [OF port_step_ok [OF Cons.prems(1), of e]]
    show ?thesis by (simp add: port_run_def)
  qed
qed simp

section \<open>Waiting for an event that keeps coming\<close>

definition next_time :: "(nat \<Rightarrow> bool) \<Rightarrow> nat \<Rightarrow> nat" where
  "next_time P t = (LEAST k. P (t + k))"

lemma next_time_Suc:
  assumes "\<forall>t. \<exists>t' \<ge> t. P t'" and "\<not> P t"
  shows "next_time P t = Suc (next_time P (Suc t))"
proof -
  obtain t' where "t \<le> t'" "P t'" using assms(1) by blast
  then have "P (t + (t' - t))" by simp
  then have "(LEAST k. P (t + k)) = Suc (LEAST k. P (t + Suc k))"
    by (rule Least_Suc) (simp add: assms(2))
  then show ?thesis by (simp add: next_time_def)
qed

text \<open>The effect of a control register on the configuration.\<close>

fun ctl_cfg :: "ser_sel \<Rightarrow> u32 \<Rightarrow> bool \<times> bool \<times> 4 word \<times> 4 word \<Rightarrow> bool \<times> bool \<times> 4 word \<times> 4 word" where
  "ctl_cfg Irq_en d (te, re, tt, rt) = (bit d 0, bit d 1, tt, rt)"
| "ctl_cfg Tx_irq_th d (te, re, tt, rt) = (te, re, ucast d, rt)"
| "ctl_cfg Rx_irq_th d (te, re, tt, rt) = (te, re, tt, ucast d)"
| "ctl_cfg _ d c = c"

lemma bit_two_bits:
  "bit (two_bits hi lo OR UART_TX_IRQ_MASK) 0"
  "bit (two_bits hi lo OR UART_TX_IRQ_MASK) 1 = hi"
  "\<not> bit (two_bits hi lo AND NOT UART_TX_IRQ_MASK) 0"
  "bit (two_bits hi lo AND NOT UART_TX_IRQ_MASK) 1 = hi"
  "bit (two_bits hi lo OR UART_RX_IRQ_MASK) 0 = lo"
  "bit (two_bits hi lo OR UART_RX_IRQ_MASK) 1"
  "bit (two_bits hi lo AND NOT UART_RX_IRQ_MASK) 0 = lo"
  "\<not> bit (two_bits hi lo AND NOT UART_RX_IRQ_MASK) 1"
  by (cases hi; cases lo; simp add: two_bits_def UART_TX_IRQ_MASK_def UART_RX_IRQ_MASK_def)+

section \<open>The interface\<close>

locale serial_port =
  fixes ld :: "ser_sel \<Rightarrow> 's \<Rightarrow> (u32 \<times> 's) option"
    and st :: "ser_sel \<Rightarrow> u32 \<Rightarrow> 's \<Rightarrow> 's option"
    and port :: "'s \<Rightarrow> 'n::len word serial"
    and evs :: "'s \<Rightarrow> nat \<Rightarrow> 'n word port_event list"
    and time :: "'s \<Rightarrow> nat"
    and keep :: "'s \<Rightarrow> 'k"
  assumes ld_law: "\<exists>s'. ld x s = Some (fst (ser_read x (port_run (evs s (time s)) (port s))), s')
      \<and> port s' = snd (ser_read x (port_run (evs s (time s)) (port s)))
      \<and> evs s' = evs s \<and> time s' = Suc (time s) \<and> keep s' = keep s"
    and st_law: "\<exists>s'. st x d s = Some s'
      \<and> port s' = ser_write x (- 1) d (port_run (evs s (time s)) (port s))
      \<and> evs s' = evs s \<and> time s' = Suc (time s) \<and> keep s' = keep s"
begin

lemma ld_queue_len:
  assumes "ser_ok (port s)" and "x \<in> {Txq_cap, Txq_len, Rxq_cap, Rxq_len, Irq_en}"
  shows "\<exists>s'. ld x s = Some (fst (ser_read x (port s')), s')
    \<and> port s' = port_run (evs s (time s)) (port s)
    \<and> evs s' = evs s \<and> time s' = Suc (time s) \<and> keep s' = keep s \<and> ser_ok (port s')"
proof -
  have "ser_read x p = (fst (ser_read x p), p)" for p :: "'n word serial"
    using assms(2) by (auto simp: ser_read_def)
  then have "snd (ser_read x p) = p" for p :: "'n word serial"
    by (metis snd_conv)
  then show ?thesis
    using ld_law [of x s] port_run_ok [OF assms(1)] by metis
qed

lemma len_not_cap: "ser_ok p \<Longrightarrow>
    fst (ser_read Txq_len p) \<noteq> (fst (ser_read Txq_cap p) :: u32) \<longleftrightarrow> tx_count p < que_depth"
  for p :: "'n word serial"
proof -
  assume "ser_ok p"
  then have "unat (q_len (p_txq p)) \<le> 8"
    using ring.within [of "p_txq p"] by (simp add: ser_ok_def que_depth_def)
  moreover have "unat (ucast (q_len (p_txq p)) :: u32) = unat (q_len (p_txq p))"
    by (simp add: unat_ucast_up del: unsigned_ucast_eq)
  ultimately show ?thesis
    by (auto simp: ser_read_def tx_count_def que_depth_def word_unat_eq_iff simp del: unsigned_ucast_eq)
qed

lemma tx_ready_law:
  assumes "ser_ok (port s)"
  shows "\<exists>b s'. tx_ready ld s = Some (b, s') \<and> ser_ok (port s')
    \<and> ser_sent (port s') = ser_sent (port s) \<and> port_cfg (port s') = port_cfg (port s)
    \<and> evs s' = evs s \<and> keep s' = keep s
    \<and> (b \<longrightarrow> tx_count (port s') < que_depth)
    \<and> (\<not> b \<longrightarrow> time s' = Suc (Suc (time s)) \<and> P_take \<notin> set (evs s (time s))
        \<and> (P_take \<in> set (evs s (Suc (time s))) \<longrightarrow> tx_count (port s') < que_depth))
    \<and> (tx_count (port s) < que_depth \<longrightarrow> b)"
proof -
  obtain s1 where l1: "ld Txq_len s = Some (fst (ser_read Txq_len (port s1)), s1)"
    and p1: "port s1 = port_run (evs s (time s)) (port s)" and e1: "evs s1 = evs s"
    and t1: "time s1 = Suc (time s)" and k1: "keep s1 = keep s" and o1: "ser_ok (port s1)"
    using ld_queue_len [OF assms, of Txq_len] by auto
  obtain s2 where l2: "ld Txq_cap s1 = Some (fst (ser_read Txq_cap (port s2)), s2)"
    and p2: "port s2 = port_run (evs s1 (time s1)) (port s1)" and e2: "evs s2 = evs s1"
    and t2: "time s2 = Suc (time s1)" and k2: "keep s2 = keep s1" and o2: "ser_ok (port s2)"
    using ld_queue_len [OF o1, of Txq_cap] by auto
  let ?b = "fst (ser_read Txq_len (port s1)) \<noteq> fst (ser_read Txq_cap (port s2))"
  have r: "tx_ready ld s = Some (?b, s2)" by (simp add: tx_ready_def l1 l2)
  have "fst (ser_read Txq_cap (port s2)) = fst (ser_read Txq_cap (port s1))"
    by (simp add: ser_read_def)
  then have b: "?b \<longleftrightarrow> tx_count (port s1) < que_depth" using len_not_cap [OF o1] by simp
  have "tx_count (port s2) \<le> tx_count (port s1)" using port_run_tx [OF o1] by (simp add: p2)
  moreover have "tx_count (port s1) \<le> tx_count (port s)" using port_run_tx [OF assms] by (simp add: p1)
  moreover have "P_take \<in> set (evs s (time s)) \<Longrightarrow> tx_count (port s1) < que_depth"
    using port_run_take [OF assms] by (simp add: p1)
  then have "P_take \<in> set (evs s (time s)) \<Longrightarrow> ?b"
    using b by blast
  moreover have "P_take \<in> set (evs s (Suc (time s))) \<Longrightarrow> tx_count (port s2) < que_depth"
    using port_run_take [OF o1] by (simp add: p2 e1 t1)
  moreover have "ser_sent (port s2) = ser_sent (port s)" "port_cfg (port s2) = port_cfg (port s)"
    using port_run_sent [OF assms] port_run_sent [OF o1] by (simp_all add: p1 p2)
  ultimately show ?thesis
    using r o2 e1 e2 k1 k2 t1 t2 b by (intro exI [of _ ?b] exI [of _ s2]) auto
qed

lemma poll_tx:
  assumes "ser_ok (port s)" and "\<forall>t. \<exists>t' \<ge> t. P_take \<in> set (evs s t')"
  shows "\<exists>s'. poll (tx_ready ld) s = Some s' \<and> ser_ok (port s')
    \<and> ser_sent (port s') = ser_sent (port s) \<and> port_cfg (port s') = port_cfg (port s)
    \<and> evs s' = evs s \<and> keep s' = keep s \<and> tx_count (port s') < que_depth"
  using assms
proof (induction "if tx_count (port s) < que_depth then 0
    else Suc (next_time (\<lambda>t. P_take \<in> set (evs s t)) (time s))" arbitrary: s rule: less_induct)
  case less
  obtain b s1 where r: "tx_ready ld s = Some (b, s1)" and o1: "ser_ok (port s1)"
    and f: "ser_sent (port s1) = ser_sent (port s)" "port_cfg (port s1) = port_cfg (port s)"
      "evs s1 = evs s" "keep s1 = keep s"
    and bt: "b \<longrightarrow> tx_count (port s1) < que_depth"
    and bf: "\<not> b \<longrightarrow> time s1 = Suc (Suc (time s)) \<and> P_take \<notin> set (evs s (time s))
        \<and> (P_take \<in> set (evs s (Suc (time s))) \<longrightarrow> tx_count (port s1) < que_depth)"
    and room: "tx_count (port s) < que_depth \<longrightarrow> b"
    using tx_ready_law [OF less.prems(1)] by blast
  show ?case
  proof (cases b)
    case True
    with r o1 f bt show ?thesis by (auto simp: poll.simps [of _ s])
  next
    case False
    let ?n = "next_time (\<lambda>t. P_take \<in> set (evs s t))"
    have full: "\<not> tx_count (port s) < que_depth" using False room by blast
    have "(if tx_count (port s1) < que_depth then 0
        else Suc (next_time (\<lambda>t. P_take \<in> set (evs s1 t)) (time s1)))
      < (if tx_count (port s) < que_depth then 0 else Suc (?n (time s)))"
    proof (cases "tx_count (port s1) < que_depth")
      case not_room: False
      have "?n (time s) = Suc (?n (Suc (time s)))"
        using bf False less.prems(2) by (intro next_time_Suc) auto
      moreover have "?n (Suc (time s)) = Suc (?n (Suc (Suc (time s))))"
        using bf False not_room less.prems(2) by (intro next_time_Suc) auto
      ultimately show ?thesis using full not_room bf False by (simp add: f)
    qed (simp add: full)
    from less.hyps [OF this o1] less.prems(2) False r show ?thesis
      by (simp add: f poll.simps [of _ s])
  qed
qed

lemma tx_put_law:
  fixes x :: "'m::len word"
  assumes "ser_ok (port s)" and "tx_count (port s) < que_depth"
  shows "\<exists>s'. tx_put st x s = Some s' \<and> ser_ok (port s')
    \<and> ser_sent (port s') = ser_sent (port s) @ [ucast (ucast x :: u32)]
    \<and> port_cfg (port s') = port_cfg (port s) \<and> evs s' = evs s \<and> keep s' = keep s"
proof -
  let ?p = "port_run (evs s (time s)) (port s)"
  obtain s1 where w: "st Txq_dat (ucast x) s = Some s1"
    and p1: "port s1 = ser_write Txq_dat (- 1) (ucast x) ?p"
    and e1: "evs s1 = evs s" and k1: "keep s1 = keep s"
    using st_law [of Txq_dat "ucast x" s] by auto
  have ok: "ser_ok ?p" using port_run_ok [OF assms(1)] .
  have "tx_count ?p < que_depth" using port_run_tx [OF assms(1)] assms(2) le_less_trans by blast
  then have "ser_sent (port s1) = ser_sent ?p @ [ucast (ucast x :: u32)]"
    using ok by (simp add: p1 ser_write_def ser_sent_def ring.push_items tx_count_def ser_ok_def
        del: q_items_length)
  moreover have "port_cfg (port s1) = port_cfg ?p" by (simp add: p1 ser_write_def port_cfg_def)
  ultimately show ?thesis
    using w ser_write_ok [OF ok] e1 k1 port_run_sent [OF assms(1)]
    by (simp add: tx_put_def p1)
qed

lemma send_loop_total:
  fixes xs :: "'m::len word list"
  assumes "ser_ok (port s)" and "\<forall>t. \<exists>t' \<ge> t. P_take \<in> set (evs s t')"
  shows "\<exists>s'. send_loop (tx_ready ld) (tx_put st) xs s = Some s' \<and> ser_ok (port s')
    \<and> ser_sent (port s') = ser_sent (port s) @ map (\<lambda>x. ucast (ucast x :: u32)) xs
    \<and> port_cfg (port s') = port_cfg (port s) \<and> evs s' = evs s \<and> keep s' = keep s"
  using assms
proof (induction xs arbitrary: s)
  case (Cons x xs)
  obtain s1 where 1: "poll (tx_ready ld) s = Some s1" "ser_ok (port s1)"
      "ser_sent (port s1) = ser_sent (port s)" "port_cfg (port s1) = port_cfg (port s)"
      "evs s1 = evs s" "keep s1 = keep s" "tx_count (port s1) < que_depth"
    using poll_tx [OF Cons.prems] by blast
  obtain s2 where 2: "tx_put st x s1 = Some s2" "ser_ok (port s2)"
      "ser_sent (port s2) = ser_sent (port s1) @ [ucast (ucast x :: u32)]"
      "port_cfg (port s2) = port_cfg (port s1)" "evs s2 = evs s1" "keep s2 = keep s1"
    using tx_put_law [OF 1(2,7)] by blast
  from Cons.IH [OF 2(2)] Cons.prems(2) show ?case
    by (auto simp: 1 2)
qed simp

text \<open>Receiving.\<close>

lemma len_not_zero: "fst (ser_read Rxq_len p) \<noteq> (0 :: u32) \<longleftrightarrow> 0 < rx_count p"
  for p :: "'n word serial"
proof -
  have "unat (ucast (q_len (p_rxq p)) :: u32) = unat (q_len (p_rxq p))"
    by (simp add: unat_ucast_up del: unsigned_ucast_eq)
  then show ?thesis
    by (auto simp: ser_read_def rx_count_def word_unat_eq_iff simp del: unsigned_ucast_eq)
qed

lemma rx_ready_law:
  assumes "ser_ok (port s)"
  shows "\<exists>s'. rx_ready ld s = Some (0 < rx_count (port s'), s')
    \<and> port s' = port_run (evs s (time s)) (port s) \<and> ser_ok (port s')
    \<and> evs s' = evs s \<and> keep s' = keep s \<and> time s' = Suc (time s)"
  using ld_queue_len [OF assms, of Rxq_len] len_not_zero by (auto simp: rx_ready_def)

lemma poll_rx:
  assumes "ser_ok (port s)" and "p_rx_log (port s) = pre @ q_items (p_rxq (port s))"
    and "\<forall>t. \<exists>t' \<ge> t. \<exists>x. P_recv x \<in> set (evs s t')"
  shows "\<exists>s'. poll (rx_ready ld) s = Some s' \<and> ser_ok (port s')
    \<and> p_rx_log (port s') = pre @ q_items (p_rxq (port s'))
    \<and> port_cfg (port s') = port_cfg (port s) \<and> ser_sent (port s') = ser_sent (port s)
    \<and> evs s' = evs s \<and> keep s' = keep s \<and> 0 < rx_count (port s')"
  using assms
proof (induction "next_time (\<lambda>t. \<exists>x. P_recv x \<in> set (evs s t)) (time s)" arbitrary: s rule: less_induct)
  case less
  obtain s1 where r: "rx_ready ld s = Some (0 < rx_count (port s1), s1)"
    and p1: "port s1 = port_run (evs s (time s)) (port s)" and o1: "ser_ok (port s1)"
    and f: "evs s1 = evs s" "keep s1 = keep s" "time s1 = Suc (time s)"
    using rx_ready_law [OF less.prems(1)] by blast
  have l1: "p_rx_log (port s1) = pre @ q_items (p_rxq (port s1))"
    using port_run_log [OF less.prems(1,2)] by (simp add: p1)
  have g: "port_cfg (port s1) = port_cfg (port s)" "ser_sent (port s1) = ser_sent (port s)"
    using port_run_sent [OF less.prems(1)] by (simp_all add: p1)
  show ?case
  proof (cases "0 < rx_count (port s1)")
    case True
    with r o1 f g l1 show ?thesis by (simp add: poll.simps [of _ s])
  next
    case False
    have "\<not> (\<exists>x. P_recv x \<in> set (evs s (time s)))"
    proof
      assume "\<exists>x. P_recv x \<in> set (evs s (time s))"
      then obtain x where "P_recv x \<in> set (evs s (time s))" ..
      from port_run_recv [OF less.prems(1) this] False show False by (simp add: p1)
    qed
    then have "next_time (\<lambda>t. \<exists>x. P_recv x \<in> set (evs s1 t)) (time s1)
        < next_time (\<lambda>t. \<exists>x. P_recv x \<in> set (evs s t)) (time s)"
      using next_time_Suc [OF less.prems(3)] by (simp add: f)
    from less.hyps [OF this o1 l1] less.prems(3) False r show ?thesis
      by (simp add: f g poll.simps [of _ s])
  qed
qed

lemma rx_get_law:
  assumes "ser_ok (port s)" and "p_rx_log (port s) = pre @ q_items (p_rxq (port s))"
    and "0 < rx_count (port s)"
  shows "\<exists>v s'. rx_get ld s = Some (ucast (ucast v :: u32), s') \<and> ser_ok (port s')
    \<and> p_rx_log (port s') = (pre @ [v]) @ q_items (p_rxq (port s'))
    \<and> port_cfg (port s') = port_cfg (port s) \<and> ser_sent (port s') = ser_sent (port s)
    \<and> evs s' = evs s \<and> keep s' = keep s"
proof -
  let ?p = "port_run (evs s (time s)) (port s)"
  have ok: "ser_ok ?p" using port_run_ok [OF assms(1)] .
  have log: "p_rx_log ?p = pre @ q_items (p_rxq ?p)" using port_run_log [OF assms(1,2)] .
  have "0 < rx_count ?p" using port_run_rx [OF assms(1)] assms(3) less_le_trans by blast
  then obtain v vs where q: "q_items (p_rxq ?p) = v # vs"
    by (cases "q_items (p_rxq ?p)") (auto simp: rx_count_def simp del: q_items_length)
  obtain s1 where l: "ld Rxq_dat s = Some (fst (ser_read Rxq_dat ?p), s1)"
    and p1: "port s1 = snd (ser_read Rxq_dat ?p)" and f: "evs s1 = evs s" "keep s1 = keep s"
    using ld_law [of Rxq_dat s] by auto
  have v: "q_rd_dat (p_rxq ?p) = v" using ring.front_items [of "p_rxq ?p"] q by simp
  have "q_items (p_rxq (port s1)) = vs"
    using ok q by (simp add: p1 ser_read_def ser_ok_def ring.pop_items)
  moreover have "p_rx_log (port s1) = p_rx_log ?p" "port_cfg (port s1) = port_cfg ?p"
    "ser_sent (port s1) = ser_sent ?p"
    by (simp_all add: p1 ser_read_def port_cfg_def ser_sent_def)
  moreover have "ser_ok (port s1)" using ser_read_ok [OF ok] by (simp add: p1)
  ultimately show ?thesis
    using l log q f port_run_sent [OF assms(1)]
    by (intro exI [of _ v] exI [of _ s1]) (simp add: rx_get_def ser_read_def v)
qed

text \<open>The words delivered, in the element type of the caller's buffer.\<close>

lemma recv_loop_total:
  fixes buf :: "'m::len word list"
  assumes "ser_ok (port s)" and "p_rx_log (port s) = pre @ q_items (p_rxq (port s))"
    and "\<forall>t. \<exists>t' \<ge> t. \<exists>x. P_recv x \<in> set (evs s t')" and "i + n \<le> length buf"
  shows "\<exists>vs s'. recv_loop (rx_ready ld) (rx_get ld) n i buf s =
      Some (take i buf @ map (\<lambda>v. ucast (ucast v :: u32)) vs @ drop (i + n) buf, s')
    \<and> length vs = n \<and> ser_ok (port s')
    \<and> p_rx_log (port s') = (pre @ vs) @ q_items (p_rxq (port s'))
    \<and> port_cfg (port s') = port_cfg (port s) \<and> ser_sent (port s') = ser_sent (port s)
    \<and> evs s' = evs s \<and> keep s' = keep s"
  using assms
proof (induction n arbitrary: s i buf pre)
  case (Suc n)
  obtain s1 where 1: "poll (rx_ready ld) s = Some s1" "ser_ok (port s1)"
      "p_rx_log (port s1) = pre @ q_items (p_rxq (port s1))" "0 < rx_count (port s1)"
      "port_cfg (port s1) = port_cfg (port s)" "ser_sent (port s1) = ser_sent (port s)"
      "evs s1 = evs s" "keep s1 = keep s"
    using poll_rx [OF Suc.prems(1-3)] by blast
  obtain v s2 where 2: "rx_get ld s1 = Some (ucast (ucast v :: u32) :: 'm word, s2)" "ser_ok (port s2)"
      "p_rx_log (port s2) = (pre @ [v]) @ q_items (p_rxq (port s2))"
      "port_cfg (port s2) = port_cfg (port s1)" "ser_sent (port s2) = ser_sent (port s1)"
      "evs s2 = evs s1" "keep s2 = keep s1"
    using rx_get_law [OF 1(2-4)] by blast
  let ?buf = "buf[i := ucast (ucast v :: u32) :: 'm word]"
  have len: "Suc i + n \<le> length ?buf" using Suc.prems(4) by simp
  have fair: "\<forall>t. \<exists>t' \<ge> t. \<exists>x. P_recv x \<in> set (evs s2 t')" using Suc.prems(3) by (simp add: 1 2)
  obtain vs s3 where 3: "recv_loop (rx_ready ld) (rx_get ld) n (Suc i) ?buf s2 =
      Some (take (Suc i) ?buf @ map (\<lambda>v. ucast (ucast v :: u32)) vs @ drop (Suc i + n) ?buf, s3)"
      "length vs = n" "ser_ok (port s3)"
      "p_rx_log (port s3) = ((pre @ [v]) @ vs) @ q_items (p_rxq (port s3))"
      "port_cfg (port s3) = port_cfg (port s2)" "ser_sent (port s3) = ser_sent (port s2)"
      "evs s3 = evs s2" "keep s3 = keep s2"
    using Suc.IH [OF 2(2,3) fair len] by blast
  have "take (Suc i) ?buf = take i buf @ [ucast (ucast v :: u32)]"
    using Suc.prems(4) by (simp add: take_Suc_conv_app_nth)
  moreover have "drop (Suc i + n) ?buf = drop (i + Suc n) buf" by simp
  ultimately have "recv_loop (rx_ready ld) (rx_get ld) (Suc n) i buf s =
      Some (take i buf @ map (\<lambda>v. ucast (ucast v :: u32)) (v # vs) @ drop (i + Suc n) buf, s3)"
    using 3(1) by (simp add: 1(1) 2(1))
  then show ?case
    using 3 by (intro exI [of _ "v # vs"] exI [of _ s3]) (simp add: 1 2)
qed (auto simp: append_take_drop_id)

lemma st_ctl:
  assumes "ser_ok (port s)" and "x \<in> {Irq_en, Tx_irq_th, Rx_irq_th}"
  shows "\<exists>s'. st x d s = Some s' \<and> ser_ok (port s')
    \<and> port_cfg (port s') = ctl_cfg x d (port_cfg (port s))
    \<and> ser_sent (port s') = ser_sent (port s) \<and> evs s' = evs s \<and> keep s' = keep s"
proof -
  let ?p = "port_run (evs s (time s)) (port s)"
  obtain s1 where w: "st x d s = Some s1" and p1: "port s1 = ser_write x (- 1) d ?p"
    and f: "evs s1 = evs s" "keep s1 = keep s"
    using st_law [of x d s] by auto
  have "port_cfg (port s1) = ctl_cfg x d (port_cfg ?p)" "ser_sent (port s1) = ser_sent ?p"
    using assms(2) by (auto simp: p1 ser_write_def port_cfg_def ser_sent_def)
  with w f show ?thesis
    using ser_write_ok [OF port_run_ok [OF assms(1)]] port_run_sent [OF assms(1)]
    by (simp add: p1)
qed

lemma ld_ctl:
  assumes "ser_ok (port s)"
  shows "\<exists>s'. ld Irq_en s = Some (two_bits (p_rx_ie (port s)) (p_tx_ie (port s)), s') \<and> ser_ok (port s')
    \<and> port_cfg (port s') = port_cfg (port s)
    \<and> ser_sent (port s') = ser_sent (port s) \<and> evs s' = evs s \<and> keep s' = keep s"
proof -
  have "port_cfg (port_run (evs s (time s)) (port s)) = port_cfg (port s)" by simp
  then have "p_rx_ie (port_run (evs s (time s)) (port s)) = p_rx_ie (port s)"
    "p_tx_ie (port_run (evs s (time s)) (port s)) = p_tx_ie (port s)"
    unfolding port_cfg_def by simp_all
  then show ?thesis
    using ld_queue_len [OF assms, of Irq_en] port_run_sent [OF assms]
    by (auto simp: ser_read_def)
qed

text \<open>Read, modify and write the enable register.\<close>

lemma rmw_ie:
  assumes "ser_ok (port s)"
  shows "\<exists>s'. Option.bind (ld Irq_en s) (\<lambda>(ie, s). st Irq_en (f ie) s) = Some s' \<and> ser_ok (port s')
    \<and> port_cfg (port s') = ctl_cfg Irq_en (f (two_bits (p_rx_ie (port s)) (p_tx_ie (port s)))) (port_cfg (port s))
    \<and> ser_sent (port s') = ser_sent (port s) \<and> evs s' = evs s \<and> keep s' = keep s"
proof -
  obtain s1 where 1: "ld Irq_en s = Some (two_bits (p_rx_ie (port s)) (p_tx_ie (port s)), s1)"
      "ser_ok (port s1)" "port_cfg (port s1) = port_cfg (port s)"
      "ser_sent (port s1) = ser_sent (port s)" "evs s1 = evs s" "keep s1 = keep s"
    using ld_ctl [OF assms] by blast
  from st_ctl [OF 1(2), of Irq_en "f (two_bits (p_rx_ie (port s)) (p_tx_ie (port s)))"]
  show ?thesis by (simp add: 1)
qed

text \<open>Interrupt set-up: the threshold is clamped to the queue, the other direction is untouched.\<close>

lemma ld_cap:
  assumes "ser_ok (port s)" and "x \<in> {Txq_cap, Rxq_cap}"
  shows "\<exists>s'. ld x s = Some (of_nat que_depth, s') \<and> ser_ok (port s')
    \<and> port_cfg (port s') = port_cfg (port s)
    \<and> ser_sent (port s') = ser_sent (port s) \<and> evs s' = evs s \<and> keep s' = keep s"
  using ld_queue_len [OF assms(1), of x] port_run_sent [OF assms(1)] assms(2)
  by (auto simp: ser_read_def)

lemma set_tx_irq_law:
  assumes "ser_ok (port s)"
  shows "\<exists>s'. set_tx_irq ld st tx_ie tx_th s = Some s' \<and> ser_ok (port s')
    \<and> port_cfg (port s') = (tx_ie, p_rx_ie (port s),
        (if tx_ie then if tx_th < of_nat que_depth then ucast tx_th else 0 else p_tx_th (port s)),
        p_rx_th (port s))
    \<and> ser_sent (port s') = ser_sent (port s) \<and> evs s' = evs s \<and> keep s' = keep s"
proof (cases tx_ie)
  case True
  obtain s1 where 1: "ld Txq_cap s = Some (of_nat que_depth, s1)" "ser_ok (port s1)"
      "port_cfg (port s1) = port_cfg (port s)" "ser_sent (port s1) = ser_sent (port s)"
      "evs s1 = evs s" "keep s1 = keep s"
    using ld_cap [OF assms, of Txq_cap] by blast
  let ?th = "if tx_th < of_nat que_depth then tx_th else 0"
  obtain s2 where 2: "st Tx_irq_th ?th s1 = Some s2" "ser_ok (port s2)"
      "port_cfg (port s2) = ctl_cfg Tx_irq_th ?th (port_cfg (port s1))"
      "ser_sent (port s2) = ser_sent (port s1)" "evs s2 = evs s1" "keep s2 = keep s1"
    using st_ctl [OF 1(2), of Tx_irq_th ?th] by blast
  have ie: "p_rx_ie (port s2) = p_rx_ie (port s)"
    using 2(3) 1(3) by (simp add: port_cfg_def)
  have "set_tx_irq ld st tx_ie tx_th s =
      Option.bind (ld Irq_en s2) (\<lambda>(ie, s). st Irq_en (ie OR UART_TX_IRQ_MASK) s)"
    using True 1(1) 2(1) by (auto simp: set_tx_irq_def split: if_splits)
  with rmw_ie [OF 2(2), of "\<lambda>ie. ie OR UART_TX_IRQ_MASK"] True show ?thesis
    using ie 2(3) 1(3) by (auto simp: 1 2 bit_two_bits port_cfg_def simp del: One_nat_def)
next
  case False
  then have "set_tx_irq ld st tx_ie tx_th s =
      Option.bind (ld Irq_en s) (\<lambda>(ie, s). st Irq_en (ie AND NOT UART_TX_IRQ_MASK) s)"
    by (simp add: set_tx_irq_def)
  with rmw_ie [OF assms, of "\<lambda>ie. ie AND NOT UART_TX_IRQ_MASK"] False show ?thesis
    by (auto simp: bit_two_bits port_cfg_def simp del: One_nat_def)
qed

lemma set_rx_irq_law:
  assumes "ser_ok (port s)"
  shows "\<exists>s'. set_rx_irq ld st rx_ie rx_th s = Some s' \<and> ser_ok (port s')
    \<and> port_cfg (port s') = (p_tx_ie (port s), rx_ie, p_tx_th (port s),
        (if rx_ie then if 0 < rx_th \<and> rx_th \<le> of_nat que_depth then ucast rx_th else of_nat que_depth
         else p_rx_th (port s)))
    \<and> ser_sent (port s') = ser_sent (port s) \<and> evs s' = evs s \<and> keep s' = keep s"
proof (cases rx_ie)
  case True
  let ?in = "0 < rx_th \<and> rx_th \<le> of_nat que_depth"
  let ?th = "if ?in then rx_th else of_nat que_depth"
  have "\<exists>s1. (if rx_th > 0 then do { (cap, s) \<leftarrow> ld Rxq_cap s; Some (rx_th \<le> cap, s) } else Some (False, s))
      = Some (?in, s1) \<and> ser_ok (port s1) \<and> port_cfg (port s1) = port_cfg (port s)
      \<and> ser_sent (port s1) = ser_sent (port s) \<and> evs s1 = evs s \<and> keep s1 = keep s"
    using ld_cap [OF assms, of Rxq_cap] assms by (cases "rx_th > 0") auto
  then obtain s1 where 1: "(if rx_th > 0 then do { (cap, s) \<leftarrow> ld Rxq_cap s; Some (rx_th \<le> cap, s) }
        else Some (False, s)) = Some (?in, s1)" "ser_ok (port s1)"
      "port_cfg (port s1) = port_cfg (port s)" "ser_sent (port s1) = ser_sent (port s)"
      "evs s1 = evs s" "keep s1 = keep s"
    by blast
  have "\<exists>s2. (if ?in then st Rx_irq_th rx_th s1 else do { (cap, s) \<leftarrow> ld Rxq_cap s1; st Rx_irq_th cap s })
      = Some s2 \<and> ser_ok (port s2)
      \<and> port_cfg (port s2) = ctl_cfg Rx_irq_th ?th (port_cfg (port s1))
      \<and> ser_sent (port s2) = ser_sent (port s1) \<and> evs s2 = evs s1 \<and> keep s2 = keep s1"
  proof (cases ?in)
    case True
    then show ?thesis using st_ctl [OF 1(2), of Rx_irq_th rx_th] by simp
  next
    case False
    obtain s' where c: "ld Rxq_cap s1 = Some (of_nat que_depth, s')" "ser_ok (port s')"
        "port_cfg (port s') = port_cfg (port s1)" "ser_sent (port s') = ser_sent (port s1)"
        "evs s' = evs s1" "keep s' = keep s1"
      using ld_cap [OF 1(2), of Rxq_cap] by blast
    show ?thesis using False st_ctl [OF c(2), of Rx_irq_th "of_nat que_depth"] by (auto simp: c)
  qed
  then obtain s2 where 2: "(if ?in then st Rx_irq_th rx_th s1
        else do { (cap, s) \<leftarrow> ld Rxq_cap s1; st Rx_irq_th cap s }) = Some s2" "ser_ok (port s2)"
      "port_cfg (port s2) = ctl_cfg Rx_irq_th ?th (port_cfg (port s1))"
      "ser_sent (port s2) = ser_sent (port s1)" "evs s2 = evs s1" "keep s2 = keep s1"
    by blast
  have ie: "p_tx_ie (port s2) = p_tx_ie (port s)"
    using 2(3) 1(3) by (simp add: port_cfg_def)
  have "set_rx_irq ld st rx_ie rx_th s =
      Option.bind (ld Irq_en s2) (\<lambda>(ie, s). st Irq_en (ie OR UART_RX_IRQ_MASK) s)"
    using True 2(1) unfolding set_rx_irq_def 1(1) by simp
  moreover have "ucast (of_nat que_depth :: u32) = (of_nat que_depth :: 4 word)"
    by (simp add: que_depth_def)
  ultimately show ?thesis
    using rmw_ie [OF 2(2), of "\<lambda>ie. ie OR UART_RX_IRQ_MASK"] True ie 2(3) 1(3) by (auto simp: 1 2 bit_two_bits port_cfg_def simp del: One_nat_def)
next
  case False
  then have "set_rx_irq ld st rx_ie rx_th s =
      Option.bind (ld Irq_en s) (\<lambda>(ie, s). st Irq_en (ie AND NOT UART_RX_IRQ_MASK) s)"
    by (simp add: set_rx_irq_def)
  with rmw_ie [OF assms, of "\<lambda>ie. ie AND NOT UART_RX_IRQ_MASK"] False show ?thesis
    by (auto simp: bit_two_bits port_cfg_def simp del: One_nat_def)
qed

end

section \<open>The ports of the machine\<close>

definition uart_port_of :: "soc \<Rightarrow> u8 serial" where
  "uart_port_of s = uart_port (uart s)"

definition spi_port_of :: "nat \<Rightarrow> soc \<Rightarrow> u32 serial" where
  "spi_port_of i s = spi_port (spi s i)"

fun uart_event :: "hw_event \<Rightarrow> u8 port_event list" where
  "uart_event Uart_take = [P_take]"
| "uart_event (Uart_recv b) = [P_recv b]"
| "uart_event _ = []"

fun spi_event :: "nat \<Rightarrow> bool \<Rightarrow> hw_event \<Rightarrow> u32 port_event list" where
  "spi_event i en (Spi_take j) = (if i = j then [P_take] else [])"
| "spi_event i en (Spi_recv j w) = (if i = j \<and> en then [P_recv w] else [])"
| "spi_event i en _ = []"

definition uart_evs :: "soc \<Rightarrow> nat \<Rightarrow> u8 port_event list" where
  "uart_evs s t = concat (map uart_event (env s t))"

definition spi_evs :: "nat \<Rightarrow> soc \<Rightarrow> nat \<Rightarrow> u32 port_event list" where
  "spi_evs i s t = concat (map (spi_event i (spi_recv_en_r (spi s i))) (env s t))"

text \<open>What an access to one port keeps: the rest of the machine that only software writes.\<close>

definition spi_cfg_of :: "soc \<Rightarrow> nat \<Rightarrow> u32 \<times> bool \<times> 4 word \<times> 4 word" where
  "spi_cfg_of s i = (spi_glb_cfg_r (spi s i), spi_recv_en_r (spi s i), spi_cs_idle_r (spi s i),
     spi_cs_mask_r (spi s i))"

definition soc_keep ::
  "soc \<Rightarrow> (nat \<Rightarrow> hw_event list) \<times> u32 \<times> (nat \<Rightarrow> u32 \<times> bool \<times> 4 word \<times> 4 word) \<times> (u32 \<times> u32) list" where
  "soc_keep s = (env s, uart_glb_cfg_r (uart s), spi_cfg_of s, scratch_log s)"

lemma hw_step_keep [simp]: "soc_keep (hw_step e s) = soc_keep s"
  by (cases e) (auto simp: soc_keep_def hw_step_def spi_cfg_of_def spi_recv_def fun_eq_iff)

lemma hw_run_keep [simp]: "soc_keep (fold hw_step es s) = soc_keep s"
  by (induction es arbitrary: s) simp_all

lemma sync_keep [simp]: "soc_keep (sync s) = soc_keep s"
proof -
  have "soc_keep (t\<lparr>now := n\<rparr>) = soc_keep t" for t n
    by (simp add: soc_keep_def spi_cfg_of_def fun_eq_iff)
  then show ?thesis by (simp add: sync_def)
qed

lemma hw_step_now [simp]: "now (hw_step e s) = now s"
  by (cases e) (auto simp: hw_step_def)

lemma hw_run_now [simp]: "now (fold hw_step es s) = now s"
  by (induction es arbitrary: s) simp_all

lemma sync_now [simp]: "now (sync s) = Suc (now s)"
  by (simp add: sync_def)

lemma keep_env: "soc_keep s' = soc_keep s \<Longrightarrow> env s' = env s"
  by (simp add: soc_keep_def)

lemma hw_step_uart: "uart_port_of (hw_step e s) = port_run (uart_event e) (uart_port_of s)"
  by (cases e) (auto simp: hw_step_def uart_port_of_def port_run_def)

lemma hw_run_uart: "uart_port_of (fold hw_step es s) = port_run (concat (map uart_event es)) (uart_port_of s)"
  by (induction es arbitrary: s) (simp_all add: hw_step_uart port_run_def)

lemma sync_uart: "uart_port_of (sync s) = port_run (uart_evs s (now s)) (uart_port_of s)"
  using hw_run_uart [of "env s (now s)" s] by (simp add: sync_def uart_evs_def uart_port_of_def)

lemma hw_step_spi:
  "spi_port_of i (hw_step e s) = port_run (spi_event i (spi_recv_en_r (spi s i)) e) (spi_port_of i s)"
  by (cases e) (auto simp: hw_step_def spi_port_of_def port_run_def spi_recv_def)

lemma hw_step_recv_en: "spi_recv_en_r (spi (hw_step e s) i) = spi_recv_en_r (spi s i)"
  by (cases e) (auto simp: hw_step_def spi_recv_def)

lemma hw_run_spi: "spi_port_of i (fold hw_step es s) =
    port_run (concat (map (spi_event i (spi_recv_en_r (spi s i))) es)) (spi_port_of i s)"
  by (induction es arbitrary: s) (simp_all add: hw_step_spi port_run_def hw_step_recv_en)

lemma sync_spi: "spi_port_of i (sync s) = port_run (spi_evs i s (now s)) (spi_port_of i s)"
  using hw_run_spi [of i "env s (now s)" s] by (simp add: sync_def spi_evs_def spi_port_of_def)

interpretation uart_if: serial_port ld_uart st_uart uart_port_of uart_evs now soc_keep
proof unfold_locales
  fix x s
  let ?p = "port_run (uart_evs s (now s)) (uart_port_of s)"
  let ?s = "(sync s)\<lparr>uart := (uart (sync s))\<lparr>uart_port := snd (ser_read x ?p)\<rparr>\<rparr>"
  have p: "uart_port (uart (sync s)) = ?p" using sync_uart [of s] by (simp add: uart_port_of_def)
  have k: "soc_keep ?s = soc_keep s"
    using sync_keep [of s] by (simp add: soc_keep_def spi_cfg_of_def fun_eq_iff)
  have "ld_uart x s = Some (fst (ser_read x ?p), ?s)"
    by (simp add: ld_uart_def load_word_def reg_read_def uart_read_def p case_prod_unfold Let_def)
  then show "\<exists>s'. ld_uart x s = Some (fst (ser_read x ?p), s') \<and> uart_port_of s' = snd (ser_read x ?p)
      \<and> uart_evs s' = uart_evs s \<and> now s' = Suc (now s) \<and> soc_keep s' = soc_keep s"
    using k keep_env [OF k] by (intro exI [of _ ?s]) (simp add: uart_port_of_def uart_evs_def fun_eq_iff)
next
  fix x d s
  let ?p = "port_run (uart_evs s (now s)) (uart_port_of s)"
  let ?s = "(sync s)\<lparr>uart := (uart (sync s))\<lparr>uart_port := ser_write x (- 1) d ?p\<rparr>\<rparr>"
  have p: "uart_port (uart (sync s)) = ?p" using sync_uart [of s] by (simp add: uart_port_of_def)
  have k: "soc_keep ?s = soc_keep s"
    using sync_keep [of s] by (simp add: soc_keep_def spi_cfg_of_def fun_eq_iff)
  have "st_uart x d s = Some ?s"
    by (simp add: st_uart_def store_word_def reg_write_def uart_write_def p)
  then show "\<exists>s'. st_uart x d s = Some s' \<and> uart_port_of s' = ser_write x (- 1) d ?p
      \<and> uart_evs s' = uart_evs s \<and> now s' = Suc (now s) \<and> soc_keep s' = soc_keep s"
    using k keep_env [OF k] by (intro exI [of _ ?s]) (simp add: uart_port_of_def uart_evs_def fun_eq_iff)
qed

lemma sync_recv_en: "spi_recv_en_r (spi (sync s) i) = spi_recv_en_r (spi s i)"
  using arg_cong [OF sync_keep [of s], of "\<lambda>k. fst (snd (fst (snd (snd k)) i))"]
  by (simp add: soc_keep_def spi_cfg_of_def)

text \<open>The same laws for an SPI controller.\<close>

lemma spi_ld_law:
  assumes "unat idx < 2"
  shows "\<exists>s'. ld_port idx x s = Some (fst (ser_read x (port_run (spi_evs (unat idx) s (now s)) (spi_port_of (unat idx) s))), s')
      \<and> spi_port_of (unat idx) s' = snd (ser_read x (port_run (spi_evs (unat idx) s (now s)) (spi_port_of (unat idx) s)))
      \<and> spi_evs (unat idx) s' = spi_evs (unat idx) s \<and> now s' = Suc (now s) \<and> soc_keep s' = soc_keep s"
proof -
  let ?i = "unat idx"
  let ?p = "port_run (spi_evs ?i s (now s)) (spi_port_of ?i s)"
  let ?s = "(sync s)\<lparr>spi := (spi (sync s))(?i := (spi (sync s) ?i)\<lparr>spi_port := snd (ser_read x ?p)\<rparr>)\<rparr>"
  have p: "spi_port (spi (sync s) ?i) = ?p" using sync_spi [of ?i s] by (simp add: spi_port_of_def)
  have k: "soc_keep ?s = soc_keep s"
    using sync_keep [of s] by (auto simp: soc_keep_def spi_cfg_of_def fun_eq_iff)
  have "spi_recv_en_r (spi ?s ?i) = spi_recv_en_r (spi s ?i)"
    using sync_recv_en [of s ?i] by simp
  moreover have "ld_port idx x s = Some (fst (ser_read x ?p), ?s)"
    using assms by (simp add: ld_port_def ld_spi_def load_word_def spi_addr_eq decode_spi reg_read_def
        spi_read_def p case_prod_unfold Let_def)
  ultimately show ?thesis
    using k keep_env [OF k] by (intro exI [of _ ?s]) (simp add: spi_port_of_def spi_evs_def fun_eq_iff)
qed

lemma spi_st_law:
  assumes "unat idx < 2"
  shows "\<exists>s'. st_port idx x d s = Some s'
      \<and> spi_port_of (unat idx) s' = ser_write x (- 1) d (port_run (spi_evs (unat idx) s (now s)) (spi_port_of (unat idx) s))
      \<and> spi_evs (unat idx) s' = spi_evs (unat idx) s \<and> now s' = Suc (now s) \<and> soc_keep s' = soc_keep s"
proof -
  let ?i = "unat idx"
  let ?p = "port_run (spi_evs ?i s (now s)) (spi_port_of ?i s)"
  let ?s = "(sync s)\<lparr>spi := (spi (sync s))(?i := (spi (sync s) ?i)\<lparr>spi_port := ser_write x (- 1) d ?p\<rparr>)\<rparr>"
  have p: "spi_port (spi (sync s) ?i) = ?p" using sync_spi [of ?i s] by (simp add: spi_port_of_def)
  have k: "soc_keep ?s = soc_keep s"
    using sync_keep [of s] by (auto simp: soc_keep_def spi_cfg_of_def fun_eq_iff)
  have "spi_recv_en_r (spi ?s ?i) = spi_recv_en_r (spi s ?i)"
    using sync_recv_en [of s ?i] by simp
  moreover have "st_port idx x d s = Some ?s"
    using assms by (simp add: st_port_def st_spi_def store_word_def spi_addr_eq decode_spi reg_write_def
        spi_write_def p)
  ultimately show ?thesis
    using k keep_env [OF k] by (intro exI [of _ ?s]) (simp add: spi_port_of_def spi_evs_def fun_eq_iff)
qed

interpretation spi0_if: serial_port "ld_port 0" "st_port 0" "spi_port_of 0" "spi_evs 0" now soc_keep
  using spi_ld_law [of 0] spi_st_law [of 0] by unfold_locales simp_all

interpretation spi1_if: serial_port "ld_port 1" "st_port 1" "spi_port_of 1" "spi_evs 1" now soc_keep
  using spi_ld_law [of 1] spi_st_law [of 1] by unfold_locales simp_all

end
