(* ===== verification/Uv_Sys_Correct.thy ===== *)
theory Uv_Sys_Correct
  imports Port_Interface
begin

text \<open>
  Correctness of the driver library \<open>uv_sys.c\<close> against the register models: the transfers move
  exactly the caller's data and return whenever the peer keeps working, the timer functions read
  and write the 64-bit counter through its two 32-bit halves, and the configuration functions set
  the fields the hardware reads.
\<close>

section \<open>Timer\<close>

definition tmr_ticks :: "hw_event list \<Rightarrow> nat" where
  "tmr_ticks es = length (filter (\<lambda>e. case e of Aon_clk _ \<Rightarrow> True | _ \<Rightarrow> False) es)"

text \<open>The configuration of the timer, and the rest of the controller the timer functions keep.\<close>

definition tmr_conf :: "soc \<Rightarrow> bool \<times> bool \<times> u16 \<times> u64" where
  "tmr_conf s = (tmr_cnt_r (slc s), tmr_auto_clr_r (slc s), tmr_clk_div_r (slc s), tmr_cmp_r (slc s))"

lemma hw_step_conf: "tmr_conf (hw_step e s) = tmr_conf s"
  by (cases e) (auto simp: tmr_conf_def hw_step_def tmr_edge_def Let_def)

lemma hw_run_conf: "tmr_conf (fold hw_step es s) = tmr_conf s"
  by (induction es arbitrary: s) (simp_all add: hw_step_conf)

lemma sync_conf [simp]: "tmr_conf (sync s) = tmr_conf s"
  using hw_run_conf [of "env s (now s)" s] by (simp add: sync_def tmr_conf_def)

lemma sync_conf_fields [simp]:
  "tmr_cnt_r (slc (sync s)) = tmr_cnt_r (slc s)"
  "tmr_auto_clr_r (slc (sync s)) = tmr_auto_clr_r (slc s)"
  "tmr_clk_div_r (slc (sync s)) = tmr_clk_div_r (slc s)"
  "tmr_cmp_r (slc (sync s)) = tmr_cmp_r (slc s)"
  using sync_conf [of s] unfolding tmr_conf_def by simp_all

lemma sync_env [simp]: "env (sync s) = env s"
  by (rule keep_env) simp

lemma hw_step_val:
  assumes "\<not> tmr_auto_clr_r (slc s)"
  shows "tmr_val_r (slc (hw_step e s)) =
    tmr_val_r (slc s) + (if tmr_cnt_r (slc s) then of_nat (tmr_ticks [e]) else 0)"
  using assms by (cases e) (auto simp: hw_step_def tmr_edge_def tmr_ticks_def Let_def)

lemma hw_run_val:
  assumes "\<not> tmr_auto_clr_r (slc s)"
  shows "tmr_val_r (slc (fold hw_step es s)) =
    tmr_val_r (slc s) + (if tmr_cnt_r (slc s) then of_nat (tmr_ticks es) else 0)"
  using assms
proof (induction es arbitrary: s)
  case (Cons e es)
  have c: "tmr_cnt_r (slc (hw_step e s)) = tmr_cnt_r (slc s)"
    "tmr_auto_clr_r (slc (hw_step e s)) = tmr_auto_clr_r (slc s)"
    using hw_step_conf [of e s] by (simp_all add: tmr_conf_def)
  have "tmr_ticks (e # es) = tmr_ticks [e] + tmr_ticks es"
    by (simp add: tmr_ticks_def)
  with Cons.IH [of "hw_step e s"] Cons.prems hw_step_val [OF Cons.prems, of e] show ?case
    by (simp add: c)
qed (simp add: tmr_ticks_def)

lemma sync_val:
  "\<not> tmr_auto_clr_r (slc s) \<Longrightarrow> tmr_val_r (slc (sync s)) =
    tmr_val_r (slc s) + (if tmr_cnt_r (slc s) then of_nat (tmr_ticks (env s (now s))) else 0)"
  using hw_run_val [of s "env s (now s)"] by (simp add: sync_def)

lemma ld_slc_timer:
  "ld_slc Tmr_cfg s = Some (tmr_cfg_word (slc (sync s)), sync s)"
  "ld_slc Tmr_val s = Some (tmr_lo (tmr_val_r (slc (sync s))), sync s)"
  "ld_slc Tmr_valh s = Some (tmr_hi (tmr_val_r (slc (sync s))), sync s)"
  by (simp_all add: ld_slc_def load_word_def decode_slc slc_type_def reg_read_def slc_read_def)

lemma st_slc_timer:
  "x \<in> {Tmr_cfg, Tmr_val, Tmr_valh, Tmr_cmp, Tmr_cmph} \<Longrightarrow>
    st_slc x d s = Some ((sync s)\<lparr>slc := slc_write x (- 1) d (slc (sync s))\<rparr>)"
  by (auto simp: st_slc_def store_word_def decode_slc slc_type_def reg_write_def)

text \<open>The two halves of a counter that advances by less than $2^{32}$.\<close>

lemma hi_as_div: "unat (tmr_hi v) = unat v div 2 ^ 32"
proof -
  have "unat v < 2 ^ 64" using unsigned_less [of v, where 'a = nat] by simp
  then have "unat v div 2 ^ 32 < 2 ^ 32" by (simp add: less_mult_imp_div_less)
  then show ?thesis
    by (simp add: tmr_hi_def unsigned_ucast_eq unat_drop_bit_eq drop_bit_eq_div
        unat_div_distrib take_bit_nat_eq_self)
qed

lemma lo_as_mod: "unat (tmr_lo v) = unat v mod 2 ^ 32"
  by (simp add: tmr_lo_def unsigned_ucast_eq take_bit_eq_mod)

lemma halves: "unat v = unat (tmr_hi v) * 2 ^ 32 + unat (tmr_lo v)"
  by (simp add: hi_as_div lo_as_mod)

lemma half_bounds: "unat (tmr_hi v) < 2 ^ 32" "unat (tmr_lo v) < 2 ^ 32"
  using unsigned_less [of "tmr_hi v", where 'a = nat] unsigned_less [of "tmr_lo v", where 'a = nat]
  by simp_all

lemma half_add:
  assumes "d < 2 ^ 32"
  shows "unat (tmr_lo v) + d < 2 ^ 32 \<Longrightarrow>
      unat (tmr_hi (v + of_nat d)) = unat (tmr_hi v) \<and> unat (tmr_lo (v + of_nat d)) = unat (tmr_lo v) + d"
    and "2 ^ 32 \<le> unat (tmr_lo v) + d \<Longrightarrow>
      unat (tmr_hi (v + of_nat d)) = (unat (tmr_hi v) + 1) mod 2 ^ 32
      \<and> unat (tmr_lo (v + of_nat d)) = unat (tmr_lo v) + d - 2 ^ 32"
proof -
  let ?q = "unat (tmr_hi v)" and ?r = "unat (tmr_lo v)"
  have d: "unat (of_nat d :: u64) = d"
    using assms by (simp add: unat_of_nat take_bit_nat_eq_self)
  have sum: "unat (v + of_nat d) = (?q * 2 ^ 32 + (?r + d)) mod (2 ^ 32 * 2 ^ 32)"
    using halves [of v] by (simp add: unat_word_ariths d add.assoc)
  {
    assume "?r + d < 2 ^ 32"
    then have "?q * 2 ^ 32 + (?r + d) < 2 ^ 32 * 2 ^ 32" using half_bounds(1) [of v] by simp
    then have "unat (v + of_nat d) = ?q * 2 ^ 32 + (?r + d)" by (simp add: sum)
    then show "unat (tmr_hi (v + of_nat d)) = ?q \<and> unat (tmr_lo (v + of_nat d)) = ?r + d"
      using \<open>?r + d < 2 ^ 32\<close> by (simp add: hi_as_div [of "v + of_nat d"] lo_as_mod [of "v + of_nat d"])
  next
    assume *: "2 ^ 32 \<le> ?r + d"
    define e where "e = ?r + d - 2 ^ 32"
    have e: "e < 2 ^ 32" "?r + d = 2 ^ 32 + e"
      using * assms half_bounds(2) [of v] by (auto simp: e_def)
    have "unat (v + of_nat d) = ((?q + 1) * 2 ^ 32 + e) mod (2 ^ 32 * 2 ^ 32)"
      unfolding sum e(2) by (simp add: algebra_simps)
    also have "\<dots> = ((?q + 1) mod 2 ^ 32) * 2 ^ 32 + e"
    proof (cases "?q + 1 < 2 ^ 32")
      case True
      then have "(?q + 1) * 2 ^ 32 + e < 2 ^ 32 * 2 ^ 32" using e(1) by simp
      with True show ?thesis by simp
    next
      case False
      then have "?q + 1 = 2 ^ 32" using half_bounds(1) [of v] by simp
      then show ?thesis using e(1) by simp
    qed
    finally show "unat (tmr_hi (v + of_nat d)) = (?q + 1) mod 2 ^ 32
        \<and> unat (tmr_lo (v + of_nat d)) = ?r + d - 2 ^ 32"
      using e(1) by (simp add: hi_as_div [of "v + of_nat d"] lo_as_mod [of "v + of_nat d"] e(2))
  }
qed

lemma hi_add:
  assumes "d < 2 ^ 32"
  shows "tmr_hi (v + of_nat d) = tmr_hi v \<longleftrightarrow> unat (tmr_lo v) + d < 2 ^ 32"
proof (cases "unat (tmr_lo v) + d < 2 ^ 32")
  case True
  with half_add(1) [OF assms True] show ?thesis by (simp add: word_unat_eq_iff)
next
  case False
  have "(unat (tmr_hi v) + 1) mod 2 ^ 32 \<noteq> unat (tmr_hi v)"
  proof (cases "unat (tmr_hi v) + 1 < 2 ^ 32")
    case False
    then have "unat (tmr_hi v) = 2 ^ 32 - 1" using half_bounds(1) [of v] by simp
    then show ?thesis by simp
  qed simp
  with half_add(2) [OF assms] False show ?thesis by (auto simp: word_unat_eq_iff not_less)
qed

lemma lo_add:
  assumes "d < 2 ^ 32" and "2 ^ 32 \<le> unat (tmr_lo v) + d"
  shows "unat (tmr_lo (v + of_nat d)) = unat (tmr_lo v) + d - 2 ^ 32"
  using half_add(2) [OF assms] by blast

text \<open>The timer of a running machine, access by access.\<close>

definition ticks_at :: "soc \<Rightarrow> nat" where
  "ticks_at s = (if tmr_cnt_r (slc s) then tmr_ticks (env s (now s)) else 0)"

lemma sync_val_ticks:
  "\<not> tmr_auto_clr_r (slc s) \<Longrightarrow> tmr_val_r (slc (sync s)) = tmr_val_r (slc s) + of_nat (ticks_at s)"
  by (simp add: sync_val ticks_at_def)

lemma sync_no_clr: "\<not> tmr_auto_clr_r (slc s) \<Longrightarrow> \<not> tmr_auto_clr_r (slc (sync s))"
  using sync_conf [of s] by (simp add: tmr_conf_def)

lemma tmr_read_loop_step:
  "tmr_read_loop s = (if tmr_hi (tmr_val_r (slc (sync s))) = tmr_hi (tmr_val_r (slc (sync (sync (sync s)))))
     then Some ((tmr_hi (tmr_val_r (slc (sync s))), tmr_lo (tmr_val_r (slc (sync (sync s))))),
            sync (sync (sync s)))
     else tmr_read_loop (sync (sync (sync s))))"
  by (simp add: tmr_read_loop.simps [of s] ld_slc_timer)

text \<open>One round: either the halves belong to the counter value of the middle access, or the lower
  half has just wrapped.\<close>

lemma tmr_round:
  assumes "\<not> tmr_auto_clr_r (slc s)" and "ticks_at (sync s) + ticks_at (sync (sync s)) < 2 ^ 32"
  defines "s1 \<equiv> sync s" and "s2 \<equiv> sync (sync s)" and "s3 \<equiv> sync (sync (sync s))"
  shows "tmr_hi (tmr_val_r (slc s1)) = tmr_hi (tmr_val_r (slc s3)) \<Longrightarrow>
      tmr_hi (tmr_val_r (slc s1)) = tmr_hi (tmr_val_r (slc s2))"
    and "tmr_hi (tmr_val_r (slc s1)) \<noteq> tmr_hi (tmr_val_r (slc s3)) \<Longrightarrow>
      unat (tmr_lo (tmr_val_r (slc s3))) < ticks_at s1 + ticks_at s2"
proof -
  let ?v = "tmr_val_r (slc s1)" and ?d = "ticks_at s1" and ?e = "ticks_at s2"
  have v2: "tmr_val_r (slc s2) = ?v + of_nat ?d"
    using sync_val_ticks [OF sync_no_clr [OF assms(1)]] by (simp add: s1_def s2_def)
  have v3: "tmr_val_r (slc s3) = ?v + of_nat (?d + ?e)"
    using sync_val_ticks [OF sync_no_clr [OF sync_no_clr [OF assms(1)]]] v2
    by (simp add: s1_def s2_def s3_def)
  have de: "?d + ?e < 2 ^ 32" using assms(2) by (simp add: s1_def s2_def)
  then have d: "?d < 2 ^ 32" by linarith
  {
    assume "tmr_hi ?v = tmr_hi (tmr_val_r (slc s3))"
    then have "unat (tmr_lo ?v) + (?d + ?e) < 2 ^ 32" using hi_add [OF de, of ?v] v3 by simp
    then show "tmr_hi ?v = tmr_hi (tmr_val_r (slc s2))" using hi_add [OF d, of ?v] v2 by simp
  next
    assume "tmr_hi ?v \<noteq> tmr_hi (tmr_val_r (slc s3))"
    then have "2 ^ 32 \<le> unat (tmr_lo ?v) + (?d + ?e)" using hi_add [OF de, of ?v] v3 by auto
    from lo_add [OF de this] this half_bounds(2) [of ?v] de
    show "unat (tmr_lo (tmr_val_r (slc s3))) < ?d + ?e" unfolding v3 by linarith
  }
qed

lemma tmr_lo_grow:
  assumes "\<not> tmr_auto_clr_r (slc s)" and "unat (tmr_lo (tmr_val_r (slc s))) + ticks_at s < 2 ^ 32"
  shows "unat (tmr_lo (tmr_val_r (slc (sync s)))) = unat (tmr_lo (tmr_val_r (slc s))) + ticks_at s"
proof -
  have "ticks_at s < 2 ^ 32" using assms(2) by linarith
  from half_add(1) [OF this assms(2)] show ?thesis by (simp add: sync_val_ticks [OF assms(1)])
qed

text \<open>At most two rounds: after a wrap the lower half is small.\<close>

lemma tmr_read_loop_exact:
  assumes clr: "\<not> tmr_auto_clr_r (slc s)" and few: "\<And>t. tmr_ticks (env s t) \<le> 2 ^ 29"
  shows "\<exists>k \<in> {2, 5}. tmr_read_loop s =
    Some ((tmr_hi (tmr_val_r (slc ((sync ^^ k) s))), tmr_lo (tmr_val_r (slc ((sync ^^ k) s)))), (sync ^^ Suc k) s)"
proof -
  define st where "st k = (sync ^^ k) s" for k
  have st_Suc: "sync (st k) = st (Suc k)" for k by (simp add: st_def)
  have st0: "st 0 = s" by (simp add: st_def)
  have envst: "env (st k) = env s" for k
    by (induction k) (simp_all add: st_def)
  have c: "\<not> tmr_auto_clr_r (slc (st k))" for k
    by (induction k) (simp_all add: st0 clr sync_no_clr st_Suc [symmetric])
  have t: "ticks_at (st k) \<le> 2 ^ 29" for k
    using few by (simp add: ticks_at_def envst)
  let ?v = "\<lambda>k. tmr_val_r (slc (st k))"
  have ss: "sync (st 0) = st 1" "sync (st 1) = st 2" "sync (st 2) = st 3" "sync (st 3) = st 4"
      "sync (st 4) = st 5" "sync (st 5) = st 6"
    by (simp_all add: st_Suc numeral_2_eq_2 [symmetric])
  have step0: "tmr_read_loop (st 0) = (if tmr_hi (?v 1) = tmr_hi (?v 3)
      then Some ((tmr_hi (?v 1), tmr_lo (?v 2)), st 3) else tmr_read_loop (st 3))"
    using tmr_read_loop_step [of "st 0"] unfolding ss .
  have step3: "tmr_read_loop (st 3) = (if tmr_hi (?v 4) = tmr_hi (?v 6)
      then Some ((tmr_hi (?v 4), tmr_lo (?v 5)), st 6) else tmr_read_loop (st 6))"
    using tmr_read_loop_step [of "st 3"] unfolding ss .
  have two: "ticks_at (st j) + ticks_at (st k) < 2 ^ 32" for j k
    using t [of j] t [of k] by simp
  note round0 = tmr_round [OF c [of 0], unfolded ss, OF two]
  note round3 = tmr_round [OF c [of 3], unfolded ss, OF two]
  show ?thesis
  proof (cases "tmr_hi (?v 1) = tmr_hi (?v 3)")
    case True
    then have "tmr_read_loop s = Some ((tmr_hi (?v 2), tmr_lo (?v 2)), st (Suc 2))"
      using round0(1) step0 by (simp add: st0)
    then show ?thesis unfolding st_def by blast
  next
    case False
    then have "unat (tmr_lo (?v 3)) < ticks_at (st 1) + ticks_at (st 2)"
      using round0(2) by blast
    then have lo3: "unat (tmr_lo (?v 3)) < 2 ^ 30" using t [of 1] t [of 2] by simp
    then have "unat (tmr_lo (?v 4)) = unat (tmr_lo (?v 3)) + ticks_at (st 3)"
      using tmr_lo_grow [OF c [of 3]] t [of 3] by (simp add: ss)
    then have lo4: "unat (tmr_lo (?v 4)) + (ticks_at (st 4) + ticks_at (st 5)) < 2 ^ 32"
      using lo3 t [of 3] t [of 4] t [of 5] by simp
    have v6: "?v 6 = ?v 4 + of_nat (ticks_at (st 4) + ticks_at (st 5))"
      using sync_val_ticks [OF c [of 4]] sync_val_ticks [OF c [of 5]] by (simp add: ss)
    have "tmr_hi (?v 4) = tmr_hi (?v 6)"
      using hi_add [OF two [of 4 5], of "?v 4"] lo4 unfolding v6 by simp
    then have "tmr_read_loop s = Some ((tmr_hi (?v 5), tmr_lo (?v 5)), st (Suc 5))"
      using False round3(1) step0 step3 by (simp add: st0)
    then show ?thesis unfolding st_def by blast
  qed
qed

text \<open>Setting the counter.\<close>

lemma tmr_cfg_bits:
  "bit (tmr_cfg_word r) 0 = tmr_cnt_r r" "bit (tmr_cfg_word r) 1 = tmr_auto_clr_r r"
  by (simp_all add: tmr_cfg_word_def bit_or_iff bit_push_bit_iff)

lemma tmr_cfg_div: "ucast (drop_bit 16 (tmr_cfg_word r)) = tmr_clk_div_r r"
proof (rule bit_word_eqI)
  fix n assume "n < LENGTH(16)"
  then show "bit (ucast (drop_bit 16 (tmr_cfg_word r)) :: u16) n = bit (tmr_clk_div_r r) n"
    by (auto simp: tmr_cfg_word_def bit_or_iff bit_push_bit_iff bit_ucast_iff bit_drop_bit_eq
        bit_1_iff bit_2_iff)
qed

lemma tmr_cfg_write:
  "slc_write Tmr_cfg (- 1) d r = r\<lparr>tmr_cnt_r := bit d 0, tmr_auto_clr_r := bit d 1,
     tmr_clk_div_r := ucast (drop_bit 16 d)\<rparr>"
  by (simp add: slc_write_def)

lemma cnt_mask:
  "bit (w OR SLC_TMR_CNT_EN_MASK) 0" "bit (w OR SLC_TMR_CNT_EN_MASK) 1 = bit w 1"
  "\<not> bit (w AND NOT SLC_TMR_CNT_EN_MASK) 0" "bit (w AND NOT SLC_TMR_CNT_EN_MASK) 1 = bit w 1"
  "(w AND SLC_TMR_CNT_EN_MASK \<noteq> 0) = bit w 0"
  by (simp_all add: SLC_TMR_CNT_EN_MASK_def bit_or_iff bit_and_iff bit_not_iff bit_1_iff and_one_cases)

lemma cnt_mask_div:
  "drop_bit 16 (w OR SLC_TMR_CNT_EN_MASK) = drop_bit 16 w"
  "drop_bit 16 (w AND NOT SLC_TMR_CNT_EN_MASK) = drop_bit 16 w"
proof -
  show "drop_bit 16 (w OR SLC_TMR_CNT_EN_MASK) = drop_bit 16 w"
    by (rule bit_word_eqI) (simp add: SLC_TMR_CNT_EN_MASK_def bit_or_iff bit_1_iff bit_drop_bit_eq)
  show "drop_bit 16 (w AND NOT SLC_TMR_CNT_EN_MASK) = drop_bit 16 w"
    by (rule bit_word_eqI) (simp only: SLC_TMR_CNT_EN_MASK_def bit_and_iff bit_not_iff bit_1_iff
        bit_drop_bit_eq comp_def, auto dest: bit_imp_possible_bit)
qed

lemma conf_fields:
  "tmr_conf s = (a, b, c, d) \<longleftrightarrow> tmr_cnt_r (slc s) = a \<and> tmr_auto_clr_r (slc s) = b
     \<and> tmr_clk_div_r (slc s) = c \<and> tmr_cmp_r (slc s) = d"
  by (auto simp: tmr_conf_def)

definition timer_val :: "soc \<Rightarrow> u64" where
  "timer_val s = tmr_val_r (slc s)"

lemma frozen: "tmr_conf s = (False, False, c, d) \<Longrightarrow> timer_val (sync s) = timer_val s"
  by (simp add: timer_val_def sync_val conf_fields)

lemma uv_tmr_stop_spec:
  "tmr_conf s = (a, b, c, d) \<Longrightarrow> \<exists>s'. uv_tmr_stop s = Some s' \<and> tmr_conf s' = (False, b, c, d)"
  by (simp add: uv_tmr_stop_def ld_slc_timer st_slc_timer tmr_cfg_write cnt_mask cnt_mask_div
      tmr_cfg_bits tmr_cfg_div conf_fields del: One_nat_def drop_bit_and drop_bit_or)

lemma uv_tmr_start_spec:
  assumes "tmr_conf s = (False, False, c, d)"
  shows "\<exists>s'. uv_tmr_start s = Some s' \<and> tmr_conf s' = (True, False, c, d) \<and> timer_val s' = timer_val s"
  using assms frozen [OF assms] frozen [of "sync s" c d]
  by (simp add: uv_tmr_start_def ld_slc_timer st_slc_timer tmr_cfg_write cnt_mask cnt_mask_div
      tmr_cfg_bits tmr_cfg_div conf_fields timer_val_def
      del: One_nat_def drop_bit_and drop_bit_or)

lemma low_word: "ucast (v AND 0xFFFFFFFF) = tmr_lo v" for v :: u64
proof (rule bit_word_eqI)
  fix n assume "n < LENGTH(32)"
  moreover have m: "(0xFFFFFFFF :: u64) = mask 32" by (simp add: mask_eq_exp_minus_1)
  ultimately show "bit (ucast (v AND 0xFFFFFFFF) :: u32) n = bit (tmr_lo v) n"
    unfolding tmr_lo_def m by (simp only: bit_ucast_iff bit_and_iff bit_mask_iff) auto
qed

lemma set_halves_spec:
  assumes "tmr_conf s = (False, False, c, d)"
  shows "\<exists>s'. Option.bind (st_slc Tmr_val (ucast (val AND 0xFFFFFFFF)) s)
        (st_slc Tmr_valh (ucast (drop_bit 32 val))) = Some s'
    \<and> tmr_conf s' = (False, False, c, d) \<and> timer_val s' = val"
proof -
  let ?s1 = "(sync s)\<lparr>slc := slc_write Tmr_val (- 1) (tmr_lo val) (slc (sync s))\<rparr>"
  let ?s2 = "(sync ?s1)\<lparr>slc := slc_write Tmr_valh (- 1) (tmr_hi val) (slc (sync ?s1))\<rparr>"
  have 1: "tmr_conf ?s1 = (False, False, c, d)" "tmr_lo (timer_val ?s1) = tmr_lo val"
    using assms by (simp_all add: conf_fields slc_write_def timer_val_def)
  have "tmr_conf ?s2 = (False, False, c, d)" "timer_val ?s2 = val"
    using 1 frozen [OF 1(1)] by (simp_all add: conf_fields slc_write_def timer_val_def)
  moreover have "ucast (drop_bit 32 val) = tmr_hi val" by (simp add: tmr_hi_def)
  ultimately show ?thesis
    by (simp add: st_slc_timer low_word)
qed

text \<open>The word \<open>uv_tmr_init\<close> writes.\<close>

definition tmr_init_word :: "bool \<Rightarrow> u32 \<Rightarrow> u32 \<Rightarrow> u32" where
  "tmr_init_word auto_clr dv cfg =
     ((if auto_clr then cfg OR SLC_TMR_CLR_EN_MASK else cfg AND NOT SLC_TMR_CLR_EN_MASK)
        AND NOT SLC_TMR_CLK_DIV_MASK) OR (push_bit 16 dv AND SLC_TMR_CLK_DIV_MASK)"

lemma div_mask: "SLC_TMR_CLK_DIV_MASK = NOT (mask 16)"
  by (simp add: SLC_TMR_CLK_DIV_MASK_def mask_eq_exp_minus_1)

lemma bit_clr_mask: "bit SLC_TMR_CLR_EN_MASK n = (n = 1)"
  unfolding SLC_TMR_CLR_EN_MASK_def bit_2_iff by auto

lemma tmr_init_bits:
  "bit (tmr_init_word a d cfg) 0 = bit cfg 0" "bit (tmr_init_word a d cfg) 1 = a"
  "ucast (drop_bit 16 (tmr_init_word a d cfg)) = (ucast d :: u16)"
proof -
  show "bit (tmr_init_word a d cfg) 0 = bit cfg 0" "bit (tmr_init_word a d cfg) 1 = a"
    unfolding tmr_init_word_def div_mask
    by (simp_all only: bit_or_iff bit_and_iff bit_not_iff bit_mask_iff bit_push_bit_iff if_distrib [of "\<lambda>w. bit w _"]
        bit_clr_mask) auto
  show "ucast (drop_bit 16 (tmr_init_word a d cfg)) = (ucast d :: u16)"
  proof (rule bit_word_eqI)
    fix n assume "n < LENGTH(16)"
    then show "bit (ucast (drop_bit 16 (tmr_init_word a d cfg)) :: u16) n = bit (ucast d :: u16) n"
      unfolding tmr_init_word_def div_mask
      by (simp only: bit_ucast_iff bit_drop_bit_eq comp_def bit_or_iff bit_and_iff bit_not_iff bit_mask_iff
          bit_push_bit_iff if_distrib [of "\<lambda>w. bit w _"] bit_clr_mask) auto
  qed
qed

section \<open>Baud rate\<close>

text \<open>The divider is the quotient rounded to the nearest integer.\<close>

lemma uart_clk_div_nearest:
  assumes "baud \<noteq> 0"
  shows "2 * \<bar>int (unat (uart_clk_div baud)) * int (unat baud) - 100000000\<bar> \<le> int (unat baud)"
proof -
  let ?c = "100000000 :: nat" and ?b = "unat baud"
  have b: "?b \<noteq> 0" using assms by (simp add: unat_eq_zero)
  have q: "unat (MAIN_CLK_FREQ div baud) = ?c div ?b" "unat (MAIN_CLK_FREQ mod baud) = ?c mod ?b"
    by (simp_all add: MAIN_CLK_FREQ_def unat_div_distrib unat_mod_distrib)
  have h: "unat (drop_bit 1 baud) = ?b div 2"
    by (simp add: unat_drop_bit_eq drop_bit_eq_div unat_div_distrib)
  have le: "?c div ?b < 2 ^ 32 - 1" by (rule le_less_trans [OF div_le_dividend]) simp
  then have s: "unat (MAIN_CLK_FREQ div baud + 1) = ?c div ?b + 1"
    by (simp add: unat_word_ariths q(1) [symmetric])
  have e: "int ?c = int (?c div ?b) * int ?b + int (?c mod ?b)"
    by (metis div_mult_mod_eq of_nat_add of_nat_mult)
  have r: "int (?c mod ?b) < int ?b"
    using b by (metis mod_less_divisor neq0_conv of_nat_less_iff)
  have h2: "2 * int (?b div 2) \<le> int ?b" "int ?b \<le> 2 * int (?b div 2) + 1"
    by linarith+
  show ?thesis
  proof (cases "MAIN_CLK_FREQ mod baud > drop_bit 1 baud")
    case True
    then have "?c mod ?b > ?b div 2" using q h by (simp add: word_less_nat_alt)
    moreover have "unat (uart_clk_div baud) = ?c div ?b + 1"
      using True s by (simp add: uart_clk_div_def Let_def)
    ultimately show ?thesis
      using e r h2 by (simp add: algebra_simps)
  next
    case False
    then have "?c mod ?b \<le> ?b div 2" using q h by (simp add: word_less_nat_alt not_less)
    then show ?thesis
      using False e r h2 by (simp add: uart_clk_div_def Let_def q algebra_simps)
  qed
qed

lemma div_field: "push_bit 16 x AND UART_CLK_DIV_MASK = push_bit 16 x"
proof (rule bit_word_eqI)
  fix n assume "n < LENGTH(32)"
  have m: "UART_CLK_DIV_MASK = NOT (mask 16)" by (simp add: UART_CLK_DIV_MASK_def mask_eq_exp_minus_1)
  show "bit (push_bit 16 x AND UART_CLK_DIV_MASK) n = bit (push_bit 16 x) n"
    unfolding m by (auto simp: bit_and_iff bit_not_iff bit_mask_iff bit_push_bit_iff dest: bit_imp_possible_bit)
qed

lemma uart_cfg_word_eq:
  "uart_cfg_word tx_en rx_en baud = push_bit 16 (uart_clk_div baud) OR
     (0xC OR (if tx_en then 1 else 0) OR (if rx_en then 2 else 0))"
  by (cases tx_en; cases rx_en)
    (simp_all add: uart_cfg_word_def Let_def div_field [unfolded UART_CLK_DIV_MASK_def] UART_TX_EN_MASK_def UART_RX_EN_MASK_def
      UART_ENDIAN_MASK_def UART_NBITS_MASK_def UART_NSTOP_MASK_def UART_DEFAULT_ENDIAN_def
      UART_DEFAULT_NUM_BITS_def UART_DEFAULT_NUM_STOPS_def or.commute UART_CLK_DIV_MASK_def)

lemma uart_cfg_div: "drop_bit 16 (uart_cfg_word tx_en rx_en baud) = take_bit 16 (uart_clk_div baud)"
proof -
  have "drop_bit 16 (0xC OR (if tx_en then 1 else 0) OR (if rx_en then 2 else 0) :: u32) = 0"
    by (cases tx_en; cases rx_en) simp_all
  moreover have "drop_bit 16 (push_bit 16 x) = take_bit 16 x" for x :: u32
    by (rule bit_word_eqI) (auto simp: bit_drop_bit_eq bit_push_bit_iff bit_take_bit_iff)
  ultimately show ?thesis by (simp only: uart_cfg_word_eq drop_bit_or) simp
qed

lemma uart_cfg_low:
  "take_bit 16 (uart_cfg_word tx_en rx_en baud) = 0xC OR (if tx_en then 1 else 0) OR (if rx_en then 2 else 0)"
proof -
  have "take_bit 16 (push_bit 16 x) = 0" for x :: u32
    by (rule bit_word_eqI) (auto simp: bit_take_bit_iff bit_push_bit_iff)
  moreover have "take_bit 16 (0xC OR (if tx_en then 1 else 0) OR (if rx_en then 2 else 0) :: u32) =
      0xC OR (if tx_en then 1 else 0) OR (if rx_en then 2 else 0)"
    by (cases tx_en; cases rx_en) simp_all
  ultimately show ?thesis by (simp only: uart_cfg_word_eq take_bit_or) simp
qed

lemma uart_clk_div_fits:
  assumes "1526 \<le> unat baud"
  shows "take_bit 16 (uart_clk_div baud) = uart_clk_div baud"
proof -
  have "100000000 div unat baud \<le> 100000000 div 1526"
    using assms by (intro div_le_mono2) simp_all
  then have q: "unat (MAIN_CLK_FREQ div baud) < 65535"
    by (simp add: MAIN_CLK_FREQ_def unat_div_distrib)
  then have "unat (MAIN_CLK_FREQ div baud + 1) = unat (MAIN_CLK_FREQ div baud) + 1"
    by (simp add: unat_word_ariths)
  with q have "unat (uart_clk_div baud) < 2 ^ 16"
    by (simp add: uart_clk_div_def Let_def)
  then show ?thesis
    by (simp add: word_unat_eq_iff unsigned_take_bit_eq take_bit_nat_eq_self)
qed

lemma two_ids: "unat (idx :: u32) < 2 \<Longrightarrow> idx = 0 \<or> idx = 1"
  by (auto simp: word_unat_eq_iff)

section \<open>Properties\<close>

text \<open>
  C4: Sending returns and delivers, whenever the transmitter keeps taking bytes: the bytes that have
  left on the wire or wait in the queue are afterwards those from before followed by the first
  \<open>len\<close> bytes of the buffer, in order, none lost and none repeated. The configuration of the port
  and of the rest of the machine is unchanged.
\<close>

theorem uv_uart_send_data_delivers:
  assumes "ser_ok (uart_port_of s)" and "\<forall>t. \<exists>t' \<ge> t. Uart_take \<in> set (env s t')"
    and "len \<le> length buf"
  shows "\<exists>s'. uv_uart_send_data buf len s = Some s' \<and> ser_ok (uart_port_of s')
    \<and> ser_sent (uart_port_of s') = ser_sent (uart_port_of s) @ take len buf
    \<and> port_cfg (uart_port_of s') = port_cfg (uart_port_of s) \<and> soc_keep s' = soc_keep s"
proof -
  have "\<forall>t. \<exists>t' \<ge> t. P_take \<in> set (uart_evs s t')"
    using assms(2) by (force simp: uart_evs_def)
  from uart_if.send_loop_total [OF assms(1) this, of "take len buf"] assms(3) show ?thesis
    by (auto simp: uv_uart_send_data_def send_buffer_def ucast_ucast_up)
qed

theorem uv_uart_send_data_delivers_witness:
  "\<exists>s'. uv_uart_send_data [104, 105, 10] 2 (soc_reset (\<lambda>_. [Uart_take])) = Some s'
    \<and> ser_sent (uart_port_of s') = [104, 105]"
  using uv_uart_send_data_delivers [of "soc_reset (\<lambda>_. [Uart_take])" 2 "[104, 105, 10]"]
  by (auto simp: soc_reset_def uart_port_of_def serial_reset_ok serial_reset_empty)

text \<open>
  C31: Receiving returns whenever bytes keep arriving, and fills the first \<open>len\<close> cells of the buffer
  with the next \<open>len\<close> bytes the receiver accepted, in order; the rest of the buffer is unchanged.
\<close>

theorem uv_uart_recv_data_delivers:
  assumes "ser_ok (uart_port_of s)" and "\<forall>t. \<exists>t' \<ge> t. \<exists>b. Uart_recv b \<in> set (env s t')"
    and "len \<le> length buf" and "p_rx_log (uart_port_of s) = pre @ q_items (p_rxq (uart_port_of s))"
  shows "\<exists>vs s'. uv_uart_recv_data buf len s = Some (vs @ drop len buf, s') \<and> length vs = len
    \<and> p_rx_log (uart_port_of s') = pre @ vs @ q_items (p_rxq (uart_port_of s'))
    \<and> ser_sent (uart_port_of s') = ser_sent (uart_port_of s) \<and> soc_keep s' = soc_keep s"
proof -
  have "\<forall>t. \<exists>t' \<ge> t. \<exists>x. P_recv x \<in> set (uart_evs s t')"
    using assms(2) by (force simp: uart_evs_def)
  from uart_if.recv_loop_total [OF assms(1,4) this, of 0 len buf] assms(3) show ?thesis
    by (auto simp: uv_uart_recv_data_def recv_buffer_def ucast_ucast_up)
qed

theorem uv_uart_recv_data_delivers_witness:
  "\<exists>vs s'. uv_uart_recv_data [0, 0, 7] 2 (soc_reset (\<lambda>_. [Uart_recv 65])) = Some (vs @ [7], s')
    \<and> length vs = 2"
  using uv_uart_recv_data_delivers [of "soc_reset (\<lambda>_. [Uart_recv 65])" 2 "[0, 0, 7]" "[]"]
  by (auto simp: soc_reset_def uart_port_of_def serial_reset_ok serial_reset_empty)

text \<open>
  C32: The same for the SPI controllers, for buffers of any element width: the units are
  zero-extended to 32 bits on the way to the queue, in order.
\<close>

theorem uv_spi_send_delivers:
  assumes "unat idx < 2" and "ser_ok (spi_port_of (unat idx) s)"
    and "\<forall>t. \<exists>t' \<ge> t. Spi_take (unat idx) \<in> set (env s t')" and "len \<le> length bs"
    and "len' \<le> length hs" and "len'' \<le> length ws"
  shows "(\<exists>s'. uv_spi_send_bytes idx bs len s = Some s'
        \<and> ser_sent (spi_port_of (unat idx) s') = ser_sent (spi_port_of (unat idx) s) @ map ucast (take len bs)
        \<and> soc_keep s' = soc_keep s)
    \<and> (\<exists>s'. uv_spi_send_halfs idx hs len' s = Some s'
        \<and> ser_sent (spi_port_of (unat idx) s') = ser_sent (spi_port_of (unat idx) s) @ map ucast (take len' hs)
        \<and> soc_keep s' = soc_keep s)
    \<and> (\<exists>s'. uv_spi_send_words idx ws len'' s = Some s'
        \<and> ser_sent (spi_port_of (unat idx) s') = ser_sent (spi_port_of (unat idx) s) @ take len'' ws
        \<and> soc_keep s' = soc_keep s)"
proof -
  have fair: "\<forall>t. \<exists>t' \<ge> t. P_take \<in> set (spi_evs (unat idx) s t')"
    using assms(3) by (force simp: spi_evs_def)
  consider "idx = 0" | "idx = 1" using two_ids [OF assms(1)] by blast
  then show ?thesis
  proof cases
    case 1
    note total = spi0_if.send_loop_total [of s]
    show ?thesis
      using total [of "take len bs"] total [of "take len' hs"] total [of "take len'' ws"] assms(2-) fair
      by (auto simp: 1 uv_spi_send_bytes_def uv_spi_send_halfs_def uv_spi_send_words_def send_buffer_def)
  next
    case 2
    note total = spi1_if.send_loop_total [of s]
    show ?thesis
      using total [of "take len bs"] total [of "take len' hs"] total [of "take len'' ws"] assms(2-) fair
      by (auto simp: 2 uv_spi_send_bytes_def uv_spi_send_halfs_def uv_spi_send_words_def send_buffer_def)
  qed
qed

theorem uv_spi_send_delivers_witness:
  "\<exists>s'. uv_spi_send_bytes 1 [0x9F, 0] 2 (soc_reset (\<lambda>_. [Spi_take 1])) = Some s'
    \<and> ser_sent (spi_port_of 1 s') = [0x9F, 0]"
  using uv_spi_send_delivers [of 1 "soc_reset (\<lambda>_. [Spi_take 1])" 2 "[0x9F, 0]" 0 "[]" 0 "[]"]
  by (auto simp: soc_reset_def spi_port_of_def serial_reset_ok serial_reset_empty)

text \<open>
  SPI reception fills the buffer with the low bits of the next units the controller queued, in
  order, and returns whenever reception is enabled and units keep arriving.
\<close>

theorem uv_spi_recv_bytes_delivers:
  assumes "unat idx < 2" and "ser_ok (spi_port_of (unat idx) s)" and "spi_recv_en_r (spi s (unat idx))"
    and "\<forall>t. \<exists>t' \<ge> t. \<exists>w. Spi_recv (unat idx) w \<in> set (env s t')" and "len \<le> length buf"
    and "p_rx_log (spi_port_of (unat idx) s) = pre @ q_items (p_rxq (spi_port_of (unat idx) s))"
  shows "\<exists>vs s'. uv_spi_recv_bytes idx buf len s = Some (map ucast vs @ drop len buf, s')
    \<and> length vs = len
    \<and> p_rx_log (spi_port_of (unat idx) s') = pre @ vs @ q_items (p_rxq (spi_port_of (unat idx) s'))
    \<and> soc_keep s' = soc_keep s"
proof -
  have fair: "\<forall>t. \<exists>t' \<ge> t. \<exists>x. P_recv x \<in> set (spi_evs (unat idx) s t')"
    using assms(3,4) by (force simp: spi_evs_def)
  consider "idx = 0" | "idx = 1" using two_ids [OF assms(1)] by blast
  then show ?thesis
  proof cases
    case 1
    from spi0_if.recv_loop_total [of s pre 0 len buf] assms(2,5,6) fair show ?thesis
      by (auto simp: 1 uv_spi_recv_bytes_def recv_buffer_def)
  next
    case 2
    from spi1_if.recv_loop_total [of s pre 0 len buf] assms(2,5,6) fair show ?thesis
      by (auto simp: 2 uv_spi_recv_bytes_def recv_buffer_def)
  qed
qed

theorem uv_spi_recv_bytes_delivers_witness:
  "\<exists>vs s'. uv_spi_recv_bytes 0 [1, 2] 2
      ((soc_reset (\<lambda>_. [Spi_recv 0 0x1FF]))\<lparr>spi := (\<lambda>_. (spi (soc_reset (\<lambda>_. [])) 0)\<lparr>spi_recv_en_r := True\<rparr>)\<rparr>)
      = Some (map ucast (vs :: u32 list), s') \<and> length vs = 2"
  using uv_spi_recv_bytes_delivers [of 0
      "(soc_reset (\<lambda>_. [Spi_recv 0 0x1FF]))\<lparr>spi := (\<lambda>_. (spi (soc_reset (\<lambda>_. [])) 0)\<lparr>spi_recv_en_r := True\<rparr>)\<rparr>"
      2 "[1, 2]" "[]"]
  by (auto simp: soc_reset_def spi_port_of_def serial_reset_ok serial_reset_empty)

text \<open>
  C14: Reading the running 64-bit counter through its two halves returns, after at most two rounds,
  a value the counter really had during the call, provided it is not cleared automatically and
  advances by at most $2^{29}$ between two accesses.
\<close>

theorem uv_tmr_get_val_exact:
  assumes "\<not> tmr_auto_clr_r (slc s)" and "\<And>t. tmr_ticks (env s t) \<le> 2 ^ 29"
  shows "\<exists>k \<in> {2, 5}. uv_tmr_get_val s = Some (tmr_val_r (slc ((sync ^^ k) s)), (sync ^^ Suc k) s)"
proof -
  have join: "push_bit 32 (ucast (tmr_hi v)) OR ucast (tmr_lo v) = v" for v
    using tmr_join_hi_lo [of v] unfolding tmr_join_def .
  obtain k where "k \<in> {2, 5}" and "tmr_read_loop s =
      Some ((tmr_hi (tmr_val_r (slc ((sync ^^ k) s))), tmr_lo (tmr_val_r (slc ((sync ^^ k) s)))), (sync ^^ Suc k) s)"
    using tmr_read_loop_exact [OF assms] by blast
  then show ?thesis
    by (intro bexI [of _ k]) (simp_all add: uv_tmr_get_val_def join del: funpow.simps)
qed

theorem uv_tmr_get_val_exact_witness:
  "\<exists>k \<in> {2, 5 :: nat}. uv_tmr_get_val (soc_reset (\<lambda>_. [Aon_clk False, Aon_clk False]))
     = Some (tmr_val_r (slc ((sync ^^ k) (soc_reset (\<lambda>_. [Aon_clk False, Aon_clk False])))),
         (sync ^^ Suc k) (soc_reset (\<lambda>_. [Aon_clk False, Aon_clk False])))"
  by (rule uv_tmr_get_val_exact) (simp_all add: soc_reset_def slc_reset_def tmr_ticks_def)



text \<open>
  Initialising the timer sets the automatic clear, the divider (its low 16 bits) and the 64-bit
  compare value as asked, and does not start or stop the counter.
\<close>

theorem uv_tmr_init_config:
  "\<exists>s'. uv_tmr_init auto_clr dv cmp s = Some s'
    \<and> tmr_conf s' = (tmr_cnt_r (slc s), auto_clr, ucast dv, cmp)"
proof -
  let ?w = "tmr_init_word auto_clr dv (tmr_cfg_word (slc (sync s)))"
  have w: "bit ?w 0 = tmr_cnt_r (slc s)" "bit ?w 1 = auto_clr" "ucast (drop_bit 16 ?w) = (ucast dv :: u16)"
    using tmr_init_bits [of auto_clr dv] tmr_cfg_bits [of "slc (sync s)"] by simp_all
  let ?s1 = "(sync s)"
  let ?s2 = "(sync ?s1)\<lparr>slc := slc_write Tmr_cfg (- 1) ?w (slc (sync ?s1))\<rparr>"
  let ?s3 = "(sync ?s2)\<lparr>slc := slc_write Tmr_cmp (- 1) (tmr_lo cmp) (slc (sync ?s2))\<rparr>"
  let ?s4 = "(sync ?s3)\<lparr>slc := slc_write Tmr_cmph (- 1) (tmr_hi cmp) (slc (sync ?s3))\<rparr>"
  have 2: "tmr_conf ?s2 = (tmr_cnt_r (slc s), auto_clr, ucast dv, tmr_cmp_r (slc s))"
    using w by (simp add: tmr_cfg_write conf_fields del: One_nat_def)
  have 3: "tmr_conf ?s3 = (tmr_cnt_r (slc s), auto_clr, ucast dv, tmr_cmp_r (slc ?s3))"
    "tmr_lo (tmr_cmp_r (slc ?s3)) = tmr_lo cmp"
    using 2 by (simp_all add: slc_write_def [of Tmr_cmp] conf_fields)
  have "tmr_conf ?s4 = (tmr_cnt_r (slc s), auto_clr, ucast dv, cmp)"
    using 3 by (simp add: slc_write_def [of Tmr_cmph] conf_fields)
  moreover have "uv_tmr_init auto_clr dv cmp s = Some ?s4"
    by (simp add: uv_tmr_init_def ld_slc_timer st_slc_timer low_word tmr_hi_def tmr_init_word_def Let_def)
  ultimately show ?thesis by blast
qed

text \<open>
  C33: For every baud rate of at least 1526 the UART is configured with 8 data bits, one stop bit,
  little-endian, no parity, the given enables, and a divider whose product with the baud rate is as
  close to the clock frequency as a whole divider can be.
\<close>

theorem uv_uart_init_config:
  assumes "1526 \<le> unat baud"
  shows "\<exists>s'. uv_uart_init tx_en rx_en baud s = Some s'
    \<and> take_bit 16 (uart_glb_cfg_r (uart s')) = 0xC OR (if tx_en then 1 else 0) OR (if rx_en then 2 else 0)
    \<and> 2 * \<bar>int (unat (drop_bit 16 (uart_glb_cfg_r (uart s')))) * int (unat baud) - 100000000\<bar> \<le> int (unat baud)"
proof -
  have "baud \<noteq> 0" using assms by auto
  moreover from this have "2 * \<bar>int (unat (uart_clk_div baud)) * int (unat baud) - 100000000\<bar> \<le> int (unat baud)"
    by (rule uart_clk_div_nearest)
  ultimately show ?thesis
    by (simp add: uv_uart_init_def store_word_def reg_write_def uart_write_def uart_cfg_low uart_cfg_div
        uart_clk_div_fits [OF assms])
qed

theorem uv_uart_init_config_witness:
  "\<exists>s'. uv_uart_init True True 115200 (soc_reset (\<lambda>_. [])) = Some s'
    \<and> take_bit 16 (uart_glb_cfg_r (uart s')) = 15"
  using uv_uart_init_config [of 115200 True True "soc_reset (\<lambda>_. [])"] by auto

text \<open>The rates the header offers below 1526 do not fit: for 1200 baud the divider is 83333, of which
  the register keeps 17797, so the line runs at 5619 baud.
\<close>

theorem uart_1200_baud_truncated:
  "uart_clk_div 1200 = 83333 \<and> drop_bit 16 (uart_cfg_word tx_en rx_en 1200) = 17797"
proof -
  have "uart_clk_div 1200 = 83333" by (simp add: uart_clk_div_def MAIN_CLK_FREQ_def)
  then show ?thesis by (simp add: uart_cfg_div)
qed

text \<open>Setting the parity changes no register: the new configuration stays in a local variable. All
  the call does is let the hardware move on by one access.
\<close>

theorem uv_uart_set_parity_no_effect:
  "uv_uart_set_parity parity_en parity_type s = Some (sync s)"
  by (simp add: uv_uart_set_parity_def load_word_def reg_read_def uart_read_def)

text \<open>
  The transmit interrupt set-up of the UART and of both SPI controllers: the enable is as asked,
  a threshold the queue cannot hold becomes 0, and the receive side and everything else the software
  has set are untouched.
\<close>

theorem set_tx_irq_config:
  assumes "ser_ok (uart_port_of s)" and "ser_ok (spi_port_of (unat idx) s)" and "unat idx < 2"
  shows "(\<exists>s'. uv_uart_set_tx_irq tx_ie tx_th s = Some s'
      \<and> port_cfg (uart_port_of s') = (tx_ie, p_rx_ie (uart_port_of s),
          (if tx_ie then if tx_th < 8 then ucast tx_th else 0 else p_tx_th (uart_port_of s)),
          p_rx_th (uart_port_of s)) \<and> soc_keep s' = soc_keep s)
    \<and> (\<exists>s'. uv_spi_set_tx_irq idx tx_ie tx_th s = Some s'
      \<and> port_cfg (spi_port_of (unat idx) s') = (tx_ie, p_rx_ie (spi_port_of (unat idx) s),
          (if tx_ie then if tx_th < 8 then ucast tx_th else 0 else p_tx_th (spi_port_of (unat idx) s)),
          p_rx_th (spi_port_of (unat idx) s)) \<and> soc_keep s' = soc_keep s)"
proof -
  have "idx = 0 \<or> idx = 1" by (rule two_ids [OF assms(3)])
  then show ?thesis
    using assms uart_if.set_tx_irq_law [of s tx_ie tx_th] spi0_if.set_tx_irq_law [of s tx_ie tx_th]
      spi1_if.set_tx_irq_law [of s tx_ie tx_th]
    by (auto simp: uv_uart_set_tx_irq_def uv_spi_set_tx_irq_def que_depth_def)
qed

theorem set_tx_irq_config_witness:
  "\<exists>s'. uv_spi_set_tx_irq 1 True 9 (soc_reset (\<lambda>_. [])) = Some s'
    \<and> port_cfg (spi_port_of 1 s') = (True, False, 0, 0)"
  using set_tx_irq_config [of "soc_reset (\<lambda>_. [])" 1 True 9]
  by (auto simp: soc_reset_def spi_port_of_def uart_port_of_def serial_reset_ok)
    (auto simp: serial_reset_def)

text \<open>The receive interrupt set-up: a threshold of 0 or above the capacity becomes the capacity.
\<close>

theorem set_rx_irq_config:
  assumes "ser_ok (uart_port_of s)" and "ser_ok (spi_port_of (unat idx) s)" and "unat idx < 2"
  shows "(\<exists>s'. uv_uart_set_rx_irq rx_ie rx_th s = Some s'
      \<and> port_cfg (uart_port_of s') = (p_tx_ie (uart_port_of s), rx_ie, p_tx_th (uart_port_of s),
          (if rx_ie then if 0 < rx_th \<and> rx_th \<le> 8 then ucast rx_th else 8 else p_rx_th (uart_port_of s)))
      \<and> soc_keep s' = soc_keep s)
    \<and> (\<exists>s'. uv_spi_set_rx_irq idx rx_ie rx_th s = Some s'
      \<and> port_cfg (spi_port_of (unat idx) s') = (p_tx_ie (spi_port_of (unat idx) s), rx_ie,
          p_tx_th (spi_port_of (unat idx) s),
          (if rx_ie then if 0 < rx_th \<and> rx_th \<le> 8 then ucast rx_th else 8
           else p_rx_th (spi_port_of (unat idx) s)))
      \<and> soc_keep s' = soc_keep s)"
proof -
  have "idx = 0 \<or> idx = 1" by (rule two_ids [OF assms(3)])
  then show ?thesis
    using assms uart_if.set_rx_irq_law [of s rx_ie rx_th] spi0_if.set_rx_irq_law [of s rx_ie rx_th]
      spi1_if.set_rx_irq_law [of s rx_ie rx_th]
    by (auto simp: uv_uart_set_rx_irq_def uv_spi_set_rx_irq_def que_depth_def)
qed

theorem set_rx_irq_config_witness:
  "\<exists>s'. uv_uart_set_rx_irq True 0 (soc_reset (\<lambda>_. [])) = Some s'
    \<and> port_cfg (uart_port_of s') = (False, True, 0, 8)"
  using set_rx_irq_config [of "soc_reset (\<lambda>_. [])" 0 True 0]
  by (auto simp: soc_reset_def spi_port_of_def uart_port_of_def serial_reset_ok)
    (auto simp: serial_reset_def)

end
