(* ===== verification/Uv_Irq.thy ===== *)
theory Uv_Irq
  imports Uv_Sys_Correct
begin

text \<open>
  The interrupt header \<open>software/driver/include/uv_irq.h\<close>: the core's enable bits, and the macros
  that reach the interrupt registers of the system-level controller. The index expressions are those
  of the macros (\<open>i/8\<close> bytes, that is word \<open>i/32\<close> once the controller has dropped the two low
  address bits).
\<close>

section \<open>Core-level interrupt control\<close>

record core_csr =
  mstatus :: u32
  mie :: u32

definition MSTATUS_MIE :: u32 where "MSTATUS_MIE = 0x8"
definition MIP_MSIP :: u32 where "MIP_MSIP = push_bit 3 1"
definition MIP_MTIP :: u32 where "MIP_MTIP = push_bit 7 1"
definition MIP_MEIP :: u32 where "MIP_MEIP = push_bit 11 1"

definition uv_enable_glb_irq :: "core_csr \<Rightarrow> core_csr" where
  "uv_enable_glb_irq c = c\<lparr>mstatus := mstatus c OR MSTATUS_MIE\<rparr>"

definition uv_disable_glb_irq :: "core_csr \<Rightarrow> core_csr" where
  "uv_disable_glb_irq c = c\<lparr>mstatus := mstatus c AND NOT MSTATUS_MIE\<rparr>"

definition uv_enable_tmr_irq :: "core_csr \<Rightarrow> core_csr" where
  "uv_enable_tmr_irq c = c\<lparr>mie := mie c OR MIP_MTIP\<rparr>"

definition uv_disable_tmr_irq :: "core_csr \<Rightarrow> core_csr" where
  "uv_disable_tmr_irq c = c\<lparr>mie := mie c AND NOT MIP_MTIP\<rparr>"

definition uv_enable_sft_irq :: "core_csr \<Rightarrow> core_csr" where
  "uv_enable_sft_irq c = c\<lparr>mie := mie c OR MIP_MSIP\<rparr>"

definition uv_disable_sft_irq :: "core_csr \<Rightarrow> core_csr" where
  "uv_disable_sft_irq c = c\<lparr>mie := mie c AND NOT MIP_MSIP\<rparr>"

definition uv_enable_ext_irq :: "core_csr \<Rightarrow> core_csr" where
  "uv_enable_ext_irq c = c\<lparr>mie := mie c OR MIP_MEIP\<rparr>"

definition uv_disable_ext_irq :: "core_csr \<Rightarrow> core_csr" where
  "uv_disable_ext_irq c = c\<lparr>mie := mie c AND NOT MIP_MEIP\<rparr>"

text \<open>Which interrupts the core takes: the global enable and the individual ones.\<close>

definition irq_open :: "u32 \<Rightarrow> core_csr \<Rightarrow> bool" where
  "irq_open src c \<longleftrightarrow> mstatus c AND MSTATUS_MIE \<noteq> 0 \<and> mie c AND src \<noteq> 0"

section \<open>External interrupts\<close>

definition REG_IRQ_CLAIM :: u32 where "REG_IRQ_CLAIM = 0x08000038"
definition REG_TARGET_TH :: u32 where "REG_TARGET_TH = 0x0800003C"

definition EXT_IRQ_NUM :: u32 where "EXT_IRQ_NUM = 64"
definition REG_EXT_IP_START :: u32 where "REG_EXT_IP_START = 0x08000040"
definition REG_EXT_IP_NUM :: u32 where
  "REG_EXT_IP_NUM = EXT_IRQ_NUM div 32 + (if EXT_IRQ_NUM mod 32 = 0 then 0 else 1)"
definition REG_EXT_IE_START :: u32 where "REG_EXT_IE_START = REG_EXT_IP_START + push_bit 2 REG_EXT_IP_NUM"
definition REG_EXT_IE_NUM :: u32 where
  "REG_EXT_IE_NUM = EXT_IRQ_NUM div 32 + (if EXT_IRQ_NUM mod 32 = 0 then 0 else 1)"
definition REG_EXT_PR_START :: u32 where "REG_EXT_PR_START = REG_EXT_IE_START + push_bit 2 REG_EXT_IE_NUM"
definition REG_EXT_PR_NUM :: u32 where "REG_EXT_PR_NUM = EXT_IRQ_NUM"
definition REG_EXT_TG_START :: u32 where "REG_EXT_TG_START = REG_EXT_PR_START + push_bit 2 REG_EXT_PR_NUM"

text \<open>\<open>EXT_IRQ_NUM\<close>, as a bound on interrupt numbers.\<close>

definition EXT_IRQ_COUNT :: nat where "EXT_IRQ_COUNT = 64"

definition UART_IRQ :: u32 where "UART_IRQ = 0"
definition SPI0_IRQ :: u32 where "SPI0_IRQ = 1"
definition SPI1_IRQ :: u32 where "SPI1_IRQ = 2"

text \<open>\<open>LOAD_WORD(A + i/8) >> (i%32)\<close>\<close>

definition GET_EXT_IP :: "u32 \<Rightarrow> soc \<Rightarrow> (u32 \<times> soc) option" where
  "GET_EXT_IP i s = do {
     (v, s) \<leftarrow> load_word (REG_EXT_IP_START + i div 8) s;
     Some (drop_bit (unat (i mod 32)) v, s) }"

definition GET_EXT_IE :: "u32 \<Rightarrow> soc \<Rightarrow> (u32 \<times> soc) option" where
  "GET_EXT_IE i s = do {
     (v, s) \<leftarrow> load_word (REG_EXT_IE_START + i div 8) s;
     Some (drop_bit (unat (i mod 32)) v, s) }"

definition SET_EXT_IE :: "u32 \<Rightarrow> soc \<Rightarrow> soc option" where
  "SET_EXT_IE i s = do {
     (v, s) \<leftarrow> GET_EXT_IE i s;
     store_word (REG_EXT_IE_START + i div 8) (v OR push_bit (unat (i mod 32)) 1) s }"

definition CLR_EXT_IE :: "u32 \<Rightarrow> soc \<Rightarrow> soc option" where
  "CLR_EXT_IE i s = do {
     (v, s) \<leftarrow> GET_EXT_IE i s;
     store_word (REG_EXT_IE_START + i div 8) (v AND NOT (push_bit (unat (i mod 32)) 1)) s }"

definition GET_EXT_PR :: "u32 \<Rightarrow> soc \<Rightarrow> (u32 \<times> soc) option" where
  "GET_EXT_PR i = load_word (REG_EXT_PR_START + push_bit 2 i)"

definition GET_EXT_TG :: "u32 \<Rightarrow> soc \<Rightarrow> (u32 \<times> soc) option" where
  "GET_EXT_TG i = load_word (REG_EXT_TG_START + push_bit 2 i)"

definition SET_EXT_PR :: "u32 \<Rightarrow> u32 \<Rightarrow> soc \<Rightarrow> soc option" where
  "SET_EXT_PR i p = store_word (REG_EXT_PR_START + push_bit 2 i) p"

definition SET_EXT_TG :: "u32 \<Rightarrow> u32 \<Rightarrow> soc \<Rightarrow> soc option" where
  "SET_EXT_TG i t = store_word (REG_EXT_TG_START + push_bit 2 i) t"

definition uv_config_ext_irq :: "u32 \<Rightarrow> u32 \<Rightarrow> u32 \<Rightarrow> soc \<Rightarrow> soc option" where
  "uv_config_ext_irq irq priority trigger s = do {
     s \<leftarrow> SET_EXT_PR irq priority s;
     SET_EXT_TG irq trigger s }"

definition uv_set_target_threshold :: "u32 \<Rightarrow> soc \<Rightarrow> soc option" where
  "uv_set_target_threshold th = store_word REG_TARGET_TH th"

section \<open>Addresses\<close>

lemmas irq_addrs = REG_EXT_IP_START_def REG_EXT_IE_START_def REG_EXT_PR_START_def REG_EXT_TG_START_def
  REG_EXT_IP_NUM_def REG_EXT_IE_NUM_def REG_EXT_PR_NUM_def EXT_IRQ_NUM_def

lemma slc_region:
  assumes "a < 0x4000000"
  shows "decode (0x08000000 + of_nat a) = map_option R_slc (slc_decode (a div 4))"
proof -
  have u: "unat (0x08000000 + of_nat a :: u32) = 0x08000000 + a"
    using assms by (simp add: unat_word_ariths unat_of_nat take_bit_nat_eq_self)
  have "unat (drop_bit 26 (0x08000000 + of_nat a :: u32)) = 2"
    using assms by (simp only: unat_drop_bit_eq u) (simp add: drop_bit_eq_div)
  then have "drop_bit 26 (0x08000000 + of_nat a :: u32) = 2"
    by (simp add: word_unat_eq_iff)
  moreover have "(0x4000000 + (0x4000000 + a)) mod 0x4000000 = a"
    using assms by (simp only: mod_add_self1 mod_less)
  then have "unat (take_bit 26 (0x08000000 + of_nat a :: u32)) = a"
    using assms by (simp only: unsigned_take_bit_eq u) (simp add: take_bit_eq_mod)
  ultimately show ?thesis by (simp add: decode_def)
qed

text \<open>The offsets the macros form, for the 64 interrupt numbers.\<close>

lemma div8_of_nat: "i div 8 = (of_nat (unat i div 8) :: u32)"
proof -
  have "unat i div 8 < 2 ^ 32" using unsigned_less [of i, where 'a = nat] by simp
  then show ?thesis
    by (simp add: word_unat_eq_iff unat_div_distrib unat_of_nat take_bit_nat_eq_self)
qed

lemma shift2_of_nat: "unat i < 64 \<Longrightarrow> push_bit 2 i = (of_nat (4 * unat i) :: u32)"
  by (simp add: push_bit_eq_mult)

lemma decode_ext:
  assumes "unat i < 64"
  shows "decode (REG_EXT_IE_START + i div 8) = Some (R_slc (Ext_ie (unat i div 32)))"
    and "decode (REG_EXT_IP_START + i div 8) = Some (R_slc (Ext_ip (unat i div 32)))"
    and "decode (REG_EXT_PR_START + push_bit 2 i) = Some (R_slc (Ext_pr (unat i)))"
    and "decode (REG_EXT_TG_START + push_bit 2 i) = Some (R_slc (Ext_tg (unat i)))"
proof -
  let ?n = "unat i"
  have a: "REG_EXT_IE_START + i div 8 = 0x08000000 + of_nat (0x48 + ?n div 8)"
    "REG_EXT_IP_START + i div 8 = 0x08000000 + of_nat (0x40 + ?n div 8)"
    by (simp_all add: irq_addrs div8_of_nat [of i] push_bit_eq_mult)
  have b: "REG_EXT_PR_START + push_bit 2 i = 0x08000000 + of_nat (0x50 + 4 * ?n)"
    "REG_EXT_TG_START + push_bit 2 i = 0x08000000 + of_nat (0x150 + 4 * ?n)"
    by (simp_all add: irq_addrs shift2_of_nat [OF assms] push_bit_eq_mult)
  have d: "(0x48 + ?n div 8) div 4 = 18 + ?n div 32" "(0x40 + ?n div 8) div 4 = 16 + ?n div 32"
    "(0x50 + 4 * ?n) div 4 = 20 + ?n" "(0x150 + 4 * ?n) div 4 = 84 + ?n"
    by (simp_all add: div_mult2_eq [symmetric])
  have l: "?n div 32 \<le> 1" using assms by linarith
  show "decode (REG_EXT_IE_START + i div 8) = Some (R_slc (Ext_ie (?n div 32)))"
    using l assms by (simp only: a slc_region d) (simp add: slc_decode_def)
  show "decode (REG_EXT_IP_START + i div 8) = Some (R_slc (Ext_ip (?n div 32)))"
    using l assms by (simp only: a slc_region d) (simp add: slc_decode_def)
  show "decode (REG_EXT_PR_START + push_bit 2 i) = Some (R_slc (Ext_pr ?n))"
    using assms by (simp only: b slc_region d) (simp add: slc_decode_def)
  show "decode (REG_EXT_TG_START + push_bit 2 i) = Some (R_slc (Ext_tg ?n))"
    using assms by (simp only: b slc_region d) (simp add: slc_decode_def)
qed

lemma decode_target_th: "decode REG_TARGET_TH = Some (R_slc Target_th)"
  and decode_irq_claim: "decode REG_IRQ_CLAIM = Some (R_slc Irq_claim)"
  by (simp_all add: REG_TARGET_TH_def REG_IRQ_CLAIM_def decode_def slc_decode_def)

section \<open>The interrupt set-up registers\<close>

text \<open>What software sets; the environment leaves it alone.\<close>

definition irq_conf :: "soc \<Rightarrow> (nat \<Rightarrow> u32) \<times> (nat \<Rightarrow> 3 word) \<times> (nat \<Rightarrow> 2 word) \<times> 3 word" where
  "irq_conf s = (irq_ie_r (slc s), irq_pr_r (slc s), irq_tg_r (slc s), target_th_r (slc s))"

lemma hw_step_irq: "irq_conf (hw_step e s) = irq_conf s"
  by (cases e) (auto simp: irq_conf_def hw_step_def tmr_edge_def Let_def)

lemma hw_run_irq: "irq_conf (fold hw_step es s) = irq_conf s"
  by (induction es arbitrary: s) (simp_all add: hw_step_irq)

lemma sync_irq [simp]:
  "irq_ie_r (slc (sync s)) = irq_ie_r (slc s)" "irq_pr_r (slc (sync s)) = irq_pr_r (slc s)"
  "irq_tg_r (slc (sync s)) = irq_tg_r (slc s)" "target_th_r (slc (sync s)) = target_th_r (slc s)"
  using hw_run_irq [of "env s (now s)" s] by (simp_all add: sync_def irq_conf_def)

text \<open>The masks as powers of two.\<close>

lemma irq_masks: "MSTATUS_MIE = 2 ^ 3" "MIP_MSIP = 2 ^ 3" "MIP_MTIP = 2 ^ 7" "MIP_MEIP = 2 ^ 11"
  by (simp_all add: MSTATUS_MIE_def MIP_MSIP_def MIP_MTIP_def MIP_MEIP_def)

lemma open_bits:
  "irq_open MIP_MSIP c \<longleftrightarrow> bit (mstatus c) 3 \<and> bit (mie c) 3"
  "irq_open MIP_MTIP c \<longleftrightarrow> bit (mstatus c) 3 \<and> bit (mie c) 7"
  "irq_open MIP_MEIP c \<longleftrightarrow> bit (mstatus c) 3 \<and> bit (mie c) 11"
  by (simp_all only: irq_open_def irq_masks and_exp_eq_0_iff_not_bit) auto

lemma open_glb: "irq_open src c \<Longrightarrow> bit (mstatus c) 3"
  unfolding irq_open_def irq_masks and_exp_eq_0_iff_not_bit by simp

lemmas irq_ops = uv_enable_glb_irq_def uv_disable_glb_irq_def uv_enable_tmr_irq_def
  uv_disable_tmr_irq_def uv_enable_sft_irq_def uv_disable_sft_irq_def uv_enable_ext_irq_def
  uv_disable_ext_irq_def

section \<open>Properties\<close>

text \<open>
  Configuring an external interrupt sets the priority (three bits) and the trigger (two bits) of
  exactly that interrupt, and changes no other interrupt register.
\<close>

theorem uv_config_ext_irq_config:
  assumes "unat irq < EXT_IRQ_COUNT"
  shows "\<exists>s'. uv_config_ext_irq irq prio trig s = Some s'
    \<and> irq_conf s' = (irq_ie_r (slc s), (irq_pr_r (slc s))(unat irq := ucast prio),
        (irq_tg_r (slc s))(unat irq := ucast trig), target_th_r (slc s))"
  using assms
  by (simp add: uv_config_ext_irq_def SET_EXT_PR_def SET_EXT_TG_def store_word_def decode_ext
      reg_write_def slc_write_def irq_conf_def EXT_IRQ_COUNT_def)

theorem uv_config_ext_irq_config_witness:
  "\<exists>s'. uv_config_ext_irq 1 7 0 (soc_reset (\<lambda>_. [])) = Some s' \<and> irq_pr_r (slc s') 1 = 7"
  using uv_config_ext_irq_config [of 1 7 0 "soc_reset (\<lambda>_. [])"]
  by (auto simp: EXT_IRQ_COUNT_def irq_conf_def)

text \<open>
  C34: \<open>SET_EXT_IE(i)\<close> enables interrupt \<open>i\<close>, but the word it writes back is the enable word shifted
  right by \<open>i mod 32\<close> with bit \<open>i mod 32\<close> set: the enables of the other interrupts of the word move
  down unless \<open>i\<close> is a multiple of 32.
\<close>

theorem set_ext_ie_shifts:
  assumes "unat i < EXT_IRQ_COUNT"
  shows "\<exists>s'. SET_EXT_IE i s = Some s'
    \<and> irq_ie_r (slc s') = (irq_ie_r (slc s))(unat i div 32 :=
        drop_bit (unat (i mod 32)) (irq_ie_r (slc s) (unat i div 32)) OR push_bit (unat (i mod 32)) 1)"
  using assms
  by (simp add: SET_EXT_IE_def GET_EXT_IE_def load_word_def store_word_def decode_ext reg_write_def
      reg_read_def slc_write_def slc_read_def EXT_IRQ_COUNT_def)

text \<open>
  With the UART interrupt (number 0) enabled, enabling SPI0 (number 1) disables the UART.
\<close>

theorem set_ext_ie_shifts_witness:
  "\<exists>s'. SET_EXT_IE 1 ((soc_reset (\<lambda>_. []))\<lparr>slc := slc_reset\<lparr>irq_ie_r := (\<lambda>_. 1)\<rparr>\<rparr>) = Some s'
    \<and> irq_ie_r (slc s') 0 = 2"
  using set_ext_ie_shifts [of 1 "(soc_reset (\<lambda>_. []))\<lparr>slc := slc_reset\<lparr>irq_ie_r := (\<lambda>_. 1)\<rparr>\<rparr>"]
  by (auto simp: EXT_IRQ_COUNT_def soc_reset_def slc_reset_def)

text \<open>
  The core-level functions open and close exactly their own interrupt class: a class is taken
  after its enable and the global enable, is not taken after its disable, and no function of one
  class changes whether another class is taken.
\<close>

theorem irq_class_control:
  "irq_open MIP_MTIP (uv_enable_glb_irq (uv_enable_tmr_irq c))
    \<and> irq_open MIP_MSIP (uv_enable_glb_irq (uv_enable_sft_irq c))
    \<and> irq_open MIP_MEIP (uv_enable_glb_irq (uv_enable_ext_irq c))
    \<and> \<not> irq_open MIP_MTIP (uv_disable_tmr_irq c) \<and> \<not> irq_open MIP_MSIP (uv_disable_sft_irq c)
    \<and> \<not> irq_open MIP_MEIP (uv_disable_ext_irq c) \<and> \<not> irq_open src (uv_disable_glb_irq c)
    \<and> irq_open MIP_MEIP (uv_enable_tmr_irq c) = irq_open MIP_MEIP c
    \<and> irq_open MIP_MEIP (uv_disable_tmr_irq c) = irq_open MIP_MEIP c
    \<and> irq_open MIP_MTIP (uv_disable_ext_irq c) = irq_open MIP_MTIP c
    \<and> irq_open MIP_MTIP (uv_disable_sft_irq c) = irq_open MIP_MTIP c"
proof -
  have "\<not> irq_open src (uv_disable_glb_irq c)"
  proof -
    have "\<not> bit (mstatus (uv_disable_glb_irq c)) 3"
      by (simp add: uv_disable_glb_irq_def MSTATUS_MIE_def bit_and_iff)
    then show ?thesis
      using open_glb by blast
  qed
  then show ?thesis
    unfolding open_bits irq_ops
    by (simp add: MSTATUS_MIE_def MIP_MTIP_def MIP_MSIP_def MIP_MEIP_def bit_or_iff bit_and_iff)
qed

end
