(* ===== verification/Libc_Stubs.thy ===== *)
theory Libc_Stubs
  imports Uv_Irq Printf_Spec
begin

text \<open>
  The C library's lower end in \<open>software/driver/src\<close>: the system calls of the console
  (\<open>write.c\<close>, \<open>isatty.c\<close> and their companions), \<open>putchar\<close>, the start and exit code (\<open>init.c\<close>,
  \<open>exit.c\<close>, \<open>write_hex.c\<close>), the trap handler (\<open>handler.c\<close>) and the allocator (\<open>sbrk.c\<close>, \<open>malloc.c\<close>).
  The console is the scratch register of the system-level controller, whose byte writes the test
  bench prints.
\<close>

section \<open>Files\<close>

definition STDOUT_FILENO :: int where "STDOUT_FILENO = 1"
definition STDERR_FILENO :: int where "STDERR_FILENO = 2"

definition isatty :: "int \<Rightarrow> int" where
  "isatty fd = (if fd = STDOUT_FILENO \<or> fd = STDERR_FILENO then 1 else 0)"

fun write_bytes :: "u8 list \<Rightarrow> soc \<Rightarrow> soc option" where
  "write_bytes [] s = Some s"
| "write_bytes (c # cs) s = do { s \<leftarrow> store_byte REG_SLC_SCRATCH c s; write_bytes cs s }"

text \<open>The bytes from \<open>ptr\<close> on, \<open>len\<close> of which are written.\<close>

definition c_write :: "int \<Rightarrow> u8 list \<Rightarrow> nat \<Rightarrow> soc \<Rightarrow> (int \<times> soc) option" where
  "c_write fd str len s =
     (if isatty fd \<noteq> 0 then
        if len \<le> length str then do { s \<leftarrow> write_bytes (take len str) s; Some (int len, s) } else None
      else Some (-1, s))"

definition lseek :: "int \<Rightarrow> int \<Rightarrow> int \<Rightarrow> int" where
  "lseek fd ptr dir = (if isatty fd \<noteq> 0 then 0 else -1)"

definition close :: "int \<Rightarrow> int" where
  "close fd = -1"

definition read :: "int \<Rightarrow> nat \<Rightarrow> int" where
  "read fd len = -1"

text \<open>\<open>fstat\<close> returns the mode it stores, if any.\<close>

definition S_IFCHR :: u32 where "S_IFCHR = 0x2000"

definition fstat :: "int \<Rightarrow> u32 \<Rightarrow> int \<times> u32" where
  "fstat fd st_mode = (if isatty fd \<noteq> 0 then (0, S_IFCHR) else (-1, st_mode))"

text \<open>\<open>putchar\<close>: one byte, the lowest of the \<open>int\<close> at \<open>&ch\<close>.\<close>

definition putchar :: "u32 \<Rightarrow> soc \<Rightarrow> (int \<times> soc) option" where
  "putchar ch s = do {
     (n, s) \<leftarrow> c_write 1 [ucast ch, ucast (drop_bit 8 ch), ucast (drop_bit 16 ch), ucast (drop_bit 24 ch)] 1 s;
     Some (if n = 1 then sint ch else -1, s) }"

text \<open>\<open>putchar\<close> as the output callback of \<open>printf\<close>, on a machine that may have left the model.\<close>

definition putchar_cb :: "u32 \<Rightarrow> soc option \<Rightarrow> soc option" where
  "putchar_cb ch d = do { s \<leftarrow> d; (r, s) \<leftarrow> putchar ch s; Some s }"

definition printf :: "fp_ops \<Rightarrow> string \<Rightarrow> vararg list \<Rightarrow> soc \<Rightarrow> (u32 \<times> soc) option" where
  "printf fp fmt ap s = do {
     (r, d) \<leftarrow> wrap_printf fp putchar_cb fmt ap (Some s);
     s \<leftarrow> d;
     Some (r, s) }"

text \<open>A sequence of calls, as the programs make them to print a report.\<close>

fun run_prints :: "fp_ops \<Rightarrow> (string \<times> vararg list) list \<Rightarrow> soc \<Rightarrow> soc option" where
  "run_prints fp [] m = Some m"
| "run_prints fp ((fmt, args) # calls) m = do { (r, m) \<leftarrow> printf fp fmt args m; run_prints fp calls m }"

section \<open>Start, exit and traps\<close>

definition c_init :: "fp_ops \<Rightarrow> soc \<Rightarrow> soc option" where
  "c_init fp s = map_option snd (printf fp (''+++++++++++ INIT +++++++++++'' @ [CHR 0x0A]) [] s)"

definition c_fini :: "fp_ops \<Rightarrow> soc \<Rightarrow> soc option" where
  "c_fini fp s = map_option snd (printf fp (''----------- FINI -----------'' @ [CHR 0x0A]) [] s)"

definition hex_digit :: "u32 \<Rightarrow> nat \<Rightarrow> u8" where
  "hex_digit hex jj = ucast (drop_bit (jj * 4) (hex AND push_bit (jj * 4) 0xF))"

definition hex_char :: "u8 \<Rightarrow> u8" where
  "hex_char digit = (if digit < 0xA then of_char CHR ''0'' + digit else of_char CHR ''A'' + (digit - 0xA))"

text \<open>The loop over the nibbles, from the most significant one: \<open>jj = ii - 1\<close>.\<close>

fun write_nibbles :: "int \<Rightarrow> u32 \<Rightarrow> nat \<Rightarrow> soc \<Rightarrow> soc option" where
  "write_nibbles fd hex 0 s = Some s"
| "write_nibbles fd hex (Suc jj) s = do {
     (r, s) \<leftarrow> c_write fd [hex_char (hex_digit hex jj)] 1 s;
     write_nibbles fd hex jj s }"

definition bytes_of :: "string \<Rightarrow> u8 list" where
  "bytes_of s = map of_char s"

definition write_hex :: "int \<Rightarrow> u32 \<Rightarrow> soc \<Rightarrow> soc option" where
  "write_hex fd hex s = do {
     (r, s) \<leftarrow> c_write fd (bytes_of ''0x'') 2 s;
     write_nibbles fd hex 8 s }"

text \<open>\<open>_exit\<close> up to its endless loop: the machine that stays in it.\<close>

definition c_exit :: "u32 \<Rightarrow> soc \<Rightarrow> soc option" where
  "c_exit code s = do {
     let message = bytes_of (CHR 0x0A # ''Program exited: '');
     (r, s) \<leftarrow> c_write STDERR_FILENO message (length message) s;
     s \<leftarrow> write_hex STDERR_FILENO code s;
     (r, s) \<leftarrow> c_write STDERR_FILENO (bytes_of [CHR 0x0A]) 1 s;
     store_word REG_SLC_SCRATCH 0xcafe0235 s }"

text \<open>A trap either resumes the program at an address or never returns.\<close>

datatype trap_result = Resume u32 soc | Spin soc

record irq_handlers =
  handle_ext_irq :: "soc \<Rightarrow> soc option"
  handle_tmr_irq :: "soc \<Rightarrow> soc option"
  handle_sft_irq :: "soc \<Rightarrow> soc option"

text \<open>The weak defaults do nothing; an application overrides them.\<close>

definition weak_handlers :: irq_handlers where
  "weak_handlers = \<lparr>handle_ext_irq = Some, handle_tmr_irq = Some, handle_sft_irq = Some\<rparr>"

definition handle_trap :: "irq_handlers \<Rightarrow> u32 \<Rightarrow> u32 \<Rightarrow> soc \<Rightarrow> trap_result option" where
  "handle_trap h mcause epc s =
     (if mcause AND 0x80000000 \<noteq> 0 then
        if mcause AND 0x7FFFFFFF = 11 then map_option (Resume epc) (handle_ext_irq h s)
        else if mcause AND 0x7FFFFFFF = 3 then map_option (Resume epc) (handle_sft_irq h s)
        else if mcause AND 0x7FFFFFFF = 7 then map_option (Resume epc) (handle_tmr_irq h s)
        else Some (Resume epc s)
      else do {
        (r, s) \<leftarrow> c_write 1 (bytes_of (''trap'' @ [CHR 0x0A])) 5 s;
        s \<leftarrow> c_exit (1 + mcause) s;
        Some (Spin s) })"

section \<open>Heap\<close>

text \<open>The static variable of \<open>sbrk\<close>, and the two linker symbols.\<close>

record brk_state =
  heap_start :: u32
  heap_end :: u32
  curbrk :: u32

definition sbrk :: "u32 \<Rightarrow> brk_state \<Rightarrow> u32 \<times> brk_state" where
  "sbrk incr b =
     (if curbrk b + incr < heap_start b \<or> curbrk b + incr > heap_end b then (0 - 1, b)
      else (curbrk b + incr - incr, b\<lparr>curbrk := curbrk b + incr\<rparr>))"

definition malloc :: "u32 \<Rightarrow> brk_state \<Rightarrow> u32 \<times> brk_state" where
  "malloc sz b = (let (res, b) = sbrk sz b in (if res = -1 then 0 else res, b))"

definition free :: "u32 \<Rightarrow> brk_state \<Rightarrow> brk_state" where
  "free ptr b = b"

section \<open>The console\<close>

lemma decode_scratch: "decode REG_SLC_SCRATCH = Some (R_slc Scratch)"
  by (simp add: REG_SLC_SCRATCH_def decode_def slc_decode_def)

lemma scratch_is_struct_field: "slc_addr Scratch = REG_SLC_SCRATCH"
  by (simp add: slc_addr_def field_addr_def slc_type_def REG_SLC_BASE_def REG_SLC_SCRATCH_def)

lemma sync_log [simp]: "scratch_log (sync s) = scratch_log s"
  using sync_keep [of s] by (simp add: soc_keep_def)

text \<open>What the console functions change: the scratch register and its log, besides time.\<close>

lemma store_scratch:
  "\<exists>s'. store_byte REG_SLC_SCRATCH c s = Some s' \<and> console s' = console s @ [c]
     \<and> scratch_log s' = scratch_log s @ [(0xFF, ucast c)]"
proof -
  have l: "8 * (unat REG_SLC_SCRATCH mod 4) = 0" by (simp add: REG_SLC_SCRATCH_def)
  show ?thesis
    by (simp add: store_byte_def decode_scratch reg_write_def l Let_def console_def ucast_ucast_up)
qed

lemma write_bytes_console:
  "\<exists>s'. write_bytes cs s = Some s' \<and> console s' = console s @ cs"
proof (induction cs arbitrary: s)
  case (Cons c cs)
  obtain s1 where 1: "store_byte REG_SLC_SCRATCH c s = Some s1" "console s1 = console s @ [c]"
    using store_scratch [of c s] by blast
  from Cons.IH [of s1] 1 show ?case by auto
qed simp

lemma write_console:
  assumes "fd = 1 \<or> fd = 2" and "len \<le> length cs"
  shows "\<exists>s'. c_write fd cs len s = Some (int len, s') \<and> console s' = console s @ take len cs"
  using write_bytes_console [of "take len cs" s] assms
  by (auto simp: c_write_def isatty_def STDOUT_FILENO_def STDERR_FILENO_def)

lemma putchar_console: "\<exists>s'. putchar c s = Some (sint c, s') \<and> console s' = console s @ [ucast c]"
  using write_console [of 1 1 "[ucast c, ucast (drop_bit 8 c), ucast (drop_bit 16 c), ucast (drop_bit 24 c)]" s]
  by (auto simp: putchar_def)

text \<open>The console as a character sink, whose machine is always defined.\<close>

definition console_of :: "soc option \<Rightarrow> u8 list" where
  "console_of d = (case d of None \<Rightarrow> [] | Some s \<Rightarrow> console s)"

definition live :: "soc option \<Rightarrow> nat \<Rightarrow> bool" where
  "live d n \<longleftrightarrow> d \<noteq> None"

lemma putchar_cb_console: "\<exists>s'. putchar_cb c (Some s) = Some s' \<and> console s' = console s @ [ucast c]"
  using putchar_console [of c s] by (auto simp: putchar_cb_def)

interpretation console_sink: char_sink putchar_cb console_of live
proof unfold_locales
  fix d n c
  assume "live d (Suc n)"
  then obtain s where s: "d = Some s" by (auto simp: live_def)
  obtain s' where "putchar_cb c d = Some s'" "console s' = console s @ [ucast c]"
    using putchar_cb_console [of c s] s by blast
  then show "console_of (putchar_cb c d) = console_of d @ [ucast c]" "live (putchar_cb c d) n"
    by (simp_all add: console_of_def live_def s)
qed

section \<open>Hexadecimal output\<close>

definition hex_text :: "u32 \<Rightarrow> nat \<Rightarrow> u8 list" where
  "hex_text hex n = map (\<lambda>j. hex_char (hex_digit hex j)) (rev [0..<n])"

lemma write_nibbles_console:
  assumes "fd = 1 \<or> fd = 2"
  shows "\<exists>s'. write_nibbles fd hex n s = Some s' \<and> console s' = console s @ hex_text hex n"
proof (induction n arbitrary: s)
  case (Suc n)
  obtain s1 where 1: "c_write fd [hex_char (hex_digit hex n)] 1 s = Some (1, s1)"
      "console s1 = console s @ [hex_char (hex_digit hex n)]"
    using write_console [OF assms, of 1 "[hex_char (hex_digit hex n)]" s] by auto
  from Suc.IH [of s1] 1 show ?case by (auto simp: hex_text_def)
qed (simp add: hex_text_def)

lemma write_hex_console:
  assumes "fd = 1 \<or> fd = 2"
  shows "\<exists>s'. write_hex fd hex s = Some s' \<and> console s' = console s @ bytes_of ''0x'' @ hex_text hex 8"
proof -
  obtain s1 where 1: "c_write fd (bytes_of ''0x'') 2 s = Some (2, s1)" "console s1 = console s @ bytes_of ''0x''"
    using write_console [OF assms, of 2 "bytes_of ''0x''" s] by (auto simp: bytes_of_def)
  obtain s2 where "write_nibbles fd hex 8 s1 = Some s2" "console s2 = console s1 @ hex_text hex 8"
    using write_nibbles_console [OF assms] by blast
  with 1 show ?thesis by (auto simp: write_hex_def)
qed

text \<open>The value of an upper-case hexadecimal digit, and of a text of digits.\<close>

definition hex_value :: "u8 \<Rightarrow> u32" where
  "hex_value c = ucast (if c < of_char CHR ''A'' then c - of_char CHR ''0'' else c - of_char CHR ''A'' + 0xA)"

definition read_hex :: "u8 list \<Rightarrow> u32" where
  "read_hex cs = foldl (\<lambda>a c. 16 * a + hex_value c) 0 cs"

lemma hex_value_char: "d < 16 \<Longrightarrow> hex_value (hex_char d) = ucast d"
proof -
  assume "d < 16"
  then have n: "unat d < 16" by (simp add: word_less_nat_alt)
  from n have "unat d = 0 \<or> unat d = 1 \<or> unat d = 2 \<or> unat d = 3 \<or> unat d = 4 \<or> unat d = 5
      \<or> unat d = 6 \<or> unat d = 7 \<or> unat d = 8 \<or> unat d = 9 \<or> unat d = 10 \<or> unat d = 11
      \<or> unat d = 12 \<or> unat d = 13 \<or> unat d = 14 \<or> unat d = 15"
    by presburger
  then have "d = 0 \<or> d = 1 \<or> d = 2 \<or> d = 3 \<or> d = 4 \<or> d = 5 \<or> d = 6 \<or> d = 7 \<or> d = 8
      \<or> d = 9 \<or> d = 10 \<or> d = 11 \<or> d = 12 \<or> d = 13 \<or> d = 14 \<or> d = 15"
    by (simp add: word_unat_eq_iff)
  then show ?thesis
    by (auto simp: hex_value_def hex_char_def)
qed

lemma hex_digit_val:
  assumes "j < 8"
  shows "unat (hex_digit hex j) = unat hex div 16 ^ j mod 16"
proof -
  have e: "(2 :: nat) ^ (j * 4) = 16 ^ j" using power_mult [of "2 :: nat" 4 j] by (simp add: mult.commute)
  have "drop_bit (j * 4) (hex AND push_bit (j * 4) 0xF) = take_bit 4 (drop_bit (j * 4) hex)"
  proof (rule bit_word_eqI)
    fix n assume "n < LENGTH(32)"
    have m: "(0xF :: u32) = mask 4" by (simp add: mask_eq_exp_minus_1)
    show "bit (drop_bit (j * 4) (hex AND push_bit (j * 4) 0xF)) n = bit (take_bit 4 (drop_bit (j * 4) hex)) n"
      unfolding m by (auto simp: bit_drop_bit_eq bit_and_iff bit_push_bit_iff bit_take_bit_iff bit_mask_iff
          dest: bit_imp_possible_bit)
  qed
  moreover have "unat (take_bit 4 (drop_bit (j * 4) hex)) = unat hex div 16 ^ j mod 16"
    unfolding unsigned_take_bit_eq unat_drop_bit_eq
    by (simp only: drop_bit_eq_div e take_bit_eq_mod) simp
  moreover have "unat hex div 16 ^ j mod 16 < 2 ^ 8" by (rule less_trans [of _ 16]) simp_all
  ultimately show ?thesis
    unfolding hex_digit_def by (simp add: unsigned_ucast_eq take_bit_nat_eq_self)
qed

lemma hex_value_digit: "j < 8 \<Longrightarrow> hex_value (hex_char (hex_digit hex j)) = of_nat (unat hex div 16 ^ j mod 16)"
proof -
  assume j: "j < 8"
  then have "hex_digit hex j < 16" by (simp add: word_less_nat_alt hex_digit_val)
  then have "hex_value (hex_char (hex_digit hex j)) = of_nat (unat (hex_digit hex j))"
    by (simp add: hex_value_char)
  then show ?thesis by (simp only: hex_digit_val [OF j])
qed

lemma read_hex_Cons: "read_hex (c # cs) = hex_value c * 16 ^ length cs + read_hex cs"
proof -
  have "foldl (\<lambda>a c. 16 * a + hex_value c) a cs = a * 16 ^ length cs + read_hex cs" for a
  proof (induction cs arbitrary: a)
    case (Cons d cs)
    show ?case
      unfolding read_hex_def foldl_Cons Cons.IH [of "16 * a + hex_value d"] Cons.IH [of "16 * 0 + hex_value d"]
      by (simp add: algebra_simps)
  qed (simp add: read_hex_def)
  from this [of "hex_value c"] show ?thesis by (simp add: read_hex_def)
qed

lemma read_hex_text: "n \<le> 8 \<Longrightarrow> read_hex (hex_text hex n) = of_nat (unat hex mod 16 ^ n)"
proof (induction n)
  case (Suc n)
  have m: "unat hex mod 16 ^ Suc n = 16 ^ n * (unat hex div 16 ^ n mod 16) + unat hex mod 16 ^ n"
    by (simp only: power_Suc2 mod_mult2_eq)
  have t: "hex_text hex (Suc n) = hex_char (hex_digit hex n) # hex_text hex n"
    "length (hex_text hex n) = n"
    by (simp_all add: hex_text_def)
  have r: "read_hex (hex_text hex n) = of_nat (unat hex mod 16 ^ n)" using Suc by simp
  have v: "hex_value (hex_char (hex_digit hex n)) = of_nat (unat hex div 16 ^ n mod 16)"
    using Suc.prems by (intro hex_value_digit) simp
  have "of_nat (unat hex div 16 ^ n mod 16) * 16 ^ n + of_nat (unat hex mod 16 ^ n) =
      (of_nat (16 ^ n * (unat hex div 16 ^ n mod 16) + unat hex mod 16 ^ n) :: u32)"
    by (simp only: of_nat_add of_nat_mult of_nat_power of_nat_numeral) (rule arg_cong2 [OF mult.commute refl])
  then show ?case unfolding m t read_hex_Cons r v .
qed (simp add: hex_text_def read_hex_def)

section \<open>The allocator\<close>

text \<open>The break stays inside the heap; the heap is smaller than 2 GiB and does not start at 0.\<close>

definition brk_ok :: "brk_state \<Rightarrow> bool" where
  "brk_ok b \<longleftrightarrow> heap_start b \<noteq> 0 \<and> heap_start b \<le> curbrk b \<and> curbrk b \<le> heap_end b
     \<and> unat (heap_end b) - unat (heap_start b) < 2 ^ 31 \<and> unat (heap_end b) < 2 ^ 32 - 1"

lemma malloc_cases:
  assumes "brk_ok b" and "unat sz < 2 ^ 31"
  shows "malloc sz b =
    (if unat (curbrk b) + unat sz \<le> unat (heap_end b)
     then (curbrk b, b\<lparr>curbrk := curbrk b + sz\<rparr>) else (0, b))"
proof -
  have b: "unat (heap_start b) \<le> unat (curbrk b)" "unat (curbrk b) \<le> unat (heap_end b)"
    "unat (heap_end b) - unat (heap_start b) < 2 ^ 31" "unat (heap_end b) < 2 ^ 32 - 1"
    using assms(1) by (auto simp: brk_ok_def word_le_nat_alt)
  have add: "unat (curbrk b + sz) = (if unat (curbrk b) + unat sz < 2 ^ 32 then unat (curbrk b) + unat sz
      else unat (curbrk b) + unat sz - 2 ^ 32)"
    using unsigned_less [of "curbrk b", where 'a = nat] unsigned_less [of sz, where 'a = nat]
    by (auto simp: unat_word_ariths mod_if not_less)
  have ne: "curbrk b \<noteq> - 1"
  proof
    assume "curbrk b = - 1"
    then have "unat (curbrk b) = 2 ^ 32 - 1" by (simp add: unsigned_minus_1_eq_mask mask_eq_exp_minus_1)
    with b show False by simp
  qed
  show ?thesis
  proof (cases "unat (curbrk b) + unat sz \<le> unat (heap_end b)")
    case True
    then have "\<not> curbrk b + sz < heap_start b" "\<not> heap_end b < curbrk b + sz"
      using b add by (auto simp: word_less_nat_alt)
    with True ne show ?thesis by (simp add: malloc_def sbrk_def)
  next
    case False
    then have "curbrk b + sz < heap_start b \<or> heap_end b < curbrk b + sz"
      using b add assms(2) by (auto simp: word_less_nat_alt)
    then have "sbrk sz b = (- 1, b)" by (simp add: sbrk_def)
    with False show ?thesis by (simp add: malloc_def)
  qed
qed

text \<open>A program's requests in order: the blocks it gets, with their sizes, the null results left out.\<close>

fun malloc_run :: "u32 list \<Rightarrow> brk_state \<Rightarrow> (u32 \<times> u32) list \<times> brk_state" where
  "malloc_run [] b = ([], b)"
| "malloc_run (sz # szs) b =
     (let (p, b) = malloc sz b; (bs, b) = malloc_run szs b
      in (if p = 0 then bs else (p, sz) # bs, b))"

text \<open>Blocks in increasing, non-overlapping order between two addresses.\<close>

fun blocks_between :: "nat \<Rightarrow> (u32 \<times> u32) list \<Rightarrow> nat \<Rightarrow> bool" where
  "blocks_between lo [] hi \<longleftrightarrow> lo \<le> hi"
| "blocks_between lo ((p, sz) # bs) hi \<longleftrightarrow> lo \<le> unat p \<and> blocks_between (unat p + unat sz) bs hi"

lemma malloc_ok:
  assumes "brk_ok b" and "unat sz < 2 ^ 31"
  shows "brk_ok (snd (malloc sz b))" and "heap_end (snd (malloc sz b)) = heap_end b"
    and "fst (malloc sz b) \<noteq> 0 \<Longrightarrow> fst (malloc sz b) = curbrk b
      \<and> unat (curbrk (snd (malloc sz b))) = unat (curbrk b) + unat sz"
    and "fst (malloc sz b) = 0 \<Longrightarrow> snd (malloc sz b) = b"
proof -
  have u: "unat (curbrk b + sz) = unat (curbrk b) + unat sz"
    if "unat (curbrk b) + unat sz \<le> unat (heap_end b)"
    using that unsigned_less [of "heap_end b", where 'a = nat] by (simp add: unat_word_ariths)
  have "curbrk b \<noteq> 0" using assms(1) by (auto simp: brk_ok_def)
  then show "brk_ok (snd (malloc sz b))" "heap_end (snd (malloc sz b)) = heap_end b"
    "fst (malloc sz b) \<noteq> 0 \<Longrightarrow> fst (malloc sz b) = curbrk b
      \<and> unat (curbrk (snd (malloc sz b))) = unat (curbrk b) + unat sz"
    "fst (malloc sz b) = 0 \<Longrightarrow> snd (malloc sz b) = b"
    using assms(1) u by (auto simp: malloc_cases [OF assms] brk_ok_def word_le_nat_alt split: if_splits)
qed

lemma malloc_run_blocks:
  assumes "brk_ok b" and "\<forall>sz \<in> set szs. unat sz < 2 ^ 31"
  shows "blocks_between (unat (curbrk b)) (fst (malloc_run szs b)) (unat (heap_end b))
    \<and> brk_ok (snd (malloc_run szs b))"
  using assms
proof (induction szs arbitrary: b)
  case Nil
  then show ?case by (simp add: brk_ok_def word_le_nat_alt)
next
  case (Cons sz szs)
  have sz: "unat sz < 2 ^ 31" using Cons.prems by simp
  note ok = malloc_ok [OF Cons.prems(1) sz]
  from Cons.IH [OF ok(1)] Cons.prems show ?case
    using ok by (cases "fst (malloc sz b) = 0") (auto simp: case_prod_unfold Let_def)
qed

section \<open>Exit\<close>

definition exit_text :: "u32 \<Rightarrow> u8 list" where
  "exit_text code = bytes_of (CHR 0x0A # ''Program exited: 0x'') @ hex_text code 8 @ bytes_of [CHR 0x0A]"

lemma store_end_mark:
  "\<exists>s'. store_word REG_SLC_SCRATCH d s = Some s' \<and> console s' = console s \<and> scratch_r (slc s') = d"
  by (simp add: store_word_def decode_scratch reg_write_def slc_write_def console_def)

lemma exit_console:
  "\<exists>s'. c_exit code s = Some s' \<and> console s' = console s @ exit_text code
     \<and> scratch_r (slc s') = 0xcafe0235"
proof -
  let ?m = "bytes_of (CHR 0x0A # ''Program exited: '')"
  have fd: "STDERR_FILENO = 1 \<or> STDERR_FILENO = 2" by (simp add: STDERR_FILENO_def)
  obtain s1 where 1: "c_write STDERR_FILENO ?m (length ?m) s = Some (int (length ?m), s1)"
      "console s1 = console s @ ?m"
    using write_console [OF fd, of "length ?m" ?m s] by auto
  obtain s2 where 2: "write_hex STDERR_FILENO code s1 = Some s2"
      "console s2 = console s1 @ bytes_of ''0x'' @ hex_text code 8"
    using write_hex_console [OF fd] by blast
  obtain s3 where 3: "c_write STDERR_FILENO (bytes_of [CHR 0x0A]) 1 s2 = Some (1, s3)"
      "console s3 = console s2 @ bytes_of [CHR 0x0A]"
    using write_console [OF fd, of 1 "bytes_of [CHR 0x0A]" s2] by (auto simp: bytes_of_def)
  obtain s4 where 4: "store_word REG_SLC_SCRATCH 0xcafe0235 s3 = Some s4" "console s4 = console s3"
      "scratch_r (slc s4) = 0xcafe0235"
    using store_end_mark by blast
  have "c_exit code s = Some s4"
    using 1(1) 2(1) 3(1) 4(1) by (simp add: c_exit_def Let_def del: length_map)
  moreover have "console s4 = console s @ exit_text code"
    by (simp add: 1 2 3 4 exit_text_def bytes_of_def)
  ultimately show ?thesis using 4(3) by blast
qed

section \<open>Properties\<close>

text \<open>
  C35: On the machine, \<open>printf\<close> returns 0 and the console shows, after what it showed before, exactly
  the bytes of the text the abstract printer assigns to the format and the arguments.
\<close>

theorem printf_console:
  assumes "printed fp fmt ap = Some cs"
  shows "\<exists>s'. printf fp fmt ap s = Some (0, s') \<and> console s' = console s @ map ucast cs"
proof -
  have "live (Some s) (length cs + 0)" by (simp add: live_def)
  from console_sink.vprintfmt_written [OF assms [folded formatted_printed] this] obtain d where
    v: "vprintfmt fp putchar_cb fmt ap (Some s) = Some d"
    and w: "console_of d = console s @ map ucast cs" and l: "live d 0"
    by (auto simp: console_of_def)
  from l obtain s' where d: "d = Some s'" by (auto simp: live_def)
  have "wrap_printf fp putchar_cb fmt ap (Some s) = Some (0, d)"
    using v by (simp add: wrap_printf_def)
  with w show ?thesis by (simp add: printf_def d console_of_def)
qed

theorem printf_console_witness:
  "\<exists>s'. printf fp_integer ''ok'' [] (soc_reset (\<lambda>_. [])) = Some (0, s') \<and> console s' = [111, 107]"
proof -
  have f: "printed fp_integer ''ok'' [] = Some [111, 107]" by (simp add: printed.simps(2) ascii_def)
  have c: "console (soc_reset (\<lambda>_. [])) = []" by (simp add: console_def soc_reset_def)
  show ?thesis using printf_console [OF f, of "soc_reset (\<lambda>_. [])"] by (auto simp: c)
qed

text \<open>\<open>write_hex\<close> shows \<open>0x\<close> and eight digits that read back as the number, for every 32-bit number.
\<close>

theorem write_hex_roundtrip:
  assumes "fd = 1 \<or> fd = 2"
  shows "\<exists>cs s'. write_hex fd hex s = Some s' \<and> console s' = console s @ bytes_of ''0x'' @ cs
    \<and> length cs = 8 \<and> read_hex cs = hex"
proof -
  have "unat hex mod 16 ^ 8 = unat hex"
    using unsigned_less [of hex, where 'a = nat] by simp
  then have "read_hex (hex_text hex 8) = hex" by (simp add: read_hex_text)
  moreover have "length (hex_text hex 8) = 8" by (simp add: hex_text_def)
  ultimately show ?thesis using write_hex_console [OF assms, of hex s] by blast
qed

theorem write_hex_roundtrip_witness:
  "\<exists>cs s'. write_hex 2 0xcafe (soc_reset (\<lambda>_. [])) = Some s' \<and> read_hex cs = 0xcafe \<and> length cs = 8"
  using write_hex_roundtrip [of 2 "0xcafe" "soc_reset (\<lambda>_. [])"] by auto

text \<open>
  C20: An exception never resumes the program: the console shows \<open>trap\<close> and the exit message with one
  more than the cause, the scratch register holds the end mark, and the machine stays in the loop of
  \<open>_exit\<close>, whatever the application's handlers are.
\<close>

theorem handle_trap_exception:
  assumes "mcause AND 0x80000000 = 0"
  shows "\<exists>s'. handle_trap h mcause epc s = Some (Spin s')
    \<and> console s' = console s @ bytes_of (''trap'' @ [CHR 0x0A]) @ exit_text (1 + mcause)
    \<and> scratch_r (slc s') = 0xcafe0235"
proof -
  obtain s1 where 1: "c_write 1 (bytes_of (''trap'' @ [CHR 0x0A])) 5 s = Some (5, s1)"
      "console s1 = console s @ bytes_of (''trap'' @ [CHR 0x0A])"
    using write_console [of 1 5 "bytes_of (''trap'' @ [CHR 0x0A])" s] by (auto simp: bytes_of_def)
  obtain s2 where 2: "c_exit (1 + mcause) s1 = Some s2" "console s2 = console s1 @ exit_text (1 + mcause)"
      "scratch_r (slc s2) = 0xcafe0235"
    using exit_console by blast
  have "handle_trap h mcause epc s = Some (Spin s2)"
    unfolding handle_trap_def using assms 1(1) 2(1) by simp
  with 1 2 show ?thesis by simp
qed

theorem handle_trap_exception_witness:
  "\<exists>s'. handle_trap weak_handlers 2 0x80000100 (soc_reset (\<lambda>_. [])) = Some (Spin s')
    \<and> scratch_r (slc s') = 0xcafe0235"
  using handle_trap_exception [of 2 weak_handlers "0x80000100" "soc_reset (\<lambda>_. [])"] by auto

text \<open>An interrupt always resumes at the interrupted instruction, after the handler of its class and
  no other; an interrupt of another class changes nothing.
\<close>

theorem handle_trap_interrupt:
  "handle_trap h (0x80000000 OR 11) epc s = map_option (Resume epc) (handle_ext_irq h s)
    \<and> handle_trap h (0x80000000 OR 3) epc s = map_option (Resume epc) (handle_sft_irq h s)
    \<and> handle_trap h (0x80000000 OR 7) epc s = map_option (Resume epc) (handle_tmr_irq h s)
    \<and> (cause \<notin> {3, 7, 11} \<and> cause < 0x80000000 \<longrightarrow>
        handle_trap h (0x80000000 OR cause) epc s = Some (Resume epc s))"
proof -
  have "handle_trap h (0x80000000 OR cause) epc s = Some (Resume epc s)"
    if "cause \<notin> {3, 7, 11}" "cause < 0x80000000"
  proof -
    have b: "(0x80000000 OR cause) AND 0x80000000 \<noteq> 0"
    proof -
      have "bit ((0x80000000 OR cause) AND 0x80000000) 31" by (simp add: bit_or_iff bit_and_iff)
      then show ?thesis by auto
    qed
    have "take_bit 31 cause = cause"
      using that(2) by (simp add: word_unat_eq_iff unsigned_take_bit_eq word_less_nat_alt take_bit_nat_eq_self)
    moreover have "(0x7FFFFFFF :: u32) = mask 31" by (simp add: mask_eq_exp_minus_1)
    moreover have "(0x80000000 OR cause) AND mask 31 = take_bit 31 cause"
    proof -
      have "take_bit 31 (0x80000000 :: u32) = 0" by simp
      then show ?thesis
        by (simp only: take_bit_eq_mask [symmetric] take_bit_or or.left_neutral)
    qed
    ultimately have "(0x80000000 OR cause) AND 0x7FFFFFFF = cause" by metis
    then show ?thesis using b that(1) by (auto simp: handle_trap_def)
  qed
  then show ?thesis by (auto simp: handle_trap_def)
qed

theorem handle_trap_interrupt_witness:
  "handle_trap weak_handlers (0x80000000 OR 5) 0x80000100 (soc_reset (\<lambda>_. [])) =
     Some (Resume 0x80000100 (soc_reset (\<lambda>_. [])))"
  using handle_trap_interrupt [of weak_handlers "0x80000100" "soc_reset (\<lambda>_. [])" 5] by simp

text \<open>
  C15: Requests below 2 GiB get blocks that lie inside the heap, in increasing order and without
  overlap, in any sequence of requests; freeing changes nothing.
\<close>

theorem malloc_blocks_disjoint:
  assumes "brk_ok b" and "\<forall>sz \<in> set szs. unat sz < 2 ^ 31"
  shows "blocks_between (unat (curbrk b)) (fst (malloc_run szs b)) (unat (heap_end b))
    \<and> brk_ok (snd (malloc_run szs b)) \<and> free p b = b"
  using malloc_run_blocks [OF assms] by (simp add: free_def)

definition sample_heap :: brk_state where
  "sample_heap = \<lparr>heap_start = 0x80012000, heap_end = 0x80014000, curbrk = 0x80012000\<rparr>"

theorem malloc_blocks_disjoint_witness:
  "blocks_between 0x80012000 (fst (malloc_run [100, 0x3000, 28] sample_heap)) 0x80014000"
  using malloc_blocks_disjoint [of sample_heap "[100, 0x3000, 28]"]
  by (simp add: sample_heap_def brk_ok_def)

text \<open>A request of almost $2^{32}$ bytes does not fail: the size is read as a negative increment, so
  the caller gets a pointer while the break moves down, and the next request overlaps memory handed
  out before.
\<close>

theorem malloc_huge_moves_down:
  assumes "brk_ok b" and "unat (heap_start b) + 16 \<le> unat (curbrk b)"
  shows "malloc 0xFFFFFFF0 b = (curbrk b, b\<lparr>curbrk := curbrk b - 16\<rparr>) \<and> curbrk b \<noteq> 0"
proof -
  have b: "unat (heap_start b) \<le> unat (curbrk b)" "unat (curbrk b) \<le> unat (heap_end b)"
    "unat (heap_end b) < 2 ^ 32 - 1" "heap_start b \<noteq> 0"
    using assms(1) by (auto simp: brk_ok_def word_le_nat_alt)
  have m: "(0xFFFFFFF0 :: u32) = - 16" by simp
  have u: "unat (curbrk b - 16) = unat (curbrk b) - 16"
    using assms(2) by (simp add: unat_sub word_le_nat_alt)
  have "curbrk b \<noteq> - 1"
  proof
    assume "curbrk b = - 1"
    then have "unat (curbrk b) = 2 ^ 32 - 1" by (simp add: unsigned_minus_1_eq_mask mask_eq_exp_minus_1)
    with b show False by simp
  qed
  moreover have "\<not> curbrk b - 16 < heap_start b" "\<not> heap_end b < curbrk b - 16"
    using b assms(2) u by (auto simp: word_less_nat_alt)
  moreover have "curbrk b \<noteq> 0" using assms(1) by (auto simp: brk_ok_def)
  ultimately show ?thesis
    by (simp add: malloc_def sbrk_def m)
qed

theorem malloc_huge_moves_down_witness:
  "malloc 0xFFFFFFF0 (sample_heap\<lparr>curbrk := 0x80012020\<rparr>) = (0x80012020, sample_heap\<lparr>curbrk := 0x80012010\<rparr>)"
  using malloc_huge_moves_down [of "sample_heap\<lparr>curbrk := 0x80012020\<rparr>"]
  by (simp add: sample_heap_def brk_ok_def)

end
