(* ===== verification/CoreMark_Util.thy ===== *)
theory CoreMark_Util
  imports Prelude
begin

text \<open>
  The CRC service functions of \<^verbatim>\<open>software/app/CoreMark/src/core_util.c\<close>: \<open>crcu8\<close>, \<open>crcu16\<close>,
  \<open>crcu32\<close> and \<open>crc16\<close>, at the C widths. The theorems show that the bit loop is the reflected
  CRC-16 with polynomial 0xA001, that it is linear, that it agrees with the table-driven byte
  algorithm, and that it detects every change of a 16-bit value.
\<close>

unbundle bit_operations_syntax

section \<open>The code\<close>

text \<open>One round of the loop of \<open>crcu8\<close>: the state is the pair of \<open>data\<close> and \<open>crc\<close>.\<close>

definition crcu8_round :: "u8 \<times> u16 \<Rightarrow> u8 \<times> u16" where
  "crcu8_round = (\<lambda>(data, crc).
     let x16 = (data AND 1) XOR ((ucast crc :: u8) AND 1);
         data = drop_bit 1 data;
         (crc, carry) = (if x16 = 1 then (crc XOR 0x4002, 1 :: u8) else (crc, 0));
         crc = drop_bit 1 crc;
         crc = (if carry \<noteq> 0 then crc OR 0x8000 else crc AND 0x7fff)
     in (data, crc))"

definition crcu8 :: "u8 \<Rightarrow> u16 \<Rightarrow> u16" where
  "crcu8 data crc = snd ((crcu8_round ^^ 8) (data, crc))"

definition crcu16 :: "u16 \<Rightarrow> u16 \<Rightarrow> u16" where
  "crcu16 newval crc =
     (let crc = crcu8 (ucast newval) crc;
          crc = crcu8 (ucast (drop_bit 8 newval)) crc
      in crc)"

definition crc16 :: "s16 \<Rightarrow> u16 \<Rightarrow> u16" where
  "crc16 newval crc = crcu16 newval crc"

definition crcu32 :: "u32 \<Rightarrow> u16 \<Rightarrow> u16" where
  "crcu32 newval crc =
     (let crc = crc16 (ucast newval) crc;
          crc = crc16 (ucast (drop_bit 16 newval)) crc
      in crc)"

section \<open>One round is a shift and a conditional XOR\<close>

lemma ucast_bit_0: "bit (ucast (c :: u16) :: u8) 0 = bit c 0"
  by (simp add: bit_simps)

lemma drop_bit_1_top: "\<not> bit (drop_bit 1 (c :: u16)) 15"
  by (simp add: bit_simps)

lemma bit_0x8000: "bit (0x8000 :: u16) n \<longleftrightarrow> n = 15"
proof -
  have "(0x8000 :: u16) = push_bit 15 1" by simp
  then have "bit (0x8000 :: u16) n \<longleftrightarrow> bit (push_bit 15 1 :: u16) n" by (rule arg_cong)
  also have "\<dots> \<longleftrightarrow> n = 15" by (simp only: bit_push_bit_iff bit_1_iff possible_bit_word) auto
  finally show ?thesis .
qed

lemma or_top_eq_xor: "\<not> bit (y :: u16) 15 \<Longrightarrow> y OR 0x8000 = y XOR 0x8000"
  by (rule or_eq_xor_if_disjoint, rule bit_word_eqI, simp only: bit_and_iff bit_0x8000) auto

lemma bit_lt_15: "\<not> bit (y :: u16) 15 \<Longrightarrow> bit y n \<Longrightarrow> n < 15"
  using bit_imp_le_length [of y n] by (cases "n = 15") auto

lemma and_low_id: "\<not> bit (y :: u16) 15 \<Longrightarrow> y AND 0x7fff = y"
proof -
  assume y: "\<not> bit y 15"
  have "y AND mask 15 = y"
    by (rule bit_word_eqI) (auto simp: bit_and_iff bit_mask_iff dest: bit_lt_15 [OF y])
  then show ?thesis by (simp add: mask_eq_exp_minus_1)
qed

lemma crcu8_round_eq [crc_simps]:
  "crcu8_round (d, c) =
     (drop_bit 1 d, drop_bit 1 c XOR (if bit d 0 \<noteq> bit c 0 then 0xA001 else 0))"
proof -
  define y where "y = drop_bit 1 c"
  have y: "\<not> bit y 15" by (simp add: y_def bit_simps)
  have "\<not> bit (0x2001 :: u16) 15" by code_simp
  with y have x: "\<not> bit (y XOR 0x2001) 15" by (simp only: bit_xor_iff)
  have d: "drop_bit 1 (c XOR 0x4002) = y XOR 0x2001"
    by (simp add: y_def drop_bit_xor)
  show ?thesis
    unfolding crcu8_round_def Let_def prod.case xor_low_bits_eq_one_iff ucast_bit_0
    by (simp add: d [simplified] y_def [symmetric, simplified] or_top_eq_xor [OF x] and_low_id [OF y] xor.assoc)
qed

section \<open>The reflected CRC-16 register\<close>

text \<open>The abstract step: shift right, and add the polynomial 0xA001 if a one fell out.\<close>

definition lfsr :: "u16 \<Rightarrow> u16" where
  "lfsr c = drop_bit 1 c XOR (if bit c 0 then 0xA001 else 0)"

lemma lfsr_0 [simp]: "lfsr 0 = 0"
  by (simp add: lfsr_def)

lemma lfsr_xor [crc_simps]: "lfsr (a XOR b) = lfsr a XOR lfsr b"
proof -
  have "(if bit (a XOR b) 0 then 0xA001 else (0 :: u16)) =
      (if bit a 0 then 0xA001 else 0) XOR (if bit b 0 then 0xA001 else 0)"
    by (simp add: bit_xor_iff)
  then show ?thesis
    by (simp only: lfsr_def drop_bit_xor ac_simps)
qed

lemma lfsr_funpow_0 [simp]: "(lfsr ^^ n) 0 = 0"
  by (induction n) auto

lemma lfsr_funpow_xor [crc_simps]: "(lfsr ^^ n) (a XOR b) = (lfsr ^^ n) a XOR (lfsr ^^ n) b"
  by (induction n) (auto simp: lfsr_xor)

lemma lfsr_eq_0D: "lfsr c = 0 \<Longrightarrow> c = 0"
proof -
  assume z: "lfsr c = 0"
  have "bit (lfsr c) 15 = bit c 0"
    by (simp add: lfsr_def bit_simps)
  with z have b0: "\<not> bit c 0" by simp
  with z have d: "drop_bit 1 c = 0" by (simp add: lfsr_def)
  have "bit c n \<longleftrightarrow> False" for n
    using b0 d by (cases n) (auto simp: bit_drop_bit_eq dest!: arg_cong [where f = "\<lambda>w. bit w (n - 1)"])
  then show "c = 0" by (intro bit_word_eqI) simp
qed

lemma lfsr_inj: "lfsr a = lfsr b \<longleftrightarrow> a = b"
  by (metis lfsr_eq_0D lfsr_xor word_eq_iff_xor_zero)

lemma lfsr_funpow_inj: "(lfsr ^^ n) a = (lfsr ^^ n) b \<longleftrightarrow> a = b"
  by (induction n) (auto simp: lfsr_inj)

text \<open>Data and register enter a round only through their XOR.\<close>

lemma crcu8_round_lfsr:
  "snd (crcu8_round (d, c)) XOR ucast (fst (crcu8_round (d, c))) = lfsr (c XOR ucast d)"
proof -
  have "drop_bit 1 (ucast d :: u16) = ucast (drop_bit 1 d)"
    by (rule bit_word_eqI) (auto simp: bit_simps dest: bit_imp_le_length)
  then show ?thesis
    by (simp add: crcu8_round_eq lfsr_def drop_bit_xor bit_xor_iff bit_ucast_iff ac_simps)
qed

lemma crcu8_rounds_lfsr:
  "snd ((crcu8_round ^^ n) (d, c)) XOR ucast (fst ((crcu8_round ^^ n) (d, c)))
     = (lfsr ^^ n) (c XOR ucast d)"
proof (induction n)
  case (Suc n)
  obtain d' c' where "(crcu8_round ^^ n) (d, c) = (d', c')" by fastforce
  with Suc show ?case
    using crcu8_round_lfsr [of d' c'] by simp
qed simp

lemma crcu8_rounds_fst: "fst ((crcu8_round ^^ n) (d, c)) = drop_bit n d"
proof (induction n)
  case (Suc n)
  obtain d' c' where "(crcu8_round ^^ n) (d, c) = (d', c')" by fastforce
  with Suc show ?case by (simp add: crcu8_round_eq)
qed simp

lemma crcu8_lfsr [crc_simps]: "crcu8 d c = (lfsr ^^ 8) (c XOR ucast d)"
proof -
  have "drop_bit 8 d = 0" by (rule bit_word_eqI) (auto simp: bit_simps dest: bit_imp_le_length)
  then show ?thesis
    using crcu8_rounds_lfsr [of 8 d c] by (simp add: crcu8_def crcu8_rounds_fst)
qed

section \<open>Byte-wise form\<close>

text \<open>A register whose low bits are zero is only shifted.\<close>

lemma lfsr_even: "\<not> bit c 0 \<Longrightarrow> lfsr c = drop_bit 1 c"
  by (simp add: lfsr_def)

lemma lfsr_funpow_shift: "(\<And>i. i < n \<Longrightarrow> \<not> bit c i) \<Longrightarrow> (lfsr ^^ n) c = drop_bit n c"
proof (induction n arbitrary: c)
  case (Suc n)
  have e: "lfsr c = drop_bit 1 c"
    using Suc.prems [of 0] by (intro lfsr_even) simp
  have "(lfsr ^^ n) (drop_bit 1 c) = drop_bit n (drop_bit 1 c)"
    using Suc.prems by (intro Suc.IH) (simp add: bit_drop_bit_eq)
  then show ?case by (simp add: funpow_swap1 e)
qed simp

lemma bit_u16_hi: "bit (c :: u16) (8 + n) \<Longrightarrow> n < 8"
  by (drule bit_imp_le_length) simp

lemma crcu8_table_aux: "crcu8 d c = drop_bit 8 c XOR crcu8 (ucast c XOR d) 0"
proof -
  have hi: "(lfsr ^^ 8) (push_bit 8 (drop_bit 8 c)) = drop_bit 8 c"
    by (subst lfsr_funpow_shift)
      (auto simp: bit_simps intro!: bit_word_eqI dest: bit_u16_hi)
  have "c XOR ucast d = push_bit 8 (drop_bit 8 c) XOR ucast (ucast c XOR d)"
    by (rule bit_word_eqI) (auto simp: bit_simps dest: bit_imp_le_length)
  then show ?thesis
    by (simp add: crcu8_lfsr lfsr_funpow_xor hi)
qed

lemma ucast_u8_lo_hi:
  "(v :: u16) = ucast (ucast v :: u8) XOR push_bit 8 (ucast (ucast (drop_bit 8 v) :: u8))"
  by (rule bit_word_eqI) (auto simp: bit_simps dest: bit_imp_le_length)

text \<open>Two bytes at a time: the value and the register enter through their XOR again.\<close>

lemma crcu16_lfsr [crc_simps]: "crcu16 v c = (lfsr ^^ 16) (c XOR v)"
proof -
  let ?lo = "ucast v :: u8" and ?hi = "ucast (drop_bit 8 v) :: u8"
  have sh: "(lfsr ^^ 8) (push_bit 8 (ucast ?hi)) = (ucast ?hi :: u16)"
    by (subst lfsr_funpow_shift)
      (auto simp: bit_simps intro!: bit_word_eqI dest: bit_imp_le_length)
  have v: "c XOR v = (c XOR ucast ?lo) XOR push_bit 8 (ucast ?hi)"
    by (subst ucast_u8_lo_hi [of v]) (simp add: ac_simps)
  have "(lfsr ^^ 16) (c XOR v) = (lfsr ^^ 8) ((lfsr ^^ 8) (c XOR v))"
    by (metis funpow_add comp_apply numeral_Bit0)
  also have "(lfsr ^^ 8) (c XOR v) = (lfsr ^^ 8) (c XOR ucast ?lo) XOR ucast ?hi"
    by (simp only: v lfsr_funpow_xor sh)
  finally show ?thesis
    by (simp only: crcu16_def Let_def crcu8_lfsr)
qed

lemma crcu32_lfsr [crc_simps]:
  "crcu32 v c = (lfsr ^^ 16) ((lfsr ^^ 16) (c XOR ucast v) XOR ucast (drop_bit 16 v))"
  by (simp only: crcu32_def Let_def crc16_def crcu16_lfsr)

lemma crcu32_xor: "crcu32 (v XOR w) (c XOR d) = crcu32 v c XOR crcu32 w d"
proof -
  have lo: "(ucast (v XOR w) :: u16) = ucast v XOR ucast w"
    by (rule bit_word_eqI) (auto simp: bit_simps)
  have hi: "(ucast (drop_bit 16 (v XOR w)) :: u16) = ucast (drop_bit 16 v) XOR ucast (drop_bit 16 w)"
    by (rule bit_word_eqI) (auto simp: bit_simps)
  have "c XOR d XOR (a XOR b) = (c XOR a) XOR (d XOR b)" for a b c d :: u16
    by (simp only: ac_simps)
  then show ?thesis
    by (simp only: crcu32_lfsr lfsr_funpow_xor lo hi) (simp only: ac_simps)
qed

text \<open>The polynomial multiple of a short error never vanishes.\<close>

lemma crcu32_burst_aux:
  assumes k: "k \<le> 16" and z: "crcu32 (push_bit k (ucast (w :: u16))) 0 = 0"
  shows "w = 0"
proof -
  define n where "n = 16 - k"
  define l :: u16 where "l = take_bit n w"
  define h :: u16 where "h = drop_bit n w"
  have nk: "n + k = 16" using k by (simp add: n_def)
  have w: "w = l XOR push_bit n h"
    by (rule bit_word_eqI) (auto simp: bit_simps l_def h_def)
  have lo: "(ucast (push_bit k (ucast w :: u32)) :: u16) = push_bit k l"
    using nk by (intro bit_word_eqI) (auto simp: bit_simps l_def)
  have hi: "(ucast (drop_bit 16 (push_bit k (ucast w :: u32))) :: u16) = h"
    using nk by (intro bit_word_eqI) (auto simp: bit_simps h_def n_def dest: bit_imp_le_length)
  have "(lfsr ^^ k) (push_bit k l) = drop_bit k (push_bit k l)"
    by (rule lfsr_funpow_shift) (simp add: bit_simps)
  also have "\<dots> = l"
    using nk by (intro bit_word_eqI) (auto simp: bit_simps l_def)
  finally have l: "(lfsr ^^ 16) (push_bit k l) = (lfsr ^^ n) l"
    by (metis nk funpow_add comp_apply)
  have "(lfsr ^^ n) (push_bit n h) = drop_bit n (push_bit n h)"
    by (rule lfsr_funpow_shift) (simp add: bit_simps)
  also have "\<dots> = h"
    by (intro bit_word_eqI) (auto simp: bit_simps h_def dest: bit_imp_le_length)
  finally have h: "(lfsr ^^ n) (push_bit n h) = h" .
  have "(lfsr ^^ 16) ((lfsr ^^ n) l XOR h) = 0"
    using z by (simp only: crcu32_lfsr lo hi l xor.left_neutral)
  then have "(lfsr ^^ n) l XOR (lfsr ^^ n) (push_bit n h) = 0"
    by (metis h lfsr_funpow_0 lfsr_funpow_inj)
  then have "(lfsr ^^ n) w = 0"
    by (simp only: w lfsr_funpow_xor)
  then show ?thesis by (metis lfsr_funpow_0 lfsr_funpow_inj)
qed

section \<open>Properties\<close>


text \<open>
  \<open>crcu16\<close> loses no information: from the same register two values give the same CRC only
  if they are equal, and the same value gives the same CRC only from equal registers.
\<close>

theorem crcu16_injective:
  "(crcu16 v crc = crcu16 v' crc \<longleftrightarrow> v = v') \<and> (crcu16 v crc = crcu16 v crc' \<longleftrightarrow> crc = crc')"
  by (simp add: crcu16_lfsr lfsr_funpow_inj xor_left_cancel xor_right_cancel)

text \<open>
  C30: \<open>crcu32\<close> detects every burst error: flipping any non-empty set of bits that lie within
  16 consecutive positions of the 32-bit value changes the CRC.
\<close>

theorem crcu32_detects_burst:
  assumes "k \<le> 16" and "w \<noteq> (0 :: u16)"
  shows "crcu32 (v XOR push_bit k (ucast w)) crc \<noteq> crcu32 v crc"
proof
  assume eq: "crcu32 (v XOR push_bit k (ucast w)) crc = crcu32 v crc"
  have "crcu32 (v XOR push_bit k (ucast w)) (crc XOR 0) = crcu32 v crc XOR crcu32 (push_bit k (ucast w)) 0"
    by (rule crcu32_xor)
  with eq have "crcu32 (push_bit k (ucast w)) 0 = 0"
    by (metis xor.right_neutral xor_left_cancel)
  with assms show False using crcu32_burst_aux by blast
qed

theorem crcu32_detects_burst_witness:
  "crcu32 (0x12345678 XOR push_bit 4 (ucast (0x8001 :: u16))) 0 \<noteq> crcu32 0x12345678 0"
  by (rule crcu32_detects_burst) simp_all

end
