(* ===== verification/CoreMark_State.thy ===== *)
theory CoreMark_State
  imports CoreMark_Util
begin

text \<open>
  The state-machine benchmark \<open>software/app/CoreMark/src/core_state.c\<close>: the generator of the input
  (\<open>core_init_state\<close>), the token scanner (\<open>core_state_transition\<close>) and the benchmark loop
  (\<open>core_bench_state\<close>). The memory block is a list of bytes; an access past its end has no value
  (\<open>None\<close>). The scanner is compared with a grammar of signed integers, decimal fractions and
  scientific notation.
\<close>

section \<open>Characters\<close>

definition chr8 :: "char \<Rightarrow> u8" where
  "chr8 c = of_char c"

definition str8 :: "string \<Rightarrow> u8 list" where
  "str8 s = map chr8 s"

definition ee_isdigit :: "u8 \<Rightarrow> bool" where
  "ee_isdigit c \<longleftrightarrow> c \<ge> chr8 CHR ''0'' \<and> c \<le> chr8 CHR ''9''"

section \<open>The scanner\<close>

datatype core_state =
  CORE_START | CORE_INVALID | CORE_S1 | CORE_S2 | CORE_INT | CORE_FLOAT | CORE_EXPONENT | CORE_SCIENTIFIC

text \<open>The enumeration's numbers order the states, and index the counter arrays.\<close>

fun state_number :: "core_state \<Rightarrow> nat" where
  "state_number CORE_START = 0"
| "state_number CORE_INVALID = 1"
| "state_number CORE_S1 = 2"
| "state_number CORE_S2 = 3"
| "state_number CORE_INT = 4"
| "state_number CORE_FLOAT = 5"
| "state_number CORE_EXPONENT = 6"
| "state_number CORE_SCIENTIFIC = 7"

lemma state_number_inj: "state_number s = state_number t \<Longrightarrow> s = t"
  by (cases s; cases t) simp_all

instantiation core_state :: linorder
begin

definition less_eq_core_state :: "core_state \<Rightarrow> core_state \<Rightarrow> bool" where
  "s \<le> t \<longleftrightarrow> state_number s \<le> state_number t"

definition less_core_state :: "core_state \<Rightarrow> core_state \<Rightarrow> bool" where
  "s < t \<longleftrightarrow> state_number s < state_number t"

instance
  by standard (auto simp: less_eq_core_state_def less_core_state_def intro: state_number_inj)

end

definition core_states :: "core_state list" where
  "core_states = [CORE_START, CORE_INVALID, CORE_S1, CORE_S2, CORE_INT, CORE_FLOAT, CORE_EXPONENT,
     CORE_SCIENTIFIC]"

lemma core_states_enum: "sorted core_states \<and> distinct core_states \<and> set core_states = UNIV
    \<and> map state_number core_states = [0..<8]"
proof -
  have "s \<in> set core_states" for s by (cases s) (simp_all add: core_states_def)
  then show ?thesis
    by (auto simp: core_states_def less_eq_core_state_def upt_rec)
qed

type_synonym counts = "core_state \<Rightarrow> u32"

definition bump :: "core_state \<Rightarrow> counts \<Rightarrow> counts" where
  "bump s c = c(s := c s + 1)"

text \<open>The switch of the loop body.\<close>

definition state_body :: "core_state \<Rightarrow> u8 \<Rightarrow> counts \<Rightarrow> core_state \<times> counts" where
  "state_body state NEXT_SYMBOL n =
     (case state of
        CORE_START \<Rightarrow>
          if ee_isdigit NEXT_SYMBOL then (CORE_INT, bump CORE_START n)
          else if NEXT_SYMBOL = chr8 CHR ''+'' \<or> NEXT_SYMBOL = chr8 CHR ''-'' then (CORE_S1, bump CORE_START n)
          else if NEXT_SYMBOL = chr8 CHR ''.'' then (CORE_FLOAT, bump CORE_START n)
          else (CORE_INVALID, bump CORE_START (bump CORE_INVALID n))
      | CORE_S1 \<Rightarrow>
          if ee_isdigit NEXT_SYMBOL then (CORE_INT, bump CORE_S1 n)
          else if NEXT_SYMBOL = chr8 CHR ''.'' then (CORE_FLOAT, bump CORE_S1 n)
          else (CORE_INVALID, bump CORE_S1 n)
      | CORE_INT \<Rightarrow>
          if NEXT_SYMBOL = chr8 CHR ''.'' then (CORE_FLOAT, bump CORE_INT n)
          else if \<not> ee_isdigit NEXT_SYMBOL then (CORE_INVALID, bump CORE_INT n)
          else (CORE_INT, n)
      | CORE_FLOAT \<Rightarrow>
          if NEXT_SYMBOL = chr8 CHR ''E'' \<or> NEXT_SYMBOL = chr8 CHR ''e'' then (CORE_S2, bump CORE_FLOAT n)
          else if \<not> ee_isdigit NEXT_SYMBOL then (CORE_INVALID, bump CORE_FLOAT n)
          else (CORE_FLOAT, n)
      | CORE_S2 \<Rightarrow>
          if NEXT_SYMBOL = chr8 CHR ''+'' \<or> NEXT_SYMBOL = chr8 CHR ''-'' then (CORE_EXPONENT, bump CORE_S2 n)
          else (CORE_INVALID, bump CORE_S2 n)
      | CORE_EXPONENT \<Rightarrow>
          if ee_isdigit NEXT_SYMBOL then (CORE_SCIENTIFIC, bump CORE_EXPONENT n)
          else (CORE_INVALID, bump CORE_EXPONENT n)
      | CORE_SCIENTIFIC \<Rightarrow>
          if \<not> ee_isdigit NEXT_SYMBOL then (CORE_INVALID, bump CORE_INVALID n)
          else (CORE_SCIENTIFIC, n)
      | CORE_INVALID \<Rightarrow> (CORE_INVALID, n))"

function scan :: "u8 list \<Rightarrow> nat \<Rightarrow> core_state \<Rightarrow> counts \<Rightarrow> (core_state \<times> nat \<times> counts) option" where
  "scan m str state n =
     (if \<not> str < length m then None
      else if m ! str = 0 \<or> state = CORE_INVALID then Some (state, str, n)
      else if m ! str = chr8 CHR '','' then Some (state, Suc str, n)
      else let (state, n) = state_body state (m ! str) n in scan m (Suc str) state n)"
  by pat_completeness auto
termination by (relation "measure (\<lambda>(m, str, _, _). length m - str)") auto

declare scan.simps [simp del]

definition core_state_transition ::
  "u8 list \<Rightarrow> nat \<Rightarrow> counts \<Rightarrow> (core_state \<times> nat \<times> counts) option" where
  "core_state_transition m instr transition_count = scan m instr CORE_START transition_count"

section \<open>The benchmark\<close>

lemma scan_progress: "scan m i st n = Some (st', j, n') \<Longrightarrow> i \<le> j \<and> j < Suc (length m)"
proof (induction m i st n rule: scan.induct)
  case (1 m i st n)
  show ?case
  proof (cases "i < length m \<and> m ! i \<noteq> 0 \<and> st \<noteq> CORE_INVALID \<and> m ! i \<noteq> chr8 CHR '',''")
    case True
    obtain st1 n1 where b: "state_body st (m ! i) n = (st1, n1)" by fastforce
    have "scan m (Suc i) st1 n1 = Some (st', j, n')"
      using "1.prems" True by (simp add: scan.simps [of m i] b)
    from "1.IH" [OF _ _ _ b [symmetric] refl this] True show ?thesis by simp
  next
    case False
    with "1.prems" show ?thesis by (auto simp: scan.simps [of m i] split: if_splits)
  qed
qed

lemma transition_progress:
  assumes "core_state_transition m i n = Some (st, j, n')" and "m ! i \<noteq> 0"
  shows "i < j"
proof -
  have i: "i < length m"
    using assms(1) by (auto simp: core_state_transition_def scan.simps [of m i] split: if_splits)
  show ?thesis
  proof (cases "m ! i = chr8 CHR '',''")
    case True
    with assms i show ?thesis by (simp add: core_state_transition_def scan.simps [of m i])
  next
    case False
    obtain st1 n1 where b: "state_body CORE_START (m ! i) n = (st1, n1)" by fastforce
    have "scan m (Suc i) st1 n1 = Some (st, j, n')"
      using assms False i by (simp add: core_state_transition_def scan.simps [of m i] b)
    then show ?thesis using scan_progress by fastforce
  qed
qed

text \<open>\<open>while (*p!=0)\<close>: the final state of every token is counted.\<close>

function scan_all :: "u8 list \<Rightarrow> nat \<Rightarrow> counts \<Rightarrow> counts \<Rightarrow> (counts \<times> counts) option" where
  "scan_all m p final_counts track_counts =
     (if \<not> p < length m then None
      else if m ! p = 0 then Some (final_counts, track_counts)
      else case core_state_transition m p track_counts of
             None \<Rightarrow> None
           | Some (fstate, p, track_counts) \<Rightarrow> scan_all m p (bump fstate final_counts) track_counts)"
  by pat_completeness auto
termination
proof (relation "measure (\<lambda>(m, p, _, _). Suc (length m) - p)")
  fix m p final_counts track_counts x2 x y xa ya
  assume "\<not> \<not> p < length m" "m ! p \<noteq> 0" "core_state_transition m p track_counts = Some x2"
    "(x, y) = x2" "(xa, ya) = y"
  then have "p < xa" "p < Suc (length m)" using transition_progress by fastforce+
  then show "((m, xa, bump x final_counts, ya), m, p, final_counts, track_counts)
      \<in> measure (\<lambda>(m, p, _, _). Suc (length m) - p)"
    by (simp add: diff_less_mono2)
qed simp

declare scan_all.simps [simp del]

text \<open>
  The corruption passes: \<open>p\<close> advances by a signed 16-bit step. A step that is not positive never
  leaves the loop or leaves the block; it has no value.
\<close>

function corrupt :: "s16 \<Rightarrow> s16 \<Rightarrow> nat \<Rightarrow> nat \<Rightarrow> u8 list \<Rightarrow> u8 list option" where
  "corrupt seed step blksize p m =
     (if \<not> p < blksize then Some m
      else if \<not> p < length m \<or> \<not> 0 <s step then None
      else corrupt seed step blksize (p + nat (sint step))
             (if m ! p \<noteq> chr8 CHR '','' then m[p := m ! p XOR ucast seed] else m))"
  by pat_completeness auto
termination
  by (relation "measure (\<lambda>(_, _, blksize, p, _). blksize - p)") (auto simp: word_sless_alt)

declare corrupt.simps [simp del]

definition crc_counts :: "counts \<Rightarrow> counts \<Rightarrow> u16 \<Rightarrow> u16" where
  "crc_counts final_counts track_counts crc =
     fold (\<lambda>i crc. crcu32 (track_counts i) (crcu32 (final_counts i) crc)) core_states crc"

definition core_bench_state ::
  "nat \<Rightarrow> u8 list \<Rightarrow> s16 \<Rightarrow> s16 \<Rightarrow> s16 \<Rightarrow> u16 \<Rightarrow> (u16 \<times> u8 list) option" where
  "core_bench_state blksize memblock seed1 seed2 step crc = do {
     (final_counts, track_counts) \<leftarrow> scan_all memblock 0 (\<lambda>_. 0) (\<lambda>_. 0);
     memblock \<leftarrow> corrupt seed1 step blksize 0 memblock;
     (final_counts, track_counts) \<leftarrow> scan_all memblock 0 final_counts track_counts;
     memblock \<leftarrow> corrupt seed2 step blksize 0 memblock;
     Some (crc_counts final_counts track_counts crc, memblock) }"

section \<open>The input\<close>

definition intpat :: "u8 list list" where
  "intpat = [str8 ''5012'', str8 ''1234'', str8 ''-874'', str8 ''+122'']"

definition floatpat :: "u8 list list" where
  "floatpat = [str8 ''35.54400'', str8 ''.1234500'', str8 ''-110.700'', str8 ''+0.64400'']"

definition scipat :: "u8 list list" where
  "scipat = [str8 ''5.500e+3'', str8 ''-.123e-2'', str8 ''-87e+832'', str8 ''+0.6e-12'']"

definition errpat :: "u8 list list" where
  "errpat = [str8 ''T0.3e-1F'', str8 ''-T.T++Tq'', str8 ''1T3.4e4z'', str8 ''34.0e-T^'']"

text \<open>The pattern and its length the switch chooses for a seed.\<close>

definition choose_pattern :: "s16 \<Rightarrow> u8 list \<times> nat" where
  "choose_pattern seed =
     (let k = unat (signed_drop_bit 3 seed AND 0x3); c = unat (seed AND 0x7)
      in if c \<in> {0, 1, 2} then (intpat ! k, 4)
         else if c \<in> {3, 4} then (floatpat ! k, 8)
         else if c \<in> {5, 6} then (scipat ! k, 8)
         else (errpat ! k, 8))"

text \<open>Storing bytes from an index on; a store past the end has no value.\<close>

definition store_at :: "nat \<Rightarrow> u8 list \<Rightarrow> u8 list \<Rightarrow> u8 list option" where
  "store_at i bs m = (if i + length bs \<le> length m then Some (take i m @ bs @ drop (i + length bs) m) else None)"

text \<open>
  The generator loop: \<open>size\<close> is already decremented, \<open>next\<close> bytes of \<open>buf\<close> are pending.
\<close>

function init_loop :: "nat \<Rightarrow> nat \<Rightarrow> nat \<Rightarrow> s16 \<Rightarrow> u8 list \<Rightarrow> u8 list \<Rightarrow> (nat \<times> u8 list) option" where
  "init_loop sz tot next seed buf m =
     (if \<not> tot + next + 1 < sz then Some (tot, m)
      else case (if next > 0 then store_at tot (take next buf @ [chr8 CHR '','']) m else Some m) of
          None \<Rightarrow> None
        | Some m \<Rightarrow>
            let tot = (if next > 0 then tot + next + 1 else tot);
                seed = seed + 1;
                (buf, next) = choose_pattern seed
            in init_loop sz tot next seed buf m)"
  by pat_completeness auto
termination
  by (relation "measure (\<lambda>(sz, tot, next, _, _, _). sz - (tot + next))")
    (auto simp: choose_pattern_def Let_def split: if_splits)

declare init_loop.simps [simp del]

text \<open>
  The unsigned sums do not wrap for sizes below 2 GiB; a size of 0 would make \<open>size--\<close> wrap. Both
  are outside the model.
\<close>

definition core_init_state :: "u32 \<Rightarrow> s16 \<Rightarrow> u8 list \<Rightarrow> u8 list option" where
  "core_init_state sz seed p =
     (if sz = 0 \<or> sz \<ge> 0x80000000 then None
      else do {
        (tot, p) \<leftarrow> init_loop (unat sz - 1) 0 0 seed [] p;
        (if tot < unat sz then store_at tot (replicate (unat sz - tot) 0) p else Some p) })"

section \<open>The grammar of the tokens\<close>

definition sign :: "u8 list \<Rightarrow> bool" where
  "sign cs \<longleftrightarrow> cs = [] \<or> cs = [chr8 CHR ''+''] \<or> cs = [chr8 CHR ''-'']"

definition digits :: "u8 list \<Rightarrow> bool" where
  "digits cs \<longleftrightarrow> (\<forall>c \<in> set cs. ee_isdigit c)"

definition int_token :: "u8 list \<Rightarrow> bool" where
  "int_token cs \<longleftrightarrow> (\<exists>sg ds. cs = sg @ ds \<and> sign sg \<and> ds \<noteq> [] \<and> digits ds)"

definition float_token :: "u8 list \<Rightarrow> bool" where
  "float_token cs \<longleftrightarrow> (\<exists>sg ds fs. cs = sg @ ds @ chr8 CHR ''.'' # fs \<and> sign sg \<and> digits ds \<and> digits fs)"

text \<open>A fraction, \<open>E\<close> or \<open>e\<close>, a sign and one or more digits.\<close>

definition sci_token :: "u8 list \<Rightarrow> bool" where
  "sci_token cs \<longleftrightarrow> (\<exists>f e g xs. cs = f @ [e, g] @ xs \<and> float_token f
     \<and> (e = chr8 CHR ''E'' \<or> e = chr8 CHR ''e'') \<and> (g = chr8 CHR ''+'' \<or> g = chr8 CHR ''-'')
     \<and> xs \<noteq> [] \<and> digits xs)"

definition exp_prefix :: "u8 list \<Rightarrow> bool" where
  "exp_prefix cs \<longleftrightarrow> (\<exists>f e. cs = f @ [e] \<and> float_token f \<and> (e = chr8 CHR ''E'' \<or> e = chr8 CHR ''e''))"

definition exp_sign :: "u8 list \<Rightarrow> bool" where
  "exp_sign cs \<longleftrightarrow> (\<exists>p g. cs = p @ [g] \<and> exp_prefix p \<and> (g = chr8 CHR ''+'' \<or> g = chr8 CHR ''-''))"

text \<open>The letters of the grammar are different, and only digits are digits.\<close>

lemma token_chars:
  "\<not> ee_isdigit (chr8 CHR ''+'')" "\<not> ee_isdigit (chr8 CHR ''-'')" "\<not> ee_isdigit (chr8 CHR ''.'')"
  "\<not> ee_isdigit (chr8 CHR ''E'')" "\<not> ee_isdigit (chr8 CHR ''e'')" "\<not> ee_isdigit (chr8 CHR '','')"
  "\<not> ee_isdigit 0"
  "chr8 CHR ''+'' \<noteq> chr8 CHR ''-''" "chr8 CHR ''+'' \<noteq> chr8 CHR ''.''" "chr8 CHR ''-'' \<noteq> chr8 CHR ''.''"
  "chr8 CHR ''E'' \<noteq> chr8 CHR ''.''" "chr8 CHR ''e'' \<noteq> chr8 CHR ''.''"
  by (simp_all add: ee_isdigit_def chr8_def)

lemma digits_simps [simp]: "digits []" "digits (c # cs) \<longleftrightarrow> ee_isdigit c \<and> digits cs"
    "digits (cs @ ds) \<longleftrightarrow> digits cs \<and> digits ds"
  by (auto simp: digits_def)

lemma sign_snoc: "sign (cs @ [c]) \<longleftrightarrow> cs = [] \<and> (c = chr8 CHR ''+'' \<or> c = chr8 CHR ''-'')"
  by (auto simp: sign_def)

lemma int_token_snoc: "int_token (cs @ [c]) \<longleftrightarrow> ee_isdigit c \<and> (sign cs \<or> int_token cs)"
proof
  assume "int_token (cs @ [c])"
  then obtain sg ds where "cs @ [c] = sg @ ds" "sign sg" "ds \<noteq> []" "digits ds"
    by (auto simp: int_token_def)
  moreover from this obtain ys where "ds = ys @ [c]"
    by (cases ds rule: rev_cases) auto
  ultimately show "ee_isdigit c \<and> (sign cs \<or> int_token cs)"
    by (cases "ys = []") (auto simp: int_token_def)
next
  assume "ee_isdigit c \<and> (sign cs \<or> int_token cs)"
  then show "int_token (cs @ [c])"
  proof (elim conjE disjE)
    assume "ee_isdigit c" "sign cs"
    then show ?thesis unfolding int_token_def by (intro exI [of _ cs] exI [of _ "[c]"]) simp
  next
    assume "ee_isdigit c" "int_token cs"
    then obtain sg ds where "cs = sg @ ds" "sign sg" "ds \<noteq> []" "digits ds"
      by (auto simp: int_token_def)
    with \<open>ee_isdigit c\<close> show ?thesis
      unfolding int_token_def by (intro exI [of _ sg] exI [of _ "ds @ [c]"]) simp
  qed
qed

lemma float_token_snoc:
  "float_token (cs @ [c]) \<longleftrightarrow>
     c = chr8 CHR ''.'' \<and> (sign cs \<or> int_token cs) \<or> ee_isdigit c \<and> float_token cs"
proof
  assume "float_token (cs @ [c])"
  then obtain sg ds fs where f: "cs @ [c] = sg @ ds @ chr8 CHR ''.'' # fs" "sign sg" "digits ds" "digits fs"
    by (auto simp: float_token_def)
  show "c = chr8 CHR ''.'' \<and> (sign cs \<or> int_token cs) \<or> ee_isdigit c \<and> float_token cs"
  proof (cases fs rule: rev_cases)
    case Nil
    with f have "cs = sg @ ds" "c = chr8 CHR ''.''" by simp_all
    with f show ?thesis by (cases "ds = []") (auto simp: int_token_def)
  next
    case (snoc fs' c')
    with f have "cs = sg @ ds @ chr8 CHR ''.'' # fs'" "ee_isdigit c" "digits fs'" by auto
    with f show ?thesis by (auto simp: float_token_def)
  qed
next
  assume "c = chr8 CHR ''.'' \<and> (sign cs \<or> int_token cs) \<or> ee_isdigit c \<and> float_token cs"
  then show "float_token (cs @ [c])"
  proof (elim disjE conjE)
    assume "c = chr8 CHR ''.''" "sign cs"
    then show ?thesis unfolding float_token_def by (intro exI [of _ cs] exI [of _ "[]"]) simp
  next
    assume "c = chr8 CHR ''.''" "int_token cs"
    then obtain sg ds where "cs = sg @ ds" "sign sg" "digits ds" by (auto simp: int_token_def)
    with \<open>c = chr8 CHR ''.''\<close> show ?thesis
      unfolding float_token_def by (intro exI [of _ sg] exI [of _ ds] exI [of _ "[]"]) simp
  next
    assume "ee_isdigit c" "float_token cs"
    then obtain sg ds fs where "cs = sg @ ds @ chr8 CHR ''.'' # fs" "sign sg" "digits ds" "digits fs"
      by (auto simp: float_token_def)
    with \<open>ee_isdigit c\<close> show ?thesis
      unfolding float_token_def by (intro exI [of _ sg] exI [of _ ds] exI [of _ "fs @ [c]"]) simp
  qed
qed

lemma exp_prefix_snoc: "exp_prefix (cs @ [c]) \<longleftrightarrow> float_token cs \<and> (c = chr8 CHR ''E'' \<or> c = chr8 CHR ''e'')"
  by (auto simp: exp_prefix_def)

lemma exp_sign_snoc: "exp_sign (cs @ [c]) \<longleftrightarrow> exp_prefix cs \<and> (c = chr8 CHR ''+'' \<or> c = chr8 CHR ''-'')"
  by (auto simp: exp_sign_def)

lemma sci_token_iff: "sci_token cs \<longleftrightarrow> (\<exists>p xs. cs = p @ xs \<and> exp_sign p \<and> xs \<noteq> [] \<and> digits xs)"
proof
  assume "sci_token cs"
  then obtain f e g xs where c: "cs = f @ [e, g] @ xs" "float_token f" "xs \<noteq> []" "digits xs"
    and e: "e = chr8 CHR ''E'' \<or> e = chr8 CHR ''e''" and g: "g = chr8 CHR ''+'' \<or> g = chr8 CHR ''-''"
    unfolding sci_token_def by blast
  have "exp_prefix (f @ [e])" using c e unfolding exp_prefix_def by blast
  then have "exp_sign ((f @ [e]) @ [g])" using g unfolding exp_sign_def by blast
  with c show "\<exists>p xs. cs = p @ xs \<and> exp_sign p \<and> xs \<noteq> [] \<and> digits xs"
    by (intro exI [of _ "(f @ [e]) @ [g]"] exI [of _ xs]) simp
next
  assume "\<exists>p xs. cs = p @ xs \<and> exp_sign p \<and> xs \<noteq> [] \<and> digits xs"
  then obtain p xs where c: "cs = p @ xs" "exp_sign p" "xs \<noteq> []" "digits xs" by blast
  then obtain q g where "p = q @ [g]" "exp_prefix q" and g: "g = chr8 CHR ''+'' \<or> g = chr8 CHR ''-''"
    unfolding exp_sign_def by blast
  moreover from this obtain f e where "q = f @ [e]" "float_token f" "e = chr8 CHR ''E'' \<or> e = chr8 CHR ''e''"
    unfolding exp_prefix_def by blast
  ultimately show "sci_token cs"
    using c unfolding sci_token_def
    by (intro exI [of _ f] exI [of _ e] exI [of _ g] exI [of _ xs]) simp
qed

lemma sci_token_snoc: "sci_token (cs @ [c]) \<longleftrightarrow> ee_isdigit c \<and> (exp_sign cs \<or> sci_token cs)"
proof
  assume "sci_token (cs @ [c])"
  then obtain p xs where "cs @ [c] = p @ xs" "exp_sign p" "xs \<noteq> []" "digits xs"
    by (auto simp: sci_token_iff)
  moreover from this obtain ys where "xs = ys @ [c]"
    by (cases xs rule: rev_cases) auto
  ultimately show "ee_isdigit c \<and> (exp_sign cs \<or> sci_token cs)"
    by (cases "ys = []") (auto simp: sci_token_iff)
next
  assume "ee_isdigit c \<and> (exp_sign cs \<or> sci_token cs)"
  then show "sci_token (cs @ [c])"
  proof (elim conjE disjE)
    assume "ee_isdigit c" "exp_sign cs"
    then show ?thesis unfolding sci_token_iff by (intro exI [of _ cs] exI [of _ "[c]"]) simp
  next
    assume "ee_isdigit c" "sci_token cs"
    then obtain p xs where "cs = p @ xs" "exp_sign p" "xs \<noteq> []" "digits xs"
      by (auto simp: sci_token_iff)
    with \<open>ee_isdigit c\<close> show ?thesis
      unfolding sci_token_iff by (intro exI [of _ p] exI [of _ "xs @ [c]"]) simp
  qed
qed

lemma token_Nil: "\<not> int_token []" "\<not> float_token []" "\<not> exp_prefix []" "\<not> exp_sign []" "\<not> sci_token []"
  by (auto simp: int_token_def float_token_def exp_prefix_def exp_sign_def sci_token_iff)

text \<open>The state after a text, without the counters.\<close>

definition sm_step :: "core_state \<Rightarrow> u8 \<Rightarrow> core_state" where
  "sm_step st c = fst (state_body st c (\<lambda>_. 0))"

lemma state_body_sm: "state_body st c n = (sm_step st c, snd (state_body st c n))"
  by (cases st) (simp_all add: sm_step_def state_body_def)

definition run :: "u8 list \<Rightarrow> core_state" where
  "run cs = foldl sm_step CORE_START cs"

lemma run_snoc: "run (cs @ [c]) = sm_step (run cs) c"
  by (simp add: run_def)

text \<open>Every state is the set of texts that lead to it.\<close>

lemma run_grammar:
  "(run cs = CORE_START \<longleftrightarrow> cs = []) \<and> (run cs = CORE_S1 \<longleftrightarrow> cs \<noteq> [] \<and> sign cs)
    \<and> (run cs = CORE_INT \<longleftrightarrow> int_token cs) \<and> (run cs = CORE_FLOAT \<longleftrightarrow> float_token cs)
    \<and> (run cs = CORE_S2 \<longleftrightarrow> exp_prefix cs) \<and> (run cs = CORE_EXPONENT \<longleftrightarrow> exp_sign cs)
    \<and> (run cs = CORE_SCIENTIFIC \<longleftrightarrow> sci_token cs)"
proof (induction cs rule: rev_induct)
  case Nil
  then show ?case by (simp add: run_def token_Nil)
next
  case (snoc c cs)
  have s: "sign cs \<longleftrightarrow> run cs = CORE_START \<or> run cs = CORE_S1"
    using snoc by (auto simp: sign_def)
  show ?case
    unfolding run_snoc sign_snoc int_token_snoc float_token_snoc exp_prefix_snoc exp_sign_snoc
      sci_token_snoc s
    using snoc token_chars
    by (cases "run cs") (simp_all add: sm_step_def state_body_def, auto)
qed

section \<open>Scanning\<close>

lemma sm_step_invalid [simp]: "sm_step CORE_INVALID c = CORE_INVALID"
  by (simp add: sm_step_def state_body_def)

lemma run_invalid [simp]: "foldl sm_step CORE_INVALID cs = CORE_INVALID"
  by (induction cs) simp_all

text \<open>One token, up to the comma or the zero that ends it.\<close>

lemma scan_token:
  assumes "\<forall>c \<in> set cs. c \<noteq> 0 \<and> c \<noteq> chr8 CHR '',''" and "t = 0 \<or> t = chr8 CHR '',''"
    and "st \<noteq> CORE_INVALID"
  shows "\<exists>j n'. scan (pre @ cs @ t # rest) (length pre) st n = Some (foldl sm_step st cs, j, n')
    \<and> (foldl sm_step st cs \<noteq> CORE_INVALID \<longrightarrow> j = length pre + length cs + (if t = 0 then 0 else 1))
    \<and> (foldl sm_step st cs = CORE_INVALID \<longrightarrow> length pre < j \<and> j \<le> length pre + length cs)"
  using assms
proof (induction cs arbitrary: pre st n)
  case Nil
  then show ?case by (auto simp: scan.simps [of "pre @ t # rest"] nth_append)
next
  case (Cons c cs)
  let ?m = "pre @ (c # cs) @ t # rest"
  obtain n1 where b: "state_body st c n = (sm_step st c, n1)"
    using state_body_sm [of st c n] by blast
  have s: "scan ?m (length pre) st n = scan ?m (Suc (length pre)) (sm_step st c) n1"
    by (subst scan.simps) (use Cons.prems in \<open>simp add: nth_append b\<close>)
  show ?case
  proof (cases "sm_step st c = CORE_INVALID")
    case True
    have "scan ?m (Suc (length pre)) CORE_INVALID n1 = Some (CORE_INVALID, Suc (length pre), n1)"
      by (subst scan.simps) simp
    with s True show ?thesis by simp
  next
    case False
    have m: "?m = (pre @ [c]) @ cs @ t # rest" by simp
    from Cons.IH [OF _ Cons.prems(2) False, of "pre @ [c]" n1] Cons.prems(1)
    show ?thesis unfolding s unfolding m by auto
  qed
qed

lemma scan_total:
  assumes "0 \<in> set (drop i m)"
  shows "\<exists>st' j n'. scan m i st n = Some (st', j, n') \<and> (i = j \<or> 0 \<in> set (drop j m))"
  using assms
proof (induction m i st n rule: scan.induct)
  case (1 m i st n)
  have i: "i < length m" using "1.prems" by (cases "i < length m") auto
  have d: "drop i m = m ! i # drop (Suc i) m" using i by (simp add: Cons_nth_drop_Suc)
  show ?case
  proof (cases "m ! i = 0 \<or> st = CORE_INVALID \<or> m ! i = chr8 CHR '',''")
    case True
    with i "1.prems" d show ?thesis by (auto simp: scan.simps [of m i] chr8_def)
  next
    case False
    obtain st1 n1 where b: "state_body st (m ! i) n = (st1, n1)" by fastforce
    have "0 \<in> set (drop (Suc i) m)" using "1.prems" d False by auto
    with "1.IH" [OF _ _ _ b [symmetric] refl] False i obtain st2 j n2
      where "scan m (Suc i) st1 n1 = Some (st2, j, n2)" "Suc i = j \<or> 0 \<in> set (drop j m)" by auto
    with False i b \<open>0 \<in> set (drop (Suc i) m)\<close> show ?thesis by (auto simp: scan.simps [of m i])
  qed
qed

lemma scan_all_total: "0 \<in> set (drop p m) \<Longrightarrow> \<exists>r. scan_all m p f n = Some r"
proof (induction m p f n rule: scan_all.induct)
  case (1 m p f n)
  have p: "p < length m" using "1.prems" by (cases "p < length m") auto
  show ?case
  proof (cases "m ! p = 0")
    case True
    with p show ?thesis by (simp add: scan_all.simps [of m p])
  next
    case False
    obtain st j n1 where t: "core_state_transition m p n = Some (st, j, n1)"
      and z: "p = j \<or> 0 \<in> set (drop j m)"
      using scan_total [OF "1.prems"] unfolding core_state_transition_def by blast
    have "p \<noteq> j" using transition_progress [OF t False] by simp
    with z have "0 \<in> set (drop j m)" by simp
    from "1.IH" [OF _ False t refl refl this] p False t show ?thesis
      by (simp add: scan_all.simps [of m p])
  qed
qed

section \<open>Corruption\<close>

text \<open>The closed form of a pass with stride \<open>d\<close> from \<open>p\<close> on.\<close>

definition corrupted :: "u8 \<Rightarrow> nat \<Rightarrow> nat \<Rightarrow> nat \<Rightarrow> u8 list \<Rightarrow> u8 list" where
  "corrupted x d b p m = map (\<lambda>i. if p \<le> i \<and> i < b \<and> (i - p) mod d = 0 \<and> m ! i \<noteq> chr8 CHR '',''
      then m ! i XOR x else m ! i) [0..<length m]"

lemma corrupted_length [simp]: "length (corrupted x d b p m) = length m"
  by (simp add: corrupted_def)

lemma corrupted_nth: "i < length m \<Longrightarrow> corrupted x d b p m ! i =
    (if p \<le> i \<and> i < b \<and> (i - p) mod d = 0 \<and> m ! i \<noteq> chr8 CHR '','' then m ! i XOR x else m ! i)"
  by (simp add: corrupted_def)

lemma corrupt_closed:
  assumes "0 <s step" and "b \<le> length m"
  shows "corrupt seed step b p m = Some (corrupted (ucast seed) (nat (sint step)) b p m)"
  using assms
proof (induction seed step b p m rule: corrupt.induct)
  case (1 seed step b p m)
  let ?d = "nat (sint step)"
  have d: "0 < ?d" using "1.prems" by (simp add: word_sless_alt)
  show ?case
  proof (cases "p < b")
    case False
    then have "corrupted (ucast seed) ?d b p m = m"
      by (intro nth_equalityI) (auto simp: corrupted_nth)
    with False show ?thesis by (simp add: corrupt.simps [of seed step b p])
  next
    case True
    let ?m = "if m ! p \<noteq> chr8 CHR '','' then m[p := m ! p XOR ucast seed] else m"
    have "corrupt seed step b (p + ?d) ?m = Some (corrupted (ucast seed) ?d b (p + ?d) ?m)"
      using "1.IH" True "1.prems" by simp
    moreover have "corrupted (ucast seed) ?d b (p + ?d) ?m = corrupted (ucast seed) ?d b p m"
    proof (rule nth_equalityI)
      fix i assume "i < length (corrupted (ucast seed) ?d b (p + ?d) ?m)"
      then have i: "i < length m" by (simp split: if_splits)
      consider "i < p" | "i = p" | "p < i" "i < p + ?d" | "p + ?d \<le> i" by linarith
      then show "corrupted (ucast seed) ?d b (p + ?d) ?m ! i = corrupted (ucast seed) ?d b p m ! i"
      proof cases
        case 4
        then obtain k where "i = p + ?d + k" using le_Suc_ex by blast
        then have "(i - (p + ?d)) mod ?d = (i - p) mod ?d" "i - p \<noteq> 0" using d by simp_all
        with 4 i show ?thesis by (auto simp: corrupted_nth)
      qed (use i True d in \<open>auto simp: corrupted_nth\<close>)
    qed simp
    ultimately show ?thesis
      using True "1.prems" by (simp add: corrupt.simps [of seed step b p])
  qed
qed

lemma corrupted_twice:
  assumes "\<forall>i < b. m ! i \<noteq> chr8 CHR '','' \<longrightarrow> m ! i XOR x \<noteq> chr8 CHR '',''" and "b \<le> length m"
  shows "corrupted x d b p (corrupted x d b p m) = m"
proof (rule nth_equalityI)
  fix i assume "i < length (corrupted x d b p (corrupted x d b p m))"
  then have "i < length m" by simp
  with assms show "corrupted x d b p (corrupted x d b p m) ! i = m ! i"
    by (auto simp: corrupted_nth xor.assoc)
qed simp

section \<open>The generated text\<close>

text \<open>\<open>n\<close> patterns from a seed on, each followed by a comma.\<close>

primrec pattern_text :: "nat \<Rightarrow> s16 \<Rightarrow> u8 list" where
  "pattern_text 0 seed = []"
| "pattern_text (Suc n) seed = fst (choose_pattern seed) @ chr8 CHR '','' # pattern_text n (seed + 1)"

lemma two_bits: "k < 4 \<Longrightarrow> k = 0 \<or> k = 1 \<or> k = 2 \<or> k = (3 :: nat)"
  by arith

lemma pattern_index: "unat (signed_drop_bit 3 (seed :: s16) AND 0x3) < 4"
proof -
  have "signed_drop_bit 3 seed AND 0x3 \<le> (3 :: s16)" by (rule word_and_le1)
  then show ?thesis by (simp add: word_le_nat_alt)
qed

lemma choose_pattern_length:
  "snd (choose_pattern seed) = length (fst (choose_pattern seed))
    \<and> (snd (choose_pattern seed) = 4 \<or> snd (choose_pattern seed) = 8)"
  using two_bits [OF pattern_index [of seed]]
  by (auto simp: choose_pattern_def Let_def intpat_def floatpat_def scipat_def errpat_def str8_def
      numeral_2_eq_2 numeral_3_eq_3)

lemma init_loop_text:
  assumes "buf = fst (choose_pattern seed)" and "next = length buf" and "sz \<le> length m" and "tot < sz"
  shows "\<exists>n. init_loop sz tot next seed buf m =
      Some (tot + length (pattern_text n seed),
        take tot m @ pattern_text n seed @ drop (tot + length (pattern_text n seed)) m)
    \<and> tot + length (pattern_text n seed) < sz \<and> sz \<le> tot + length (pattern_text n seed) + 9"
  using assms
proof (induction sz tot "next" seed buf m rule: init_loop.induct)
  case (1 sz tot nx seed buf m)
  have nx: "nx = 4 \<or> nx = 8" using choose_pattern_length [of seed] "1.prems" by auto
  show ?case
  proof (cases "tot + nx + 1 < sz")
    case False
    with nx "1.prems" show ?thesis
      by (intro exI [of _ 0]) (auto simp: init_loop.simps [of sz tot])
  next
    case True
    obtain buf' nx' where p: "choose_pattern (seed + 1) = (buf', nx')" by fastforce
    let ?m = "take tot m @ (buf @ [chr8 CHR '','']) @ drop (tot + nx + 1) m"
    have st: "store_at tot (take nx buf @ [chr8 CHR '','']) m = Some ?m"
      using "1.prems" True by (simp add: store_at_def)
    have l: "init_loop sz tot nx seed buf m = init_loop sz (tot + nx + 1) nx' (seed + 1) buf' ?m"
      using True nx st p by (subst init_loop.simps) auto
    have m: "length ?m = length m" "take (tot + nx + 1) ?m = take tot m @ buf @ [chr8 CHR '','']"
      using "1.prems" True by simp_all
    have d: "drop (tot + nx + 1 + k) ?m = drop (tot + nx + 1 + k) m" for k
    proof -
      have "drop (tot + nx + 1 + k) ?m = drop k (drop (tot + nx + 1) ?m)"
        by (simp only: drop_drop add.commute)
      also have "drop (tot + nx + 1) ?m = drop (tot + nx + 1) m" using "1.prems" True by simp
      finally show ?thesis by (simp only: drop_drop add.commute)
    qed
    have IH: "\<exists>n. init_loop sz (tot + nx + 1) nx' (seed + 1) buf' ?m =
        Some (tot + nx + 1 + length (pattern_text n (seed + 1)), take (tot + nx + 1) ?m
          @ pattern_text n (seed + 1) @ drop (tot + nx + 1 + length (pattern_text n (seed + 1))) ?m)
      \<and> tot + nx + 1 + length (pattern_text n (seed + 1)) < sz
      \<and> sz \<le> tot + nx + 1 + length (pattern_text n (seed + 1)) + 9"
    proof (rule "1.IH")
      show "(if 0 < nx then store_at tot (take nx buf @ [chr8 CHR '','']) m else Some m) = Some ?m"
        using nx st by auto
      show "(buf', nx') = choose_pattern (seed + 1)" "buf' = fst (choose_pattern (seed + 1))"
        using p by simp_all
      show "nx' = length buf'" using p choose_pattern_length [of "seed + 1"] by simp
      show "sz \<le> length ?m" using m(1) "1.prems" by simp
      show "tot + nx + 1 = (if 0 < nx then tot + nx + 1 else tot)" using nx by auto
    qed (use True in simp_all)
    then obtain n where n: "init_loop sz (tot + nx + 1) nx' (seed + 1) buf' ?m =
        Some (tot + nx + 1 + length (pattern_text n (seed + 1)), take (tot + nx + 1) ?m
          @ pattern_text n (seed + 1) @ drop (tot + nx + 1 + length (pattern_text n (seed + 1))) ?m)"
      "tot + nx + 1 + length (pattern_text n (seed + 1)) < sz"
      "sz \<le> tot + nx + 1 + length (pattern_text n (seed + 1)) + 9"
      by blast
    have lt: "tot + length (pattern_text (Suc n) seed) = tot + nx + 1 + length (pattern_text n (seed + 1))"
      using "1.prems"(1,2) by simp
    have "init_loop sz tot nx seed buf m = Some (tot + length (pattern_text (Suc n) seed),
        take tot m @ pattern_text (Suc n) seed @ drop (tot + length (pattern_text (Suc n) seed)) m)"
      unfolding l lt n(1) m(2) d by (simp add: "1.prems"(1))
    with n(2,3) show ?thesis unfolding lt [symmetric] by blast
  qed
qed

lemma init_loop_start:
  assumes "1 < sz" and "sz \<le> length m"
  shows "init_loop (sz - 1) 0 0 seed [] m = (if 2 < sz then
      init_loop (sz - 1) 0 (length (fst (choose_pattern (seed + 1)))) (seed + 1) (fst (choose_pattern (seed + 1))) m
      else Some (0, m))"
  using choose_pattern_length [of "seed + 1"]
  by (subst init_loop.simps) (auto simp: Let_def split: prod.splits)

section \<open>The whole benchmark\<close>

text \<open>The second corruption pass undoes the first.\<close>

lemma bench_state_restores:
  assumes "0 <s step" and "blksize \<le> length m"
    and "\<forall>i < blksize. m ! i \<noteq> chr8 CHR '','' \<longrightarrow> m ! i XOR ucast seed \<noteq> chr8 CHR '',''"
    and "z < length m" and "m ! z = 0" and "blksize \<le> z \<or> z mod nat (sint step) \<noteq> 0 \<or> ucast seed = (0 :: u8)"
  shows "\<exists>crc'. core_bench_state blksize m seed seed step crc = Some (crc', m)"
proof -
  let ?m = "corrupted (ucast seed) (nat (sint step)) blksize 0 m"
  have m: "0 \<in> set (drop 0 m)" using assms(4,5) by (metis drop0 nth_mem)
  have "?m ! z = 0" using assms(4,5,6) by (auto simp: corrupted_nth)
  with assms(4) have m': "0 \<in> set (drop 0 ?m)" by (metis drop0 nth_mem corrupted_length)
  obtain f1 t1 where s1: "scan_all m 0 (\<lambda>_. 0) (\<lambda>_. 0) = Some (f1, t1)"
    using scan_all_total [OF m] by fastforce
  obtain f2 t2 where s2: "scan_all ?m 0 f1 t1 = Some (f2, t2)"
    using scan_all_total [OF m'] by fastforce
  have "corrupt seed step blksize 0 ?m = Some m"
    using corrupt_closed [OF assms(1), of blksize ?m] assms(2) corrupted_twice [OF assms(3,2)] by simp
  then show ?thesis
    using s1 s2 corrupt_closed [OF assms(1,2)] by (simp add: core_bench_state_def)
qed

section \<open>The generated block\<close>

lemma init_state_fills:
  assumes "0 < sz" and "sz < 0x80000000" and "unat sz \<le> length p"
  shows "\<exists>n k. core_init_state sz seed p =
      Some (pattern_text n (seed + 1) @ replicate k 0 @ drop (unat sz) p)
    \<and> length (pattern_text n (seed + 1)) + k = unat sz \<and> 1 \<le> k \<and> k \<le> 10"
proof (cases "2 < unat sz")
  case False
  have "0 < unat sz" using assms(1) by (simp add: word_less_nat_alt)
  with False assms have "init_loop (unat sz - 1) 0 0 seed [] p = Some (0, p)"
    by (subst init_loop.simps) auto
  with assms False \<open>0 < unat sz\<close> show ?thesis
    by (intro exI [of _ 0] exI [of _ "unat sz"]) (auto simp: core_init_state_def store_at_def not_le)
next
  case True
  let ?s = "seed + 1"
  have i: "init_loop (unat sz - 1) 0 0 seed [] p =
      init_loop (unat sz - 1) 0 (length (fst (choose_pattern ?s))) ?s (fst (choose_pattern ?s)) p"
    using init_loop_start [of "unat sz" p seed] True assms by simp
  have h: "unat sz - 1 \<le> length p" "0 < unat sz - 1" using True assms by simp_all
  obtain n where n: "init_loop (unat sz - 1) 0 0 seed [] p =
      Some (length (pattern_text n ?s), pattern_text n ?s @ drop (length (pattern_text n ?s)) p)"
    and l: "length (pattern_text n ?s) < unat sz - 1" "unat sz - 1 \<le> length (pattern_text n ?s) + 9"
    unfolding i using init_loop_text [OF refl refl h, of ?s] by (simp del: One_nat_def) blast
  have "core_init_state sz seed p = Some (pattern_text n ?s
      @ replicate (unat sz - length (pattern_text n ?s)) 0 @ drop (unat sz) p)"
    using n l assms by (auto simp: core_init_state_def store_at_def not_le)
  moreover have "length (pattern_text n ?s) + (unat sz - length (pattern_text n ?s)) = unat sz"
    "1 \<le> unat sz - length (pattern_text n ?s)" "unat sz - length (pattern_text n ?s) \<le> 10"
    using l by linarith+
  ultimately show ?thesis by blast
qed

section \<open>Properties\<close>

text \<open> C16: The scanner classifies a token, up to the comma or the zero byte that ends it, by the
  grammar: the returned state is the integer state exactly for an optional sign and digits, the float
  state exactly for a fraction, the scientific state exactly for a fraction with a signed exponent, and
  the start state exactly for the empty token. The pointer is then behind the comma or at the zero; for
  an invalid token it is inside the token. \<close>

theorem core_state_transition_grammar:
  assumes "\<forall>c \<in> set cs. c \<noteq> 0 \<and> c \<noteq> chr8 CHR '',''" and "t = 0 \<or> t = chr8 CHR '',''"
  shows "\<exists>st j n'. core_state_transition (pre @ cs @ t # rest) (length pre) n = Some (st, j, n')
    \<and> (st = CORE_INT \<longleftrightarrow> int_token cs) \<and> (st = CORE_FLOAT \<longleftrightarrow> float_token cs)
    \<and> (st = CORE_SCIENTIFIC \<longleftrightarrow> sci_token cs) \<and> (st = CORE_START \<longleftrightarrow> cs = [])
    \<and> (st \<noteq> CORE_INVALID \<longrightarrow> j = length pre + length cs + (if t = 0 then 0 else 1))
    \<and> (st = CORE_INVALID \<longrightarrow> length pre < j \<and> j \<le> length pre + length cs)"
proof -
  obtain j n' where s: "core_state_transition (pre @ cs @ t # rest) (length pre) n = Some (run cs, j, n')"
    and j: "run cs \<noteq> CORE_INVALID \<longrightarrow> j = length pre + length cs + (if t = 0 then 0 else 1)"
      "run cs = CORE_INVALID \<longrightarrow> length pre < j \<and> j \<le> length pre + length cs"
    using scan_token [OF assms, of CORE_START pre rest n]
    unfolding core_state_transition_def run_def by blast
  show ?thesis
    by (rule exI [of _ "run cs"], rule exI [of _ j], rule exI [of _ n'])
      (use s j run_grammar [of cs] in simp)
qed

lemma core_state_transition_grammar_witness:
  "\<exists>st j n'. core_state_transition (str8 ''7,'' @ str8 ''5.500e+3'' @ chr8 CHR '','' # [0]) (length (str8 ''7,'')) (\<lambda>_. 0)
      = Some (st, j, n')
    \<and> (st = CORE_INT \<longleftrightarrow> int_token (str8 ''5.500e+3'')) \<and> (st = CORE_FLOAT \<longleftrightarrow> float_token (str8 ''5.500e+3''))
    \<and> (st = CORE_SCIENTIFIC \<longleftrightarrow> sci_token (str8 ''5.500e+3'')) \<and> (st = CORE_START \<longleftrightarrow> str8 ''5.500e+3'' = [])
    \<and> (st \<noteq> CORE_INVALID \<longrightarrow> j = length (str8 ''7,'') + length (str8 ''5.500e+3'') + (if chr8 CHR '','' = 0 then 0 else 1))
    \<and> (st = CORE_INVALID \<longrightarrow> length (str8 ''7,'') < j \<and> j \<le> length (str8 ''7,'') + length (str8 ''5.500e+3''))"
  by (rule core_state_transition_grammar [of "str8 ''5.500e+3''" "chr8 CHR '',''" "str8 ''7,''"])
    (simp_all add: str8_def chr8_def)

text \<open> C36: The benchmark returns, and restores: when both seeds are equal, no byte of the
  corrupted range other than a comma becomes a comma, and a zero byte of the block escapes the corruption (it lies behind
  the range or between the strides, or the low byte of the seed is zero), the second pass undoes the
  first and the block is unchanged. \<close>

theorem core_bench_state_restores:
  assumes "0 <s step" and "blksize \<le> length m"
    and "\<forall>i < blksize. m ! i \<noteq> chr8 CHR '','' \<longrightarrow> m ! i XOR ucast seed \<noteq> chr8 CHR '',''"
    and "z < length m" and "m ! z = 0"
    and "blksize \<le> z \<or> z mod nat (sint step) \<noteq> 0 \<or> ucast seed = (0 :: u8)"
  shows "\<exists>crc'. core_bench_state blksize m seed seed step crc = Some (crc', m)"
  using assms by (rule bench_state_restores)

lemma core_bench_state_restores_witness:
  "\<exists>crc'. core_bench_state 3 [0x31, 0x2C, 0x32, 0] 3 3 2 0 = Some (crc', [0x31, 0x2C, 0x32, 0])"
proof (rule core_bench_state_restores [of 2 3 _ 3 3])
  have "i < 3 \<Longrightarrow> i = 0 \<or> i = 1 \<or> i = 2" for i :: nat by arith
  moreover have "[0x31, 0x2C, 0x32, 0] ! 0 XOR 3 \<noteq> (0x2C :: u8)"
    "[0x31, 0x2C, 0x32, 0] ! 1 XOR 3 \<noteq> (0x2C :: u8)" "[0x31, 0x2C, 0x32, 0] ! 2 XOR 3 \<noteq> (0x2C :: u8)"
    by simp_all
  ultimately have "i < 3 \<Longrightarrow> [0x31, 0x2C, 0x32, 0] ! i XOR 3 \<noteq> (0x2C :: u8)" for i :: nat by blast
  then show "\<forall>i < 3. [0x31, 0x2C, 0x32, 0] ! i \<noteq> chr8 CHR '',''
      \<longrightarrow> [0x31, 0x2C, 0x32, 0] ! i XOR ucast (3 :: s16) \<noteq> chr8 CHR '',''"
    by (simp add: chr8_def)
qed (simp_all add: word_sless_alt)

text \<open>The generator fills exactly \<open>size\<close> bytes: a sequence of the patterns chosen by the seeds
  \<open>seed + 1\<close>, \<open>seed + 2\<close>, ..., each followed by a comma, then between one and ten zero bytes; the
  bytes behind the block are unchanged. \<close>

theorem core_init_state_fills:
  assumes "0 < sz" and "sz < 0x80000000" and "unat sz \<le> length p"
  shows "\<exists>n k. core_init_state sz seed p =
      Some (pattern_text n (seed + 1) @ replicate k 0 @ drop (unat sz) p)
    \<and> length (pattern_text n (seed + 1)) + k = unat sz \<and> 1 \<le> k \<and> k \<le> 10"
  using assms by (rule init_state_fills)

lemma core_init_state_fills_witness:
  "\<exists>n k. core_init_state 12 0 (replicate 16 7) =
      Some (pattern_text n (0 + 1) @ replicate k 0 @ drop (unat (12 :: u32)) (replicate 16 7))
    \<and> length (pattern_text n (0 + 1)) + k = unat (12 :: u32) \<and> 1 \<le> k \<and> k \<le> 10"
  by (rule core_init_state_fills) simp_all

end
