(* ===== verification/Arrays.thy ===== *)
theory Arrays
  imports Prelude
begin

text \<open>
  Array accesses and counting loops of the C sources, as steps that may fail: an index outside the
  array has no value. \<open>for_loop n\<close> is \<open>for (i = 0; i < n; i++)\<close>. The lemmas give the state after a
  loop from an invariant, and the contents after a loop that stores one element per round.
\<close>

section \<open>Accesses and loops\<close>

definition rd :: "'a list \<Rightarrow> nat \<Rightarrow> 'a option" where
  "rd xs i = (if i < length xs then Some (xs ! i) else None)"

definition wr :: "'a list \<Rightarrow> nat \<Rightarrow> 'a \<Rightarrow> 'a list option" where
  "wr xs i v = (if i < length xs then Some (xs[i := v]) else None)"

primrec for_loop :: "nat \<Rightarrow> (nat \<Rightarrow> 's \<Rightarrow> 's option) \<Rightarrow> 's \<Rightarrow> 's option" where
  "for_loop 0 body s = Some s"
| "for_loop (Suc n) body s = Option.bind (for_loop n body s) (body n)"

lemma rd_Some [simp]: "i < length xs \<Longrightarrow> rd xs i = Some (xs ! i)"
  by (simp add: rd_def)

lemma wr_Some [simp]: "i < length xs \<Longrightarrow> wr xs i v = Some (xs[i := v])"
  by (simp add: wr_def)

lemma for_loop_invariant:
  assumes "P 0 s" and "\<And>i s. i < n \<Longrightarrow> P i s \<Longrightarrow> \<exists>s'. body i s = Some s' \<and> P (Suc i) s'"
  shows "\<exists>s'. for_loop n body s = Some s' \<and> P n s'"
  using assms(2)
proof (induction n)
  case 0
  show ?case using assms(1) by simp
next
  case (Suc n)
  then obtain s1 where "for_loop n body s = Some s1" "P n s1" by (metis less_SucI)
  moreover from Suc.prems [OF lessI this(2)] obtain s2 where "body n s1 = Some s2" "P (Suc n) s2"
    by blast
  ultimately show ?case by simp
qed

text \<open>A loop whose states are known in advance.\<close>

lemma for_loop_states:
  assumes "\<And>i. i < n \<Longrightarrow> body i (f i) = Some (f (Suc i))"
  shows "for_loop n body (f 0) = Some (f n)"
  using for_loop_invariant [of "\<lambda>i s. s = f i" "f 0" n body] assms by auto

section \<open>Filling an array from the left\<close>

definition fill :: "nat \<Rightarrow> (nat \<Rightarrow> 'a) \<Rightarrow> 'a list \<Rightarrow> 'a list" where
  "fill n g xs = map (\<lambda>k. if k < n then g k else xs ! k) [0..<length xs]"

lemma length_fill [simp]: "length (fill n g xs) = length xs"
  by (simp add: fill_def)

lemma nth_fill [simp]: "k < length xs \<Longrightarrow> fill n g xs ! k = (if k < n then g k else xs ! k)"
  by (simp add: fill_def)

lemma fill_0 [simp]: "fill 0 g xs = xs"
  by (rule nth_equalityI) simp_all

lemma fill_Suc: "k < length xs \<Longrightarrow> (fill k g xs)[k := g k] = fill (Suc k) g xs"
  by (rule nth_equalityI) (auto simp: nth_list_update)

lemma fill_update: "(fill k g xs)[k := a, k := b] = (fill k g xs)[k := b]"
  by simp

lemma grid_index: "i < n \<Longrightarrow> j < n \<Longrightarrow> i * n + j < n * (n :: nat)"
proof -
  assume "i < n" "j < n"
  then have "i * n + j < Suc i * n" by simp
  also have "\<dots> \<le> n * n" using \<open>i < n\<close> by (simp only: mult_le_mono1 Suc_leI)
  finally show ?thesis .
qed

text \<open>Two nested loops over an \<open>n\<close> by \<open>n\<close> matrix that store element \<open>i * n + j\<close> in round \<open>i, j\<close>.\<close>

lemma grid_loop:
  assumes "\<And>i j. i < n \<Longrightarrow> j < n \<Longrightarrow> body i j (f (i * n + j)) = Some (f (Suc (i * n + j)))"
  shows "for_loop n (\<lambda>i. for_loop n (body i)) (f 0) = Some (f (n * n))"
proof -
  have "for_loop n (body i) (f (i * n)) = Some (f (Suc i * n))" if "i < n" for i
    using for_loop_states [of n "body i" "\<lambda>j. f (i * n + j)"] assms [OF that]
    by (simp add: add.commute)
  then show ?thesis using for_loop_states [of n _ "\<lambda>i. f (i * n)"] by simp
qed

end
