(* ===== verification/CoreMark_Matrix.thy ===== *)
theory CoreMark_Matrix
  imports Arrays CoreMark_Util "HOL-Library.Signed_Division"
begin

text \<open>
  The matrix benchmark \<open>software/app/CoreMark/src/core_matrix.c\<close>: the initialisation
  (\<open>core_init_matrix\<close>), the operations on the matrices, and the benchmark function. A matrix is the
  list of its elements by rows, and an access past its end has no value. The indices \<open>i*N+j\<close> do not
  wrap, because the dimension computed by \<open>core_init_matrix\<close> keeps \<open>8*N*N\<close> below the block size.
  Signed overflow of the 32-bit sums wraps, as it does on the target.
\<close>

section \<open>Operations\<close>

definition matrix_clip :: "s32 \<Rightarrow> bool \<Rightarrow> s16" where
  "matrix_clip x y = ucast (if y then x AND 0x0ff else x AND 0x0ffff)"

definition matrix_big :: "s16 \<Rightarrow> s16" where
  "matrix_big x = ucast (0xf000 OR (scast x :: s32))"

definition bit_extract :: "s32 \<Rightarrow> nat \<Rightarrow> nat \<Rightarrow> u32" where
  "bit_extract x from to = signed_drop_bit from x AND NOT (push_bit to 0xffffffff)"

definition matrix_add_const :: "nat \<Rightarrow> s16 list \<Rightarrow> s16 \<Rightarrow> s16 list option" where
  "matrix_add_const N A val = for_loop N (\<lambda>i. for_loop N (\<lambda>j A. do {
     a \<leftarrow> rd A (i * N + j);
     wr A (i * N + j) (a + val) })) A"

definition matrix_mul_const :: "nat \<Rightarrow> s32 list \<Rightarrow> s16 list \<Rightarrow> s16 \<Rightarrow> s32 list option" where
  "matrix_mul_const N C A val = for_loop N (\<lambda>i. for_loop N (\<lambda>j C. do {
     a \<leftarrow> rd A (i * N + j);
     wr C (i * N + j) (scast a * scast val) })) C"

definition matrix_mul_vect :: "nat \<Rightarrow> s32 list \<Rightarrow> s16 list \<Rightarrow> s16 list \<Rightarrow> s32 list option" where
  "matrix_mul_vect N C A B = for_loop N (\<lambda>i C. do {
     C \<leftarrow> wr C i 0;
     for_loop N (\<lambda>j C. do {
       c \<leftarrow> rd C i; a \<leftarrow> rd A (i * N + j); b \<leftarrow> rd B j;
       wr C i (c + scast a * scast b) }) C }) C"

definition matrix_mul_matrix :: "nat \<Rightarrow> s32 list \<Rightarrow> s16 list \<Rightarrow> s16 list \<Rightarrow> s32 list option" where
  "matrix_mul_matrix N C A B = for_loop N (\<lambda>i. for_loop N (\<lambda>j C. do {
     C \<leftarrow> wr C (i * N + j) 0;
     for_loop N (\<lambda>k C. do {
       c \<leftarrow> rd C (i * N + j); a \<leftarrow> rd A (i * N + k); b \<leftarrow> rd B (k * N + j);
       wr C (i * N + j) (c + scast a * scast b) }) C })) C"

definition matrix_mul_matrix_bitextract ::
  "nat \<Rightarrow> s32 list \<Rightarrow> s16 list \<Rightarrow> s16 list \<Rightarrow> s32 list option" where
  "matrix_mul_matrix_bitextract N C A B = for_loop N (\<lambda>i. for_loop N (\<lambda>j C. do {
     C \<leftarrow> wr C (i * N + j) 0;
     for_loop N (\<lambda>k C. do {
       c \<leftarrow> rd C (i * N + j); a \<leftarrow> rd A (i * N + k); b \<leftarrow> rd B (k * N + j);
       let tmp = scast a * scast b;
       wr C (i * N + j) (c + bit_extract tmp 2 4 * bit_extract tmp 5 7) }) C })) C"

text \<open>The loop body of the sum; the state is \<open>tmp\<close>, \<open>prev\<close> and \<open>ret\<close>.\<close>

definition sum_body :: "s16 \<Rightarrow> s32 \<Rightarrow> s32 \<times> s32 \<times> s16 \<Rightarrow> s32 \<times> s32 \<times> s16" where
  "sum_body clipval cur = (\<lambda>(tmp, prev, ret).
     let tmp = tmp + cur;
         (tmp, ret) = (if scast clipval <s tmp then (0, ret + 10)
           else (tmp, ret + (if prev <s cur then 1 else 0)))
     in (tmp, cur, ret))"

definition matrix_sum :: "nat \<Rightarrow> s32 list \<Rightarrow> s16 \<Rightarrow> s16 option" where
  "matrix_sum N C clipval = do {
     (tmp, prev, ret) \<leftarrow> for_loop N (\<lambda>i. for_loop N (\<lambda>j s. do {
       cur \<leftarrow> rd C (i * N + j);
       Some (sum_body clipval cur s) })) (0, 0, 0);
     Some ret }"

text \<open>The result is the checksum and the final contents of \<open>C\<close> and \<open>A\<close>.\<close>

definition matrix_test ::
  "nat \<Rightarrow> s32 list \<Rightarrow> s16 list \<Rightarrow> s16 list \<Rightarrow> s16 \<Rightarrow> (u16 \<times> s32 list \<times> s16 list) option" where
  "matrix_test N C A B val = do {
     let crc = 0;
     let clipval = matrix_big val;
     A \<leftarrow> matrix_add_const N A val;
     C \<leftarrow> matrix_mul_const N C A val;
     s \<leftarrow> matrix_sum N C clipval;
     let crc = crc16 s crc;
     C \<leftarrow> matrix_mul_vect N C A B;
     s \<leftarrow> matrix_sum N C clipval;
     let crc = crc16 s crc;
     C \<leftarrow> matrix_mul_matrix N C A B;
     s \<leftarrow> matrix_sum N C clipval;
     let crc = crc16 s crc;
     C \<leftarrow> matrix_mul_matrix_bitextract N C A B;
     s \<leftarrow> matrix_sum N C clipval;
     let crc = crc16 s crc;
     A \<leftarrow> matrix_add_const N A (- val);
     Some (crc, C, A) }"

text \<open>The matrix parameters: the dimension, the addresses of the matrices and their contents.\<close>

record mat_params =
  mat_N :: nat
  addr_A :: u32
  addr_B :: u32
  addr_C :: u32
  mat_A :: "s16 list"
  mat_B :: "s16 list"
  mat_C :: "s32 list"

definition core_bench_matrix :: "mat_params \<Rightarrow> s16 \<Rightarrow> u16 \<Rightarrow> (u16 \<times> mat_params) option" where
  "core_bench_matrix p seed crc = do {
     (t, C, A) \<leftarrow> matrix_test (mat_N p) (mat_C p) (mat_A p) (mat_B p) seed;
     Some (crc16 t crc, p\<lparr>mat_C := C, mat_A := A\<rparr>) }"

section \<open>Initialisation\<close>

text \<open>The search for the dimension; the product can wrap, and then the loop need not end.\<close>

partial_function (option) dim_loop :: "u32 \<Rightarrow> u32 \<Rightarrow> u32 \<Rightarrow> u32 option" where
  "dim_loop blksize i j =
     (if j < blksize then dim_loop blksize (i + 1) ((i + 1) * (i + 1) * 2 * 4) else Some i)"

declare dim_loop.simps [code]

definition align_mem :: "u32 \<Rightarrow> u32" where
  "align_mem x = (x + 4 - 1) AND (- 4)"

text \<open>\<open>%\<close> of C truncates towards zero.\<close>

definition srem32 :: "s32 \<Rightarrow> s32 \<Rightarrow> s32" where
  "srem32 a b = word_of_int (sint a smod sint b)"

text \<open>One element of each matrix; the state is \<open>seed\<close>, \<open>order\<close>, \<open>A\<close> and \<open>B\<close>.\<close>

definition init_element ::
  "nat \<Rightarrow> s32 \<times> s32 \<times> s16 list \<times> s16 list \<Rightarrow> (s32 \<times> s32 \<times> s16 list \<times> s16 list) option" where
  "init_element k = (\<lambda>(seed, order, A, B). do {
     let seed = srem32 (order * seed) 65536;
     let val = (ucast (seed + order) :: s16);
     let val = matrix_clip (scast val) False;
     B \<leftarrow> wr B k val;
     let val = (ucast (scast val + order) :: s16);
     let val = matrix_clip (scast val) True;
     A \<leftarrow> wr A k val;
     Some (seed, order + 1, A, B) })"

text \<open>
  The previous contents of the three regions are parameters; they must have room for the matrices.
\<close>

definition core_init_matrix ::
  "u32 \<Rightarrow> u32 \<Rightarrow> s32 \<Rightarrow> s16 list \<Rightarrow> s16 list \<Rightarrow> s32 list \<Rightarrow> mat_params option" where
  "core_init_matrix blksize memblk seed A0 B0 C0 = do {
     let seed = (if seed = 0 then 1 else seed);
     i \<leftarrow> dim_loop blksize 0 0;
     let N = i - 1;
     let A = align_mem memblk;
     let B = A + 2 * (N * N);
     let n = unat N;
     (_, _, mA, mB) \<leftarrow> for_loop n (\<lambda>i. for_loop n (\<lambda>j. init_element (i * n + j))) (seed, 1, A0, B0);
     Some \<lparr>mat_N = n, addr_A = A, addr_B = B, addr_C = align_mem (B + 2 * (N * N)),
       mat_A = mA, mat_B = mB, mat_C = C0\<rparr> }"

section \<open>The operations are in bounds and compute the matrix algebra\<close>

text \<open>An inner loop that accumulates one element.\<close>

lemma accumulate:
  assumes "p < length C" and "\<And>k. k < n \<Longrightarrow> ai k < length A" and "\<And>k. k < n \<Longrightarrow> bi k < length B"
  shows "for_loop n (\<lambda>k C. do { c \<leftarrow> rd C p; a \<leftarrow> rd A (ai k); b \<leftarrow> rd B (bi k);
           wr C p (c + h a b) }) (C[p := 0])
    = Some (C[p := (\<Sum>k<n. h (A ! ai k) (B ! bi k) :: s32)])"
  using for_loop_states [of n _ "\<lambda>m. C[p := (\<Sum>k<m. h (A ! ai k) (B ! bi k))]"] assms
  by (simp add: add.commute)

lemma matrix_add_const_fill:
  assumes "n * n \<le> length A"
  shows "matrix_add_const n A val = Some (fill (n * n) (\<lambda>k. A ! k + val) A)"
proof -
  have "for_loop n (\<lambda>i. for_loop n (\<lambda>j A. do { a \<leftarrow> rd A (i * n + j); wr A (i * n + j) (a + val) }))
      (fill 0 (\<lambda>k. A ! k + val) A) = Some (fill (n * n) (\<lambda>k. A ! k + val) A)"
  proof (rule grid_loop)
    fix i j assume "i < n" "j < n"
    then have "i * n + j < length A" using grid_index [of i n j] assms by simp
    then show "do { a \<leftarrow> rd (fill (i * n + j) (\<lambda>k. A ! k + val) A) (i * n + j);
        wr (fill (i * n + j) (\<lambda>k. A ! k + val) A) (i * n + j) (a + val) }
      = Some (fill (Suc (i * n + j)) (\<lambda>k. A ! k + val) A)"
      by (simp add: fill_Suc [symmetric])
  qed
  then show ?thesis by (simp add: matrix_add_const_def)
qed

lemma matrix_add_const_undo:
  assumes "n * n \<le> length A"
  shows "matrix_add_const n (fill (n * n) (\<lambda>k. A ! k + val) A) (- val) = Some A"
  unfolding matrix_add_const_fill [of n "fill (n * n) (\<lambda>k. A ! k + val) A" "- val", simplified, OF assms]
  by (simp, rule nth_equalityI) simp_all

lemma matrix_mul_const_fill:
  assumes "n * n \<le> length A" and "n * n \<le> length C"
  shows "matrix_mul_const n C A val = Some (fill (n * n) (\<lambda>k. scast (A ! k) * scast val) C)"
proof -
  let ?g = "\<lambda>k. scast (A ! k) * scast val :: s32"
  have "for_loop n (\<lambda>i. for_loop n (\<lambda>j C. do { a \<leftarrow> rd A (i * n + j); wr C (i * n + j) (scast a * scast val) }))
      (fill 0 ?g C) = Some (fill (n * n) ?g C)"
  proof (rule grid_loop)
    fix i j assume "i < n" "j < n"
    then have "i * n + j < length A" "i * n + j < length C" using grid_index [of i n j] assms by simp_all
    then show "do { a \<leftarrow> rd A (i * n + j); wr (fill (i * n + j) ?g C) (i * n + j) (scast a * scast val) }
      = Some (fill (Suc (i * n + j)) ?g C)"
      by (simp add: fill_Suc [symmetric])
  qed
  then show ?thesis by (simp add: matrix_mul_const_def)
qed

lemma matrix_mul_vect_fill:
  assumes "n * n \<le> length A" and "n \<le> length B" and "n \<le> length C"
  shows "matrix_mul_vect n C A B = Some (fill n (\<lambda>i. \<Sum>j<n. scast (A ! (i * n + j)) * scast (B ! j)) C)"
proof -
  let ?g = "\<lambda>i. \<Sum>j<n. scast (A ! (i * n + j)) * scast (B ! j) :: s32"
  have "for_loop n (\<lambda>i C. do {
       C \<leftarrow> wr C i 0;
       for_loop n (\<lambda>j C. do { c \<leftarrow> rd C i; a \<leftarrow> rd A (i * n + j); b \<leftarrow> rd B j;
         wr C i (c + scast a * scast b) }) C }) (fill 0 ?g C) = Some (fill n ?g C)"
  proof (rule for_loop_states)
    fix i assume i: "i < n"
    then have "i * n + j < length A" if "j < n" for j using grid_index [of i n j] assms that by simp
    then show "do {
       C \<leftarrow> wr (fill i ?g C) i 0;
       for_loop n (\<lambda>j C. do { c \<leftarrow> rd C i; a \<leftarrow> rd A (i * n + j); b \<leftarrow> rd B j;
         wr C i (c + scast a * scast b) }) C } = Some (fill (Suc i) ?g C)"
      using i assms by (simp add: accumulate [where bi = "\<lambda>j. j" and h = "\<lambda>a b. scast a * scast b"]
          fill_Suc [symmetric])
  qed
  then show ?thesis by (simp add: matrix_mul_vect_def)
qed

text \<open>The two matrix products differ in the product of two elements only.\<close>

lemma matrix_product_fill:
  assumes "n * n \<le> length A" and "n * n \<le> length B" and "n * n \<le> length C"
  shows "for_loop n (\<lambda>i. for_loop n (\<lambda>j C. do {
       C \<leftarrow> wr C (i * n + j) 0;
       for_loop n (\<lambda>k C. do { c \<leftarrow> rd C (i * n + j); a \<leftarrow> rd A (i * n + k); b \<leftarrow> rd B (k * n + j);
         wr C (i * n + j) (c + h a b) }) C })) C
    = Some (fill (n * n) (\<lambda>p. \<Sum>k<n. h (A ! (p div n * n + k)) (B ! (k * n + p mod n)) :: s32) C)"
proof -
  let ?g = "\<lambda>p. \<Sum>k<n. h (A ! (p div n * n + k)) (B ! (k * n + p mod n)) :: s32"
  have "for_loop n (\<lambda>i. for_loop n (\<lambda>j C. do {
       C \<leftarrow> wr C (i * n + j) 0;
       for_loop n (\<lambda>k C. do { c \<leftarrow> rd C (i * n + j); a \<leftarrow> rd A (i * n + k); b \<leftarrow> rd B (k * n + j);
         wr C (i * n + j) (c + h a b) }) C })) (fill 0 ?g C) = Some (fill (n * n) ?g C)"
  proof (rule grid_loop)
    fix i j assume ij: "i < n" "j < n"
    have p: "i * n + j < length C" using grid_index [OF ij] assms by simp
    have d: "(i * n + j) div n = i" "(i * n + j) mod n = j" using ij by simp_all
    have a: "i * n + k < length A" "k * n + j < length B" if "k < n" for k
      using grid_index [of i n k] grid_index [of k n j] assms ij that by simp_all
    show "do {
       C \<leftarrow> wr (fill (i * n + j) ?g C) (i * n + j) 0;
       for_loop n (\<lambda>k C. do { c \<leftarrow> rd C (i * n + j); a \<leftarrow> rd A (i * n + k); b \<leftarrow> rd B (k * n + j);
         wr C (i * n + j) (c + h a b) }) C } = Some (fill (Suc (i * n + j)) ?g C)"
      using p a ij by (simp add: accumulate fill_Suc [symmetric] d)
  qed
  then show ?thesis by simp
qed

lemma matrix_mul_matrix_fill:
  assumes "n * n \<le> length A" and "n * n \<le> length B" and "n * n \<le> length C"
  shows "matrix_mul_matrix n C A B = Some (fill (n * n)
    (\<lambda>p. \<Sum>k<n. scast (A ! (p div n * n + k)) * scast (B ! (k * n + p mod n))) C)"
  using matrix_product_fill [OF assms, of "\<lambda>a b. scast a * scast b"]
  by (simp add: matrix_mul_matrix_def)

definition extract_product :: "s16 \<Rightarrow> s16 \<Rightarrow> s32" where
  "extract_product a b = bit_extract (scast a * scast b) 2 4 * bit_extract (scast a * scast b) 5 7"

lemma matrix_mul_matrix_bitextract_fill:
  assumes "n * n \<le> length A" and "n * n \<le> length B" and "n * n \<le> length C"
  shows "matrix_mul_matrix_bitextract n C A B = Some (fill (n * n)
    (\<lambda>p. \<Sum>k<n. extract_product (A ! (p div n * n + k)) (B ! (k * n + p mod n))) C)"
  using matrix_product_fill [OF assms, of extract_product]
  by (simp add: matrix_mul_matrix_bitextract_def extract_product_def Let_def)

lemma matrix_sum_fold:
  assumes "n * n \<le> length C"
  shows "matrix_sum n C clipval = Some (snd (snd (fold (sum_body clipval) (take (n * n) C) (0, 0, 0))))"
proof -
  let ?f = "\<lambda>k. fold (sum_body clipval) (take k C) (0, 0, 0)"
  have "for_loop n (\<lambda>i. for_loop n (\<lambda>j s. do { cur \<leftarrow> rd C (i * n + j); Some (sum_body clipval cur s) })) (?f 0)
      = Some (?f (n * n))"
  proof (rule grid_loop)
    fix i j assume "i < n" "j < n"
    then have "i * n + j < length C" using grid_index [of i n j] assms by simp
    then show "do { cur \<leftarrow> rd C (i * n + j); Some (sum_body clipval cur (?f (i * n + j))) }
        = Some (?f (Suc (i * n + j)))"
      by (simp add: take_Suc_conv_app_nth)
  qed
  then show ?thesis by (simp add: matrix_sum_def split: prod.splits)
qed

section \<open>The dimension and the layout\<close>

lemma dim_loop_least:
  fixes b :: u32
  assumes "b \<le> 0x80000000" and n: "n = (LEAST n. unat b \<le> 8 * (n * n))" and "i \<le> n"
  shows "dim_loop b (of_nat i) (of_nat (8 * (i * i))) = Some (of_nat n)"
  using assms(3)
proof (induction "n - i" arbitrary: i)
  case 0
  have b: "unat b \<le> 0x80000000" using assms(1) by (simp add: word_le_nat_alt)
  have ex: "unat b \<le> 8 * (16384 * 16384)" using b by simp
  then have "n \<le> 16384" unfolding n by (rule Least_le)
  then have "8 * (n * n) \<le> 8 * (16384 * 16384)" by (intro mult_le_mono) simp_all
  then have l: "unat (of_nat (8 * (n * n)) :: u32) = 8 * (n * n)"
    by (simp add: unat_of_nat take_bit_nat_eq_self del: of_nat_mult)
  have "unat b \<le> 8 * (n * n)" unfolding n using ex by (rule LeastI)
  then have "\<not> of_nat (8 * (n * n)) < b" using l by (simp add: word_less_nat_alt)
  with 0 show ?case by (simp add: dim_loop.simps del: of_nat_mult)
next
  case (Suc d)
  then have "i < n" by simp
  then have lt: "8 * (i * i) < unat b" using not_less_Least [of i "\<lambda>n. unat b \<le> 8 * (n * n)"] n by simp
  moreover have "unat b < 2 ^ 32" using unsigned_less [of b, where 'a = nat] by simp
  ultimately have "unat (of_nat (8 * (i * i)) :: u32) = 8 * (i * i)"
    by (simp add: unat_of_nat take_bit_nat_eq_self del: of_nat_mult)
  with lt have "of_nat (8 * (i * i)) < b" by (simp add: word_less_nat_alt)
  moreover have "(of_nat i + 1) * (of_nat i + 1) * 2 * 4 = (of_nat (8 * (Suc i * Suc i)) :: u32)"
    by (simp add: algebra_simps)
  moreover have "dim_loop b (of_nat (Suc i)) (of_nat (8 * (Suc i * Suc i))) = Some (of_nat n)"
    using Suc.hyps \<open>i < n\<close> by (simp del: of_nat_mult of_nat_Suc mult_Suc mult_Suc_right)
  ultimately show ?case
    by (subst dim_loop.simps) (simp add: add.commute del: of_nat_mult)
qed

lemma dim_loop_result:
  fixes b :: u32
  assumes "0 < b" and "b \<le> 0x80000000"
  shows "\<exists>n. dim_loop b 0 0 = Some (of_nat (Suc n)) \<and> 8 * (n * n) < unat b \<and> unat b \<le> 8 * (Suc n * Suc n)
    \<and> n < 16384"
proof -
  define m where "m = (LEAST n. unat b \<le> 8 * (n * n))"
  have b: "0 < unat b" "unat b \<le> 0x80000000"
    using assms by (simp_all add: word_le_nat_alt word_less_nat_alt)
  have ex: "unat b \<le> 8 * (16384 * 16384)" using b by simp
  then have le: "m \<le> 16384" unfolding m_def by (rule Least_le)
  have ge: "unat b \<le> 8 * (m * m)" unfolding m_def using ex by (rule LeastI)
  with b(1) obtain n where n: "m = Suc n" by (cases m) auto
  have "8 * (n * n) < unat b"
    using not_less_Least [of n "\<lambda>n. unat b \<le> 8 * (n * n)"] n m_def by simp
  moreover have "dim_loop b 0 0 = Some (of_nat m)"
    using dim_loop_least [OF assms(2) m_def, of 0] by simp
  ultimately show ?thesis using n ge le by (intro exI [of _ n]) simp
qed

lemma align_mem_unat:
  assumes "unat x + 3 < 2 ^ 32"
  shows "unat (align_mem x) = 4 * ((unat x + 3) div 4)"
proof -
  have m: "(- 4 :: u32) = NOT (mask 2)" by (simp add: mask_eq_exp_minus_1)
  have s: "2 \<le> k \<Longrightarrow> Suc (Suc (k - 2)) = k" for k :: nat by simp
  have p: "y AND NOT (mask 2) = push_bit 2 (drop_bit 2 y)" for y :: u32
    using s by (intro bit_word_eqI) (auto simp: bit_simps not_less)
  have u: "unat (x + 3) = unat x + 3" using assms by (simp add: unat_word_ariths)
  have "x + 4 - 1 = x + 3" by simp
  then have "align_mem x = push_bit 2 (drop_bit 2 (x + 3))"
    unfolding align_mem_def m p by (rule arg_cong)
  then have "unat (align_mem x) = unat (push_bit 2 (drop_bit 2 (x + 3)))" by (rule arg_cong)
  also have "\<dots> = take_bit LENGTH(32) (push_bit 2 (drop_bit 2 (unat (x + 3))))"
    by (simp only: unsigned_push_bit_eq unat_drop_bit_eq)
  also have "\<dots> = take_bit 32 (4 * (unat (x + 3) div 4))"
    by (simp add: push_bit_eq_mult drop_bit_eq_div mult.commute)
  finally have "unat (align_mem x) = take_bit 32 (4 * (unat (x + 3) div 4))" .
  moreover have "4 * (unat (x + 3) div 4) < 2 ^ 32"
    using unsigned_less [of "x + 3", where 'a = nat] by simp
  ultimately show ?thesis unfolding u by (simp add: take_bit_nat_eq_self)
qed

lemma clip_low: "unat (matrix_clip x True) < 256"
proof -
  have m: "(0xff :: u32) = mask 8" by (simp add: mask_eq_exp_minus_1)
  have "matrix_clip x True = take_bit 8 (ucast x)"
    unfolding matrix_clip_def m by (simp, rule bit_word_eqI) (auto simp: bit_simps)
  then show ?thesis using take_bit_nat_less_exp [of 8] by (simp add: unsigned_take_bit_eq)
qed

lemma init_element_stores:
  assumes "k < length A" and "k < length B"
  shows "\<exists>seed' a b. init_element k (seed, order, A, B) = Some (seed', order + 1, A[k := a], B[k := b])
    \<and> unat a < 256"
  using assms clip_low by (auto simp: init_element_def Let_def)

lemma init_loop_total:
  assumes "n * n \<le> length A" and "n * n \<le> length B"
  shows "\<exists>seed' order' A' B'. for_loop n (\<lambda>i. for_loop n (\<lambda>j. init_element (i * n + j))) (seed, 1, A, B)
      = Some (seed', order', A', B') \<and> (\<forall>k < n * n. unat (A' ! k) < 256)
    \<and> length A' = length A \<and> length B' = length B"
proof -
  define P where "P k s \<longleftrightarrow> (case s of (seed, order, A', B') \<Rightarrow> length A' = length A \<and> length B' = length B
    \<and> (\<forall>l < k. unat (A' ! l) < 256))" for k and s :: "s32 \<times> s32 \<times> s16 list \<times> s16 list"
  have step: "\<exists>s'. init_element (i * n + j) s = Some s' \<and> P (i * n + Suc j) s'"
    if ij: "i < n" "j < n" and p: "P (i * n + j) s" for i j s
  proof -
    obtain sd od A' B' where s: "s = (sd, od, A', B')" by (cases s) auto
    have "i * n + j < length A'" "i * n + j < length B'"
      using grid_index [OF ij] assms p s by (simp_all add: P_def)
    from init_element_stores [OF this, of sd od] obtain sd' a b
      where "init_element (i * n + j) s = Some (sd', od + 1, A'[i * n + j := a], B'[i * n + j := b])"
        "unat a < 256" unfolding s by blast
    with p s \<open>i * n + j < length A'\<close> show ?thesis
      by (auto simp: P_def nth_list_update less_Suc_eq)
  qed
  have row: "\<exists>s'. for_loop n (\<lambda>j. init_element (i * n + j)) s = Some s' \<and> P (Suc i * n) s'"
    if "i < n" "P (i * n) s" for i s
    using for_loop_invariant [of "\<lambda>j. P (i * n + j)" s n] step [OF that(1)] that(2)
    by (simp add: add.commute)
  have "P (0 * n) (seed, 1, A, B)" by (simp add: P_def)
  then have "\<exists>s'. for_loop n (\<lambda>i. for_loop n (\<lambda>j. init_element (i * n + j))) (seed, 1, A, B) = Some s'
      \<and> P (n * n) s'"
    by (rule for_loop_invariant [of "\<lambda>i. P (i * n)"]) (rule row)
  then obtain s' where "for_loop n (\<lambda>i. for_loop n (\<lambda>j. init_element (i * n + j))) (seed, 1, A, B) = Some s'"
    "P (n * n) s'" by blast
  then show ?thesis by (cases s') (auto simp: P_def)
qed

text \<open>The three matrices follow each other from an aligned address.\<close>

lemma matrix_addresses:
  assumes "unat memblk + 8 * (n * n) + 4 \<le> 2 ^ 32" and "N = (of_nat n :: u32)"
  shows "unat memblk \<le> unat (align_mem memblk) \<and> unat (align_mem memblk) mod 4 = 0
    \<and> unat (align_mem memblk) \<le> unat memblk + 3
    \<and> unat (align_mem memblk + 2 * (N * N)) = unat (align_mem memblk) + 2 * (n * n)
    \<and> unat (align_mem (align_mem memblk + 2 * (N * N) + 2 * (N * N))) = unat (align_mem memblk) + 4 * (n * n)"
proof -
  let ?A = "align_mem memblk"
  have ar: "m \<le> 4 * ((m + 3) div 4) \<and> 4 * ((m + 3) div 4) \<le> m + 3" for m :: nat by presburger
  have A: "unat ?A = 4 * ((unat memblk + 3) div 4)"
    using assms(1) by (intro align_mem_unat) linarith
  have b: "unat memblk \<le> unat ?A" "unat ?A mod 4 = 0" "unat ?A \<le> unat memblk + 3"
    using ar [of "unat memblk"] unfolding A by simp_all
  have w: "unat (?A + of_nat k) = unat ?A + k" if "k \<le> 8 * (n * n)" for k
  proof -
    have "?A + of_nat k = of_nat (unat ?A + k)" by simp
    moreover have "unat ?A + k < 2 ^ 32" using b(3) assms(1) that by linarith
    ultimately show ?thesis by (simp add: unat_of_nat take_bit_nat_eq_self del: of_nat_add)
  qed
  have B: "?A + 2 * (N * N) = ?A + of_nat (2 * (n * n))"
    and C: "?A + 2 * (N * N) + 2 * (N * N) = ?A + of_nat (4 * (n * n))"
    by (simp_all add: assms(2))
  have uC: "unat (?A + of_nat (4 * (n * n))) = unat ?A + 4 * (n * n)" by (rule w) simp
  obtain q where q: "unat ?A = 4 * q" using A by blast
  have "4 * (q + n * n) < 2 ^ 32" using b(3) assms(1) unfolding q by simp
  moreover have "4 * m < 2 ^ 32 \<Longrightarrow> 4 * m + 3 < 2 ^ 32" "4 * ((4 * m + 3) div 4) = 4 * m" for m :: nat
    by simp_all
  moreover have u: "unat (?A + of_nat (4 * (n * n))) = 4 * (q + n * n)" using uC q by simp
  ultimately have "unat (align_mem (?A + of_nat (4 * (n * n)))) = 4 * (q + n * n)"
    using align_mem_unat [of "?A + of_nat (4 * (n * n))"] unfolding u by metis
  then have "unat (align_mem (?A + of_nat (4 * (n * n)))) = unat ?A + 4 * (n * n)" using q by simp
  with b w [of "2 * (n * n)"] show ?thesis unfolding C unfolding B by simp
qed

section \<open>Only the result matrix changes\<close>

definition same_tail :: "nat \<Rightarrow> s32 list \<Rightarrow> s32 list \<Rightarrow> bool" where
  "same_tail k C C' \<longleftrightarrow> length C' = length C \<and> drop k C' = drop k C"

lemma same_tail_trans: "same_tail k C C' \<Longrightarrow> same_tail k C' C'' \<Longrightarrow> same_tail k C C''"
  by (simp add: same_tail_def)

lemma same_tail_fill: "m \<le> k \<Longrightarrow> same_tail k C (fill m g C)"
  unfolding same_tail_def by (simp, intro nth_equalityI) simp_all

lemma matrix_steps:
  assumes "n * n \<le> length A" and "n * n \<le> length B" and "n * n \<le> length C"
  shows "\<exists>C'. matrix_mul_const n C A val = Some C' \<and> same_tail (n * n) C C'"
    and "\<exists>C'. matrix_mul_vect n C A B = Some C' \<and> same_tail (n * n) C C'"
    and "\<exists>C'. matrix_mul_matrix n C A B = Some C' \<and> same_tail (n * n) C C'"
    and "\<exists>C'. matrix_mul_matrix_bitextract n C A B = Some C' \<and> same_tail (n * n) C C'"
    and "\<exists>r. matrix_sum n C clip = Some r"
proof -
  have n: "n \<le> n * n" by (cases n) simp_all
  with assms have "n \<le> length B" "n \<le> length C" by linarith+
  from matrix_mul_vect_fill [OF assms(1) this] n
  show "\<exists>C'. matrix_mul_vect n C A B = Some C' \<and> same_tail (n * n) C C'" by (simp add: same_tail_fill)
qed (use assms in \<open>simp_all add: matrix_mul_const_fill matrix_mul_matrix_fill
  matrix_mul_matrix_bitextract_fill matrix_sum_fold same_tail_fill\<close>)

lemma matrix_test_total:
  assumes "n * n \<le> length A" and "n * n \<le> length B" and "n * n \<le> length C"
  shows "\<exists>crc C'. matrix_test n C A B val = Some (crc, C', A) \<and> same_tail (n * n) C C'"
proof -
  let ?A = "fill (n * n) (\<lambda>k. A ! k + val) A"
  let ?c = "matrix_big val"
  have A: "n * n \<le> length ?A" using assms by simp
  obtain C1 where 1: "matrix_mul_const n C ?A val = Some C1" "same_tail (n * n) C C1"
    using matrix_steps(1) [OF A assms(2,3)] by blast
  then have l1: "n * n \<le> length C1" using assms(3) by (simp add: same_tail_def)
  obtain C2 where 2: "matrix_mul_vect n C1 ?A B = Some C2" "same_tail (n * n) C1 C2"
    using matrix_steps(2) [OF A assms(2) l1] by blast
  then have l2: "n * n \<le> length C2" using l1 by (simp add: same_tail_def)
  obtain C3 where 3: "matrix_mul_matrix n C2 ?A B = Some C3" "same_tail (n * n) C2 C3"
    using matrix_steps(3) [OF A assms(2) l2] by blast
  then have l3: "n * n \<le> length C3" using l2 by (simp add: same_tail_def)
  obtain C4 where 4: "matrix_mul_matrix_bitextract n C3 ?A B = Some C4" "same_tail (n * n) C3 C4"
    using matrix_steps(4) [OF A assms(2) l3] by blast
  then have l4: "n * n \<le> length C4" using l3 by (simp add: same_tail_def)
  obtain r1 r2 r3 r4 where r: "matrix_sum n C1 ?c = Some r1" "matrix_sum n C2 ?c = Some r2"
    "matrix_sum n C3 ?c = Some r3" "matrix_sum n C4 ?c = Some r4"
    using matrix_steps(5) [OF A assms(2) l1] matrix_steps(5) [OF A assms(2) l2]
      matrix_steps(5) [OF A assms(2) l3] matrix_steps(5) [OF A assms(2) l4] by blast
  have "same_tail (n * n) C C4"
    using 1(2) 2(2) 3(2) 4(2) by (blast intro: same_tail_trans)
  moreover have "\<exists>crc. matrix_test n C A B val = Some (crc, C4, A)"
    by (simp add: matrix_test_def Let_def matrix_add_const_fill [OF assms(1)] 1(1) 2(1) 3(1) 4(1) r
        matrix_add_const_undo [OF assms(1)])
  ultimately show ?thesis by blast
qed

section \<open>The initialised matrices\<close>

lemma init_matrix_layout:
  assumes "0 < b" and "b \<le> 0x80000000" and "unat memblk + unat b + 3 < 2 ^ 32"
    and "unat b \<le> 8 * length A0" and "unat b \<le> 8 * length B0"
  shows "\<exists>p. core_init_matrix b memblk seed A0 B0 C0 = Some p
    \<and> 8 * (mat_N p * mat_N p) < unat b \<and> unat b \<le> 8 * (Suc (mat_N p) * Suc (mat_N p))
    \<and> unat memblk \<le> unat (addr_A p) \<and> unat (addr_A p) mod 4 = 0 \<and> unat (addr_A p) \<le> unat memblk + 3
    \<and> unat (addr_B p) = unat (addr_A p) + 2 * (mat_N p * mat_N p)
    \<and> unat (addr_C p) = unat (addr_B p) + 2 * (mat_N p * mat_N p)
    \<and> unat (addr_C p) + 4 * (mat_N p * mat_N p) \<le> unat memblk + unat b + 2
    \<and> (\<forall>k < mat_N p * mat_N p. unat (mat_A p ! k) < 256)
    \<and> length (mat_A p) = length A0 \<and> length (mat_B p) = length B0 \<and> mat_C p = C0"
proof -
  obtain n where n: "dim_loop b 0 0 = Some (of_nat (Suc n))" "8 * (n * n) < unat b"
    "unat b \<le> 8 * (Suc n * Suc n)" "n < 16384"
    using dim_loop_result [OF assms(1,2)] by blast
  define N where "N = (of_nat (Suc n) - 1 :: u32)"
  have N: "unat N = n" "N = of_nat n" using n(4) by (simp_all add: N_def unat_of_nat take_bit_nat_eq_self)
  have nn: "n * n \<le> length A0" "n * n \<le> length B0" using n(2) assms by linarith+
  obtain sd od A' B' where l: "for_loop n (\<lambda>i. for_loop n (\<lambda>j. init_element (i * n + j)))
      (if seed = 0 then 1 else seed, 1, A0, B0) = Some (sd, od, A', B')" "\<forall>k < n * n. unat (A' ! k) < 256"
    "length A' = length A0" "length B' = length B0"
    using init_loop_total [OF nn] by blast
  have "unat memblk + 8 * (n * n) + 4 \<le> 2 ^ 32" using assms(3) n(2) by linarith
  from matrix_addresses [OF this N(2)] n l show ?thesis
    by (simp add: core_init_matrix_def Let_def N_def [symmetric] N(1) del: of_nat_Suc)
qed

section \<open>Properties\<close>

text \<open> C17: The matrix benchmark returns, stays inside its arrays, and restores its inputs: adding the
  constant and then its negation leaves matrix \<open>A\<close> as it was, \<open>B\<close> is not written, and only the
  result matrix changes, within its first \<open>N * N\<close> elements. \<close>

theorem core_bench_matrix_restores:
  assumes "mat_N p * mat_N p \<le> length (mat_A p)" and "mat_N p * mat_N p \<le> length (mat_B p)"
    and "mat_N p * mat_N p \<le> length (mat_C p)"
  shows "\<exists>crc' C'. core_bench_matrix p seed crc = Some (crc', p\<lparr>mat_C := C'\<rparr>)
    \<and> length C' = length (mat_C p) \<and> drop (mat_N p * mat_N p) C' = drop (mat_N p * mat_N p) (mat_C p)"
  using matrix_test_total [OF assms, of seed] by (auto simp: core_bench_matrix_def same_tail_def)

lemma core_bench_matrix_restores_witness:
  "\<exists>crc' C'. core_bench_matrix \<lparr>mat_N = 2, addr_A = 0, addr_B = 8, addr_C = 16,
      mat_A = [1, 2, 3, 4], mat_B = [5, 6, 7, 8], mat_C = [0, 0, 0, 0]\<rparr> 3 0
    = Some (crc', \<lparr>mat_N = 2, addr_A = 0, addr_B = 8, addr_C = 16,
      mat_A = [1, 2, 3, 4], mat_B = [5, 6, 7, 8], mat_C = C'\<rparr>) \<and> length C' = 4"
  using core_bench_matrix_restores [of "\<lparr>mat_N = 2, addr_A = 0, addr_B = 8, addr_C = 16,
      mat_A = [1, 2, 3, 4], mat_B = [5, 6, 7, 8], mat_C = [0, 0, 0, 0]\<rparr>" 3 0] by auto

text \<open> C37: The three multiplications are those of matrix algebra over 32-bit integers: element
  \<open>i, j\<close> of the result is the product with the constant, the sum of products of a row with the
  vector, and the sum of products of a row with a column. \<close>

theorem matrix_products:
  assumes "N * N \<le> length A" and "N * N \<le> length B" and "N * N \<le> length C"
    and "i < N" and "j < N"
  shows "map_option (\<lambda>R. R ! (i * N + j)) (matrix_mul_const N C A val)
      = Some (scast (A ! (i * N + j)) * scast val)
    \<and> map_option (\<lambda>R. R ! i) (matrix_mul_vect N C A B)
      = Some (\<Sum>k<N. scast (A ! (i * N + k)) * scast (B ! k))
    \<and> map_option (\<lambda>R. R ! (i * N + j)) (matrix_mul_matrix N C A B)
      = Some (\<Sum>k<N. scast (A ! (i * N + k)) * scast (B ! (k * N + j)))"
proof (intro conjI)
  have p: "i * N + j < N * N" using assms by (simp add: grid_index)
  moreover from this have "i * N + j < length C" using assms by simp
  moreover have "(i * N + j) div N = i" "(i * N + j) mod N = j" using assms by simp_all
  ultimately show "map_option (\<lambda>R. R ! (i * N + j)) (matrix_mul_const N C A val)
      = Some (scast (A ! (i * N + j)) * scast val)"
    and "map_option (\<lambda>R. R ! (i * N + j)) (matrix_mul_matrix N C A B)
      = Some (\<Sum>k<N. scast (A ! (i * N + k)) * scast (B ! (k * N + j)))"
    using assms by (simp_all add: matrix_mul_const_fill matrix_mul_matrix_fill)
  have "N \<le> N * N" by (cases N) simp_all
  then have "N \<le> length B" "N \<le> length C" using assms by linarith+
  with assms show "map_option (\<lambda>R. R ! i) (matrix_mul_vect N C A B)
      = Some (\<Sum>k<N. scast (A ! (i * N + k)) * scast (B ! k))"
    by (simp add: matrix_mul_vect_fill)
qed

lemma matrix_products_witness:
  "map_option (\<lambda>R. R ! (1 * 2 + 0)) (matrix_mul_const 2 [0, 0, 0, 0] [1, 2, 3, 4] 3)
      = Some (scast ([1, 2, 3, 4] ! (1 * 2 + 0) :: s16) * scast (3 :: s16))
    \<and> map_option (\<lambda>R. R ! 1) (matrix_mul_vect 2 [0, 0, 0, 0] [1, 2, 3, 4] [5, 6, 7, 8])
      = Some (\<Sum>k<2. scast ([1, 2, 3, 4] ! (1 * 2 + k) :: s16) * scast ([5, 6, 7, 8] ! k :: s16))
    \<and> map_option (\<lambda>R. R ! (1 * 2 + 0)) (matrix_mul_matrix 2 [0, 0, 0, 0] [1, 2, 3, 4] [5, 6, 7, 8])
      = Some (\<Sum>k<2. scast ([1, 2, 3, 4] ! (1 * 2 + k) :: s16) * scast ([5, 6, 7, 8] ! (k * 2 + 0) :: s16))"
  by (rule matrix_products) simp_all

text \<open> C38: The initialisation returns for every block of at most 2 GiB: the dimension is the greatest
  whose three matrices (\<open>8 * N * N\<close> bytes) take less than the block; they lie one behind the other
  from the aligned start, ending less than three bytes behind the block; and every element of \<open>A\<close> is
  below 256. \<close>

theorem core_init_matrix_layout:
  assumes "0 < b" and "b \<le> 0x80000000" and "unat memblk + unat b + 3 < 2 ^ 32"
    and "unat b \<le> 8 * length A0" and "unat b \<le> 8 * length B0"
  shows "\<exists>p. core_init_matrix b memblk seed A0 B0 C0 = Some p
    \<and> 8 * (mat_N p * mat_N p) < unat b \<and> unat b \<le> 8 * (Suc (mat_N p) * Suc (mat_N p))
    \<and> unat memblk \<le> unat (addr_A p) \<and> unat (addr_A p) mod 4 = 0 \<and> unat (addr_A p) \<le> unat memblk + 3
    \<and> unat (addr_B p) = unat (addr_A p) + 2 * (mat_N p * mat_N p)
    \<and> unat (addr_C p) = unat (addr_B p) + 2 * (mat_N p * mat_N p)
    \<and> unat (addr_C p) + 4 * (mat_N p * mat_N p) \<le> unat memblk + unat b + 2
    \<and> (\<forall>k < mat_N p * mat_N p. unat (mat_A p ! k) < 256)"
  by (rule ex_forward [OF init_matrix_layout [OF assms, of seed C0]]) (elim conjE, intro conjI)

lemma core_init_matrix_layout_witness:
  "\<exists>p. core_init_matrix 9 2 0 (replicate 9 0) (replicate 9 0) [] = Some p
    \<and> 8 * (mat_N p * mat_N p) < unat (9 :: u32) \<and> unat (9 :: u32) \<le> 8 * (Suc (mat_N p) * Suc (mat_N p))
    \<and> unat (2 :: u32) \<le> unat (addr_A p) \<and> unat (addr_A p) mod 4 = 0 \<and> unat (addr_A p) \<le> unat (2 :: u32) + 3
    \<and> unat (addr_B p) = unat (addr_A p) + 2 * (mat_N p * mat_N p)
    \<and> unat (addr_C p) = unat (addr_B p) + 2 * (mat_N p * mat_N p)
    \<and> unat (addr_C p) + 4 * (mat_N p * mat_N p) \<le> unat (2 :: u32) + unat (9 :: u32) + 2
    \<and> (\<forall>k < mat_N p * mat_N p. unat (mat_A p ! k) < 256)"
  by (rule core_init_matrix_layout) simp_all

end
