(* ===== verification/CoreMark_List.thy ===== *)
theory CoreMark_List
  imports CoreMark_State CoreMark_Matrix
begin

text \<open>
  The linked-list benchmark \<open>software/app/CoreMark/src/core_list_join.c\<close>. The memory block holds an
  array of list cells and an array of data items; a pointer to a cell is an index of the first, or
  \<open>None\<close> for \<open>NULL\<close>, and a pointer to a data item is an index of the second. Dereferencing \<open>NULL\<close> or
  an index outside the block has no value. The loops that need not end on a cyclic list are partial
  functions: not returning is the value \<open>None\<close> as well.
\<close>

section \<open>Cells and data\<close>

record list_data =
  data16 :: s16
  idx :: s16

record list_head =
  nxt :: "nat option"
  info :: nat

record store =
  heads :: "list_head list"
  datas :: "list_data list"

definition get_next :: "store \<Rightarrow> nat \<Rightarrow> nat option option" where
  "get_next s a = map_option nxt (rd (heads s) a)"

definition get_info :: "store \<Rightarrow> nat \<Rightarrow> nat option" where
  "get_info s a = map_option info (rd (heads s) a)"

definition set_next :: "nat \<Rightarrow> nat option \<Rightarrow> store \<Rightarrow> store option" where
  "set_next a n s = do {
     c \<leftarrow> rd (heads s) a;
     h \<leftarrow> wr (heads s) a (c\<lparr>nxt := n\<rparr>);
     Some (s\<lparr>heads := h\<rparr>) }"

definition set_info :: "nat \<Rightarrow> nat \<Rightarrow> store \<Rightarrow> store option" where
  "set_info a d s = do {
     c \<leftarrow> rd (heads s) a;
     h \<leftarrow> wr (heads s) a (c\<lparr>info := d\<rparr>);
     Some (s\<lparr>heads := h\<rparr>) }"

text \<open>\<open>item->info->...\<close>\<close>

definition get_data :: "store \<Rightarrow> nat \<Rightarrow> list_data option" where
  "get_data s a = do { d \<leftarrow> get_info s a; rd (datas s) d }"

definition set_data :: "nat \<Rightarrow> list_data \<Rightarrow> store \<Rightarrow> store option" where
  "set_data a v s = do {
     d \<leftarrow> get_info s a;
     ds \<leftarrow> wr (datas s) d v;
     Some (s\<lparr>datas := ds\<rparr>) }"

section \<open>List operations\<close>

text \<open>\<open>copy_info\<close> copies both fields.\<close>

definition copy_info :: "nat \<Rightarrow> list_data \<Rightarrow> store \<Rightarrow> store option" where
  "copy_info to from s = do {
     t \<leftarrow> rd (datas s) to;
     ds \<leftarrow> wr (datas s) to (t\<lparr>data16 := data16 from, idx := idx from\<rparr>);
     Some (s\<lparr>datas := ds\<rparr>) }"

text \<open>
  The result is the new item, the advanced free pointers and the store; the end pointers are the
  lengths of the arrays' parts that may be used.
\<close>

definition core_list_insert_new :: "nat \<Rightarrow> list_data \<Rightarrow> nat \<Rightarrow> nat \<Rightarrow> nat \<Rightarrow> nat \<Rightarrow> store
    \<Rightarrow> (nat option \<times> nat \<times> nat \<times> store) option" where
  "core_list_insert_new insert_point item_info memblock datablock memblock_end datablock_end s =
     (if memblock + 1 \<ge> memblock_end then Some (None, memblock, datablock, s)
      else if datablock + 1 \<ge> datablock_end then Some (None, memblock, datablock, s)
      else do {
        let newitem = memblock;
        n \<leftarrow> get_next s insert_point;
        s \<leftarrow> set_next newitem n s;
        s \<leftarrow> set_next insert_point (Some newitem) s;
        s \<leftarrow> set_info newitem datablock s;
        s \<leftarrow> copy_info datablock item_info s;
        Some (Some newitem, memblock + 1, datablock + 1, s) })"

definition core_list_remove :: "nat \<Rightarrow> store \<Rightarrow> (nat \<times> store) option" where
  "core_list_remove item s = do {
     n \<leftarrow> get_next s item;
     ret \<leftarrow> n;
     tmp \<leftarrow> get_info s item;
     i \<leftarrow> get_info s ret;
     s \<leftarrow> set_info item i s;
     s \<leftarrow> set_info ret tmp s;
     n \<leftarrow> get_next s item;
     m \<leftarrow> n;
     nn \<leftarrow> get_next s m;
     s \<leftarrow> set_next item nn s;
     s \<leftarrow> set_next ret None s;
     Some (ret, s) }"

definition core_list_undo_remove :: "nat \<Rightarrow> nat \<Rightarrow> store \<Rightarrow> (nat \<times> store) option" where
  "core_list_undo_remove item_removed item_modified s = do {
     tmp \<leftarrow> get_info s item_removed;
     i \<leftarrow> get_info s item_modified;
     s \<leftarrow> set_info item_removed i s;
     s \<leftarrow> set_info item_modified tmp s;
     n \<leftarrow> get_next s item_modified;
     s \<leftarrow> set_next item_removed n s;
     s \<leftarrow> set_next item_modified (Some item_removed) s;
     Some (item_removed, s) }"

text \<open>The two search loops differ in the test; the result \<open>Some None\<close> is \<open>NULL\<close>.\<close>

partial_function (option) find_loop ::
  "(list_data \<Rightarrow> bool) \<Rightarrow> store \<Rightarrow> nat option \<Rightarrow> nat option option" where
  "find_loop found s list =
     (case list of None \<Rightarrow> Some None
      | Some a \<Rightarrow> do {
          d \<leftarrow> get_data s a;
          if found d then Some (Some a) else do { n \<leftarrow> get_next s a; find_loop found s n } })"

definition core_list_find :: "nat option \<Rightarrow> list_data \<Rightarrow> store \<Rightarrow> nat option option" where
  "core_list_find list item_info s =
     (if 0 \<le>s idx item_info then find_loop (\<lambda>d. idx d = idx item_info) s list
      else find_loop (\<lambda>d. data16 d AND 0xff = data16 item_info) s list)"

partial_function (option) reverse_loop ::
  "nat option \<Rightarrow> nat option \<Rightarrow> store \<Rightarrow> (nat option \<times> store) option" where
  "reverse_loop next list s =
     (case list of None \<Rightarrow> Some (next, s)
      | Some a \<Rightarrow> do {
          tmp \<leftarrow> get_next s a;
          s \<leftarrow> set_next a next s;
          reverse_loop list tmp s })"

definition core_list_reverse :: "nat option \<Rightarrow> store \<Rightarrow> (nat option \<times> store) option" where
  "core_list_reverse list s = reverse_loop None list s"

section \<open>Merge sort\<close>

text \<open>
  A comparison reads and may rewrite the data items and the benchmark results \<open>'r\<close> behind \<open>res\<close>.
\<close>

type_synonym 'r list_cmp = "nat \<Rightarrow> nat \<Rightarrow> 'r \<Rightarrow> list_data list \<Rightarrow> (s32 \<times> 'r \<times> list_data list) option"

text \<open>\<open>q\<close> steps \<open>insize\<close> places along; the sizes stay below \<open>2 ^ 31\<close> for every list that fits the memory.\<close>

fun split_run :: "nat \<Rightarrow> store \<Rightarrow> nat option \<Rightarrow> nat \<Rightarrow> (nat option \<times> nat) option" where
  "split_run 0 s q psize = Some (q, psize)"
| "split_run (Suc i) s q psize = do {
     a \<leftarrow> q;
     q \<leftarrow> get_next s a;
     if q = None then Some (q, Suc psize) else split_run i s q (Suc psize) }"

definition append_item :: "nat \<Rightarrow> nat option \<Rightarrow> nat option \<Rightarrow> store \<Rightarrow> (nat option \<times> nat option \<times> store) option" where
  "append_item e list tail s =
     (case tail of
        Some t \<Rightarrow> do { s \<leftarrow> set_next t (Some e) s; Some (list, Some e, s) }
      | None \<Rightarrow> Some (Some e, Some e, s))"

function merge_loop :: "'r list_cmp \<Rightarrow> nat option \<Rightarrow> nat \<Rightarrow> nat option \<Rightarrow> nat \<Rightarrow> nat option \<Rightarrow> nat option
    \<Rightarrow> 'r \<Rightarrow> store \<Rightarrow> (nat option \<times> nat option \<times> nat option \<times> 'r \<times> store) option" where
  "merge_loop cmp p psize q qsize list tail res s =
     (if psize = 0 \<and> (qsize = 0 \<or> q = None) then Some (q, list, tail, res, s)
      else if psize = 0 then do {
        e \<leftarrow> q; q \<leftarrow> get_next s e;
        (list, tail, s) \<leftarrow> append_item e list tail s;
        merge_loop cmp p psize q (qsize - 1) list tail res s }
      else if qsize = 0 \<or> q = None then do {
        e \<leftarrow> p; p \<leftarrow> get_next s e;
        (list, tail, s) \<leftarrow> append_item e list tail s;
        merge_loop cmp p (psize - 1) q qsize list tail res s }
      else do {
        a \<leftarrow> p; b \<leftarrow> q;
        i \<leftarrow> get_info s a; j \<leftarrow> get_info s b;
        (c, res, ds) \<leftarrow> cmp i j res (datas s);
        let s = s\<lparr>datas := ds\<rparr>;
        if c \<le>s 0 then do {
          p \<leftarrow> get_next s a;
          (list, tail, s) \<leftarrow> append_item a list tail s;
          merge_loop cmp p (psize - 1) q qsize list tail res s }
        else do {
          q \<leftarrow> get_next s b;
          (list, tail, s) \<leftarrow> append_item b list tail s;
          merge_loop cmp p psize q (qsize - 1) list tail res s } })"
  by pat_completeness auto
termination
  by (relation "measure (\<lambda>(_, _, psize, _, qsize, _). psize + qsize)") auto

declare merge_loop.simps [simp del]

text \<open>One pass: \<open>while (p)\<close>.\<close>

partial_function (option) pass_loop :: "'r list_cmp \<Rightarrow> nat \<Rightarrow> nat option \<Rightarrow> nat option \<Rightarrow> nat option \<Rightarrow> nat
    \<Rightarrow> 'r \<Rightarrow> store \<Rightarrow> (nat option \<times> nat option \<times> nat \<times> 'r \<times> store) option" where
  "pass_loop cmp insize p list tail nmerges res s =
     (if p = None then Some (list, tail, nmerges, res, s)
      else do {
        (q, psize) \<leftarrow> split_run insize s p 0;
        (q, list, tail, res, s) \<leftarrow> merge_loop cmp p psize q insize list tail res s;
        pass_loop cmp insize q list tail (Suc nmerges) res s })"

partial_function (option) sort_loop ::
  "'r list_cmp \<Rightarrow> nat \<Rightarrow> nat option \<Rightarrow> 'r \<Rightarrow> store \<Rightarrow> (nat option \<times> 'r \<times> store) option" where
  "sort_loop cmp insize list res s = do {
     (list, tail, nmerges, res, s) \<leftarrow> pass_loop cmp insize list None None 0 res s;
     t \<leftarrow> tail;
     s \<leftarrow> set_next t None s;
     if nmerges \<le> 1 then Some (list, res, s) else sort_loop cmp (insize * 2) list res s }"

definition core_list_mergesort ::
  "'r list_cmp \<Rightarrow> nat option \<Rightarrow> 'r \<Rightarrow> store \<Rightarrow> (nat option \<times> 'r \<times> store) option" where
  "core_list_mergesort cmp list res s = sort_loop cmp 1 list res s"

section \<open>Comparisons\<close>

text \<open>The results structure; \<open>memblock3\<close> is the block of the state benchmark.\<close>

record core_results =
  seed1 :: s16
  seed2 :: s16
  seed3 :: s16
  memblock3 :: "u8 list"
  res_size :: u32
  iterations :: u32
  execs :: u32
  res_list :: "nat option"
  res_mat :: mat_params
  res_crc :: u16
  crclist :: u16
  crcmatrix :: u16
  crcstate :: u16
  err :: s16

text \<open>The switch: the operation that bits 0 to 2 select, on the operand of bits 3 to 6.\<close>

definition calc_switch :: "s16 \<Rightarrow> core_results \<Rightarrow> (s16 \<times> core_results) option" where
  "calc_switch data res =
     (let flag = data AND 0x7;
          dtype = signed_drop_bit 3 data AND 0xf;
          dtype = dtype OR push_bit 4 dtype
      in if flag = 0 then do {
           let dtype = (if dtype <s 0x22 then 0x22 else dtype);
           (retval, m) \<leftarrow> core_bench_state (unat (res_size res)) (memblock3 res) (seed1 res) (seed2 res) dtype (res_crc res);
           let res = res\<lparr>memblock3 := m\<rparr>;
           Some (retval, if crcstate res = 0 then res\<lparr>crcstate := retval\<rparr> else res) }
         else if flag = 1 then do {
           (retval, mat) \<leftarrow> core_bench_matrix (res_mat res) dtype (res_crc res);
           let res = res\<lparr>res_mat := mat\<rparr>;
           Some (retval, if crcmatrix res = 0 then res\<lparr>crcmatrix := retval\<rparr> else res) }
         else Some (data, res))"

text \<open>The value, the new data and the new results. The block sizes are below 2 GiB.\<close>

definition calc_func :: "s16 \<Rightarrow> core_results \<Rightarrow> (s16 \<times> s16 \<times> core_results) option" where
  "calc_func data res =
     (let optype = (ucast (signed_drop_bit 7 data AND 1) :: u8) in
      if optype \<noteq> 0 then Some (data AND 0x007f, data, res)
      else do {
        (retval, res) \<leftarrow> calc_switch data res;
        let res = res\<lparr>res_crc := crcu16 retval (res_crc res)\<rparr>;
        let retval = retval AND 0x007f;
        Some (retval, (data AND 0xff00) OR 0x0080 OR retval, res) })"

text \<open>\<open>res\<close> is a pointer: \<open>None\<close> is \<open>NULL\<close>.\<close>

definition calc_item :: "nat \<Rightarrow> core_results \<Rightarrow> list_data list \<Rightarrow> (s16 \<times> core_results \<times> list_data list) option" where
  "calc_item a res ds = do {
     d \<leftarrow> rd ds a;
     (v, x, res) \<leftarrow> calc_func (data16 d) res;
     ds \<leftarrow> wr ds a (d\<lparr>data16 := x\<rparr>);
     Some (v, res, ds) }"

definition cmp_complex :: "core_results option list_cmp" where
  "cmp_complex a b res ds = do {
     r \<leftarrow> res;
     (val1, r, ds) \<leftarrow> calc_item a r ds;
     (val2, r, ds) \<leftarrow> calc_item b r ds;
     Some (scast val1 - scast val2, Some r, ds) }"

definition regen :: "nat \<Rightarrow> list_data list \<Rightarrow> list_data list option" where
  "regen a ds = do {
     d \<leftarrow> rd ds a;
     wr ds a (d\<lparr>data16 := (data16 d AND 0xff00) OR (0x00ff AND signed_drop_bit 8 (data16 d))\<rparr>) }"

definition cmp_idx :: "core_results option list_cmp" where
  "cmp_idx a b res ds = do {
     ds \<leftarrow> (if res = None then do { ds \<leftarrow> regen a ds; regen b ds } else Some ds);
     x \<leftarrow> rd ds a;
     y \<leftarrow> rd ds b;
     Some (scast (idx x) - scast (idx y), res, ds) }"

section \<open>The benchmark\<close>

text \<open>One search: \<open>find_num\<close> rounds, the state is \<open>list\<close>, the searched item, the counters and the store.\<close>

definition find_round :: "nat \<Rightarrow> nat option \<times> list_data \<times> u16 \<times> u16 \<times> u16 \<times> store
    \<Rightarrow> (nat option \<times> list_data \<times> u16 \<times> u16 \<times> u16 \<times> store) option" where
  "find_round i = (\<lambda>(list, item_info, retval, found, missed, s). do {
     let item_info = item_info\<lparr>data16 := of_nat i AND 0xff\<rparr>;
     this_find \<leftarrow> core_list_find list item_info s;
     (list, s) \<leftarrow> core_list_reverse list s;
     (retval, found, missed, s) \<leftarrow>
       (case this_find of
          None \<Rightarrow> do {
            l \<leftarrow> list; n \<leftarrow> get_next s l; m \<leftarrow> n; d \<leftarrow> get_data s m;
            Some (retval + (signed_drop_bit 8 (data16 d) AND 1), found, missed + 1, s) }
        | Some f \<Rightarrow> do {
            let found = found + 1;
            d \<leftarrow> get_data s f;
            let retval = (if data16 d AND 0x1 \<noteq> 0 then retval + (signed_drop_bit 9 (data16 d) AND 1) else retval);
            n \<leftarrow> get_next s f;
            s \<leftarrow> (case n of
                None \<Rightarrow> Some s
              | Some finder \<Rightarrow> do {
                  m \<leftarrow> get_next s finder;
                  s \<leftarrow> set_next f m s;
                  l \<leftarrow> list;
                  h \<leftarrow> get_next s l;
                  s \<leftarrow> set_next finder h s;
                  set_next l (Some finder) s });
            Some (retval, found, missed, s) });
     let item_info = (if 0 \<le>s idx item_info then item_info\<lparr>idx := idx item_info + 1\<rparr> else item_info);
     Some (list, item_info, retval, found, missed, s) })"

text \<open>The data of the list head is accumulated once per remaining item.\<close>

partial_function (option) crc_loop :: "nat \<Rightarrow> nat option \<Rightarrow> u16 \<Rightarrow> store \<Rightarrow> u16 option" where
  "crc_loop list finder retval s =
     (case finder of
        None \<Rightarrow> Some retval
      | Some f \<Rightarrow> do {
          d \<leftarrow> get_data s list;
          let retval = crc16 (data16 d) retval;
          n \<leftarrow> get_next s f;
          crc_loop list n retval s })"

text \<open>One item is removed, the rest is searched and accumulated, and the removal is undone.\<close>

definition remove_search_undo :: "nat \<Rightarrow> nat option \<Rightarrow> list_data \<Rightarrow> u16 \<Rightarrow> store \<Rightarrow> (u16 \<times> store) option" where
  "remove_search_undo l list d retval s = do {
     n \<leftarrow> get_next s l;
     item \<leftarrow> n;
     (remover, s) \<leftarrow> core_list_remove item s;
     finder \<leftarrow> core_list_find list d s;
     n \<leftarrow> get_next s l;
     retval \<leftarrow> crc_loop l (if finder = None then n else finder) retval s;
     n \<leftarrow> get_next s l;
     item \<leftarrow> n;
     (remover, s) \<leftarrow> core_list_undo_remove remover item s;
     Some (retval, s) }"

definition core_bench_list :: "core_results \<Rightarrow> s16 \<Rightarrow> store \<Rightarrow> (u16 \<times> core_results \<times> store) option" where
  "core_bench_list res finder_idx s = do {
     (list, item_info, retval, found, missed, s) \<leftarrow>
       for_loop (nat (sint (seed3 res))) find_round
         (res_list res, \<lparr>data16 = 0, idx = finder_idx\<rparr>, 0, 0, 0, s);
     let retval = retval + (found * 4 - missed);
     (list, r, s) \<leftarrow>
       (if 0 <s finder_idx then core_list_mergesort cmp_complex list (Some res) s
        else Some (list, Some res, s));
     res \<leftarrow> r;
     l \<leftarrow> list;
     (retval, s) \<leftarrow> remove_search_undo l list item_info retval s;
     (list, _, s) \<leftarrow> core_list_mergesort cmp_idx list None s;
     l \<leftarrow> list;
     n \<leftarrow> get_next s l;
     retval \<leftarrow> crc_loop l n retval s;
     Some (retval, res, s) }"

section \<open>Initialisation\<close>

definition fill_item :: "s16 \<Rightarrow> nat \<Rightarrow> nat \<Rightarrow> list_data \<times> nat \<times> nat \<times> store
    \<Rightarrow> (list_data \<times> nat \<times> nat \<times> store) option" where
  "fill_item seed sz i = (\<lambda>(item_info, memblock, datablock, s). do {
     let datpat = (ucast ((scast seed :: u32) XOR of_nat i) :: u16) AND 0xf;
     let dat = push_bit 3 datpat OR (of_nat i AND 0x7);
     let item_info = item_info\<lparr>data16 := push_bit 8 dat OR dat\<rparr>;
     (_, memblock, datablock, s) \<leftarrow> core_list_insert_new 0 item_info memblock datablock sz sz s;
     Some (item_info, memblock, datablock, s) })"

text \<open>The items are numbered: the first fifth in order, the others with pseudo-random numbers behind them.\<close>

partial_function (option) index_loop :: "s16 \<Rightarrow> u32 \<Rightarrow> u32 \<Rightarrow> nat \<Rightarrow> store \<Rightarrow> store option" where
  "index_loop seed sz i finder s = do {
     n \<leftarrow> get_next s finder;
     (case n of
        None \<Rightarrow> Some s
      | Some f \<Rightarrow> do {
          d \<leftarrow> get_data s finder;
          let (i, x) = (if i < sz div 5 then (i + 1, ucast i)
            else let pat = (ucast (i XOR (scast seed :: u32)) :: u16); i = i + 1
                 in (i, 0x3fff AND (push_bit 8 (ucast (i AND 0x07)) OR pat)));
          s \<leftarrow> set_data finder (d\<lparr>idx := x\<rparr>) s;
          index_loop seed sz i f s }) }"

text \<open>
  The memory block is an array of \<open>size\<close> cells followed by an array of \<open>size\<close> data items. A block of
  fewer than 40 bytes would make \<open>size\<close> wrap; it has no value.
\<close>

definition core_list_init :: "u32 \<Rightarrow> s16 \<Rightarrow> store \<Rightarrow> (nat option \<times> store) option" where
  "core_list_init blksize seed s =
     (let per_item = 16 + 4; sz = blksize div per_item - 2 in
      if blksize div per_item < 2 then None
      else do {
        s \<leftarrow> set_next 0 None s;
        s \<leftarrow> set_info 0 0 s;
        s \<leftarrow> set_data 0 \<lparr>data16 = 0x8080, idx = 0x0000\<rparr> s;
        let item_info = \<lparr>data16 = 0xffff, idx = 0x7fff\<rparr>;
        (_, memblock, datablock, s) \<leftarrow> core_list_insert_new 0 item_info 1 1 (unat sz) (unat sz) s;
        (_, _, _, s) \<leftarrow> for_loop (unat sz) (fill_item seed (unat sz)) (item_info, memblock, datablock, s);
        n \<leftarrow> get_next s 0;
        finder \<leftarrow> n;
        s \<leftarrow> index_loop seed sz 1 finder s;
        (list, _, s) \<leftarrow> core_list_mergesort cmp_idx (Some 0) None s;
        Some (list, s) })"

end
