(* ===== verification/CoreMark_List_Correct.thy ===== *)
theory CoreMark_List_Correct
  imports CoreMark_List
begin

text \<open>
  Correctness of the linked-list operations. \<open>seg s p xs q\<close> says that following the links from \<open>p\<close>
  visits the cells \<open>xs\<close> and arrives at \<open>q\<close>. The first part gives search, reversal and removal in
  these terms; the second verifies the merge sort for every comparison that satisfies the laws of the
  locale \<open>caching_comparison\<close>, and interprets the locale on both comparison functions.
\<close>

section \<open>Stores and segments\<close>

definition upd_next :: "nat \<Rightarrow> nat option \<Rightarrow> store \<Rightarrow> store" where
  "upd_next a n s = s\<lparr>heads := (heads s)[a := (heads s ! a)\<lparr>nxt := n\<rparr>]\<rparr>"

definition upd_info :: "nat \<Rightarrow> nat \<Rightarrow> store \<Rightarrow> store" where
  "upd_info a d s = s\<lparr>heads := (heads s)[a := (heads s ! a)\<lparr>info := d\<rparr>]\<rparr>"

abbreviation next_of :: "store \<Rightarrow> nat \<Rightarrow> nat option" where
  "next_of s a \<equiv> nxt (heads s ! a)"

abbreviation info_of :: "store \<Rightarrow> nat \<Rightarrow> nat" where
  "info_of s a \<equiv> info (heads s ! a)"

abbreviation data_of :: "store \<Rightarrow> nat \<Rightarrow> list_data" where
  "data_of s a \<equiv> datas s ! info_of s a"

lemma get_next_Some [simp]: "a < length (heads s) \<Longrightarrow> get_next s a = Some (next_of s a)"
  and get_info_Some [simp]: "a < length (heads s) \<Longrightarrow> get_info s a = Some (info_of s a)"
  and set_next_Some [simp]: "a < length (heads s) \<Longrightarrow> set_next a n s = Some (upd_next a n s)"
  and set_info_Some [simp]: "a < length (heads s) \<Longrightarrow> set_info a d s = Some (upd_info a d s)"
  by (simp_all add: get_next_def get_info_def set_next_def set_info_def upd_next_def upd_info_def)

lemma get_data_Some [simp]:
  "a < length (heads s) \<Longrightarrow> info_of s a < length (datas s) \<Longrightarrow> get_data s a = Some (data_of s a)"
  by (simp add: get_data_def)

lemma upd_next_simps [simp]:
  "length (heads (upd_next a n s)) = length (heads s)" "datas (upd_next a n s) = datas s"
  "length (heads (upd_info a d s)) = length (heads s)" "datas (upd_info a d s) = datas s"
  by (simp_all add: upd_next_def upd_info_def)

lemma next_upd [simp]:
  "b < length (heads s) \<Longrightarrow> next_of (upd_next a n s) b = (if b = a then n else next_of s b)"
  "b < length (heads s) \<Longrightarrow> next_of (upd_info a d s) b = next_of s b"
  "b < length (heads s) \<Longrightarrow> info_of (upd_next a n s) b = info_of s b"
  "b < length (heads s) \<Longrightarrow> info_of (upd_info a d s) b = (if b = a then d else info_of s b)"
  by (cases "a = b"; simp add: upd_next_def upd_info_def)+

fun seg :: "store \<Rightarrow> nat option \<Rightarrow> nat list \<Rightarrow> nat option \<Rightarrow> bool" where
  "seg s p [] q \<longleftrightarrow> p = q"
| "seg s p (a # xs) q \<longleftrightarrow> p = Some a \<and> a < length (heads s) \<and> seg s (next_of s a) xs q"

lemma seg_append: "seg s p (xs @ ys) q \<longleftrightarrow> (\<exists>m. seg s p xs m \<and> seg s m ys q)"
  by (induction xs arbitrary: p) auto

lemma seg_bounds: "seg s p xs q \<Longrightarrow> a \<in> set xs \<Longrightarrow> a < length (heads s)"
  by (induction xs arbitrary: p) auto

lemma seg_cong:
  assumes "length (heads s') = length (heads s)" and "\<And>a. a \<in> set xs \<Longrightarrow> next_of s' a = next_of s a"
  shows "seg s' p xs q = seg s p xs q"
  using assms(2)
proof (induction xs arbitrary: p)
  case (Cons a xs)
  have "seg s' (next_of s a) xs q = seg s (next_of s a) xs q" using Cons by simp
  with Cons.prems [of a] assms(1) show ?case by simp
qed simp

lemma seg_upd_next: "a \<notin> set xs \<Longrightarrow> seg s p xs q \<Longrightarrow> seg (upd_next a n s) p xs q"
  using seg_cong [of "upd_next a n s" s xs p q] seg_bounds [of s p xs q] by force

lemma seg_set_last:
  assumes "seg s p (xs @ [a]) q" and "a \<notin> set xs"
  shows "seg (upd_next a n s) p (xs @ [a]) n"
  using assms by (auto simp: seg_append intro: seg_upd_next)

lemma seg_unique: "seg s p xs None \<Longrightarrow> seg s p ys None \<Longrightarrow> xs = ys"
proof (induction xs arbitrary: p ys)
  case Nil
  then show ?case by (cases ys) auto
next
  case (Cons a xs)
  then show ?case by (cases ys) auto
qed

lemma seg_distinct: "seg s p xs None \<Longrightarrow> distinct xs"
proof (rule ccontr)
  assume s: "seg s p xs None" and "\<not> distinct xs"
  then obtain as x bs cs where x: "xs = as @ [x] @ bs @ [x] @ cs" using not_distinct_decomp by blast
  with s have "seg s (Some x) (x # bs @ x # cs) None" "seg s (Some x) (x # cs) None"
    by (auto simp: seg_append)
  from seg_unique [OF this] have "length (bs @ x # cs) = length cs" by simp
  then show False by simp
qed

text \<open>The data items of a list of cells are in the block.\<close>

definition wf_infos :: "store \<Rightarrow> nat list \<Rightarrow> bool" where
  "wf_infos s xs \<longleftrightarrow> (\<forall>a \<in> set xs. info_of s a < length (datas s))"

lemma wf_infos_simps [simp]: "wf_infos s []"
  "wf_infos s (a # xs) \<longleftrightarrow> info_of s a < length (datas s) \<and> wf_infos s xs"
  "wf_infos s (xs @ ys) \<longleftrightarrow> wf_infos s xs \<and> wf_infos s ys"
  by (auto simp: wf_infos_def)

section \<open>Search, reversal, removal\<close>

lemma find_loop_seg:
  "seg s p xs None \<Longrightarrow> wf_infos s xs \<Longrightarrow> find_loop found s p = Some (find (\<lambda>a. found (data_of s a)) xs)"
  by (induction xs arbitrary: p) (simp_all add: find_loop.simps)

lemma reverse_loop_seg:
  assumes "seg s list xs None" and "seg s next ys None" and "distinct (xs @ ys)"
  shows "\<exists>p s'. reverse_loop next list s = Some (p, s') \<and> seg s' p (rev xs @ ys) None
    \<and> datas s' = datas s \<and> length (heads s') = length (heads s)
    \<and> (\<forall>a < length (heads s). info_of s' a = info_of s a)"
  using assms
proof (induction xs arbitrary: list "next" ys s)
  case Nil
  then show ?case by (auto simp: reverse_loop.simps)
next
  case (Cons a xs)
  let ?s = "upd_next a next s"
  have "seg ?s (next_of s a) xs None" using Cons.prems by (auto intro: seg_upd_next)
  moreover have "seg ?s (Some a) (a # ys) None" using Cons.prems by (auto intro: seg_upd_next)
  moreover have "distinct (xs @ a # ys)" using Cons.prems by auto
  ultimately obtain p s' where "reverse_loop (Some a) (next_of s a) ?s = Some (p, s')"
    "seg s' p (rev xs @ a # ys) None" "datas s' = datas ?s" "length (heads s') = length (heads ?s)"
    "\<forall>b < length (heads ?s). info_of s' b = info_of ?s b"
    using Cons.IH by blast
  with Cons.prems show ?case by (subst reverse_loop.simps) auto
qed

lemma same_nxt: "nxt c = n \<Longrightarrow> c\<lparr>nxt := n\<rparr> = c"
  by (cases c) simp

lemma remove_undo:
  assumes "seg s p (a # b # xs) None"
  shows "\<exists>s1. core_list_remove a s = Some (b, s1) \<and> core_list_undo_remove b a s1 = Some (b, s)
    \<and> seg s1 p (a # xs) None \<and> info_of s1 a = info_of s b \<and> datas s1 = datas s
    \<and> length (heads s1) = length (heads s)
    \<and> (\<forall>c < length (heads s). c \<noteq> a \<and> c \<noteq> b \<longrightarrow> next_of s1 c = next_of s c \<and> info_of s1 c = info_of s c)"
proof -
  let ?s = "upd_next b None (upd_next a (next_of s b) (upd_info b (info_of s a) (upd_info a (info_of s b) s)))"
  have d: "distinct (a # b # xs)" and l: "a < length (heads s)" "b < length (heads s)" "next_of s a = Some b"
    using assms seg_distinct [OF assms] by auto
  have bd: "c < length (heads s)" if "c \<in> set xs" for c using assms that by (auto dest: seg_bounds)
  have "core_list_remove a s = Some (b, ?s)"
    using d l by (simp add: core_list_remove_def)
  moreover have "core_list_undo_remove b a ?s = Some (b, s)"
    using d l by (simp add: core_list_undo_remove_def)
      (simp add: upd_next_def upd_info_def list_update_swap same_nxt)
  moreover have "seg ?s p (a # xs) None"
  proof -
    have "seg ?s (next_of s b) xs None = seg s (next_of s b) xs None"
      using d l bd by (intro seg_cong) auto
    with assms d l show ?thesis by simp
  qed
  moreover have "info_of ?s a = info_of s b" "datas ?s = datas s" "length (heads ?s) = length (heads s)"
    "\<forall>c < length (heads s). c \<noteq> a \<and> c \<noteq> b \<longrightarrow> next_of ?s c = next_of s c \<and> info_of ?s c = info_of s c"
    using d l by auto
  ultimately show ?thesis by blast
qed

section \<open>Chains and blocks\<close>

text \<open>The output of a pass: the cells linked so far, with their first and last cell.\<close>

definition chain :: "store \<Rightarrow> nat option \<Rightarrow> nat option \<Rightarrow> nat list \<Rightarrow> bool" where
  "chain s l t out \<longleftrightarrow> (if out = [] then l = None \<and> t = None
     else t = Some (last out) \<and> (\<exists>n. seg s l out n))"

text \<open>The cells hold the same data items, and only the links of the cells \<open>out\<close> may differ.\<close>

definition relinked :: "nat set \<Rightarrow> store \<Rightarrow> store \<Rightarrow> bool" where
  "relinked out s s' \<longleftrightarrow> length (heads s') = length (heads s) \<and> datas s' = datas s
     \<and> (\<forall>a < length (heads s). info_of s' a = info_of s a)
     \<and> (\<forall>a < length (heads s). a \<notin> out \<longrightarrow> next_of s' a = next_of s a)"

lemma relinked_seg:
  assumes "relinked out s s'" and "seg s p xs q" and "set xs \<inter> out = {}"
  shows "seg s' p xs q"
  using assms seg_cong [of s' s xs p q] by (force simp: relinked_def dest: seg_bounds)

lemma append_item_chain:
  assumes "chain s l t out" and "distinct (out @ [e])" and "e < length (heads s)"
  shows "\<exists>l' t' s'. append_item e l t s = Some (l', t', s') \<and> chain s' l' t' (out @ [e])
    \<and> relinked (set out) s s'"
proof (cases "out = []")
  case True
  with assms show ?thesis by (auto simp: append_item_def chain_def relinked_def)
next
  case False
  then obtain pre a where o: "out = pre @ [a]" by (cases out rule: rev_cases) auto
  with assms(1) obtain n where t: "t = Some a" and s: "seg s l (pre @ [a]) n"
    by (auto simp: chain_def)
  have a: "a < length (heads s)" "a \<notin> set pre" using s assms(2) o by (auto dest: seg_bounds)
  have "seg (upd_next a (Some e) s) l ((pre @ [a]) @ [e]) (next_of (upd_next a (Some e) s) e)"
    unfolding seg_append [of _ _ "pre @ [a]"] using seg_set_last [OF s a(2)] assms(3) by auto
  then have "chain (upd_next a (Some e) s) l (Some e) (out @ [e])"
    using o by (auto simp: chain_def)
  moreover have "relinked (set out) s (upd_next a (Some e) s)"
    using o by (auto simp: relinked_def)
  ultimately show ?thesis using t a by (auto simp: append_item_def)
qed

definition blocks :: "('a list \<Rightarrow> bool) \<Rightarrow> nat \<Rightarrow> 'a list \<Rightarrow> bool" where
  "blocks P k xs \<longleftrightarrow> (\<forall>i. P (take k (drop (i * k) xs)))"

lemma blocks_split:
  assumes "blocks P k xs"
  shows "P (take k xs)" and "P (take k (drop k xs))" and "blocks P k (drop (2 * k) xs)"
proof -
  show "P (take k xs)" using assms unfolding blocks_def by (metis drop0 mult_0)
  show "P (take k (drop k xs))" using assms unfolding blocks_def by (metis mult_1)
  have "i * k + 2 * k = (i + 2) * k" for i by simp
  with assms show "blocks P k (drop (2 * k) xs)" unfolding blocks_def drop_drop by metis
qed

lemma blocks_join:
  assumes "P ms" and "P []" and "length ms \<le> k" and "length ms = k \<or> rs = []" and "blocks P k rs"
  shows "blocks P k (ms @ rs)"
  unfolding blocks_def
proof
  fix i
  show "P (take k (drop (i * k) (ms @ rs)))"
  proof (cases i)
    case 0
    with assms show ?thesis by auto
  next
    case (Suc j)
    have "drop (i * k) (ms @ rs) = drop (j * k) rs" using assms(3,4) Suc by auto
    with assms(5) show ?thesis by (simp add: blocks_def)
  qed
qed

lemma blocks_whole: "blocks P k xs \<Longrightarrow> length xs \<le> k \<Longrightarrow> P xs"
  using blocks_split(1) [of P k xs] by simp

lemma blocks_mono: "blocks P k xs \<Longrightarrow> (\<And>ys. set ys \<subseteq> set xs \<Longrightarrow> P ys \<Longrightarrow> Q ys) \<Longrightarrow> blocks Q k xs"
  unfolding blocks_def by (meson order_trans set_drop_subset set_take_subset)

lemma split_run_seg:
  assumes "seg s p rs None" and "rs \<noteq> []" and "0 < k"
  shows "\<exists>q. split_run k s p c = Some (q, c + length (take k rs)) \<and> seg s p (take k rs) q
    \<and> seg s q (drop k rs) None"
  using assms
proof (induction k arbitrary: p rs c)
  case (Suc k)
  then obtain a as where r: "rs = a # as" by (cases rs) auto
  show ?case
  proof (cases "as = [] \<or> k = 0")
    case True
    with Suc.prems r show ?thesis by auto
  next
    case False
    with Suc.prems r obtain q where "split_run k s (next_of s a) (Suc c) = Some (q, Suc c + length (take k as))"
      "seg s (next_of s a) (take k as) q" "seg s q (drop k as) None"
      using Suc.IH [of "next_of s a" as "Suc c"] by auto
    moreover have "next_of s a \<noteq> None" using False Suc.prems r by (cases as) auto
    ultimately show ?thesis using Suc.prems r by auto
  qed
qed simp

section \<open>Merge sort with a comparison that may cache\<close>

text \<open>
  A comparison evaluates two data items and may record their values in the items: a value once
  recorded stays, and comparisons agree with the recorded values. \<open>inv\<close> is what the comparison
  needs of its results structure and of the items, and keeps.
\<close>

definition value_ext :: "(list_data list \<Rightarrow> nat \<Rightarrow> bool) \<Rightarrow> (list_data list \<Rightarrow> nat \<Rightarrow> int)
    \<Rightarrow> list_data list \<Rightarrow> list_data list \<Rightarrow> bool" where
  "value_ext known val ds ds' \<longleftrightarrow> length ds' = length ds
     \<and> (\<forall>i < length ds. known ds i \<longrightarrow> known ds' i \<and> val ds' i = val ds i)"

lemma value_ext_refl: "value_ext known val ds ds"
  by (simp add: value_ext_def)

lemma value_ext_trans:
  "value_ext known val ds ds' \<Longrightarrow> value_ext known val ds' ds'' \<Longrightarrow> value_ext known val ds ds''"
  by (simp add: value_ext_def)

text \<open>Both cells are evaluated, and the first value is not greater.\<close>

definition cell_le :: "(list_data list \<Rightarrow> nat \<Rightarrow> bool) \<Rightarrow> (list_data list \<Rightarrow> nat \<Rightarrow> int)
    \<Rightarrow> store \<Rightarrow> nat \<Rightarrow> nat \<Rightarrow> bool" where
  "cell_le known val s a b \<longleftrightarrow> known (datas s) (info_of s a) \<and> known (datas s) (info_of s b)
     \<and> val (datas s) (info_of s a) \<le> val (datas s) (info_of s b)"

lemma cell_le_trans: "cell_le known val s a b \<Longrightarrow> cell_le known val s b c \<Longrightarrow> cell_le known val s a c"
  by (auto simp: cell_le_def)

text \<open>The store after some steps of the sort.\<close>

definition sort_frame :: "(list_data list \<Rightarrow> nat \<Rightarrow> bool) \<Rightarrow> (list_data list \<Rightarrow> nat \<Rightarrow> int)
    \<Rightarrow> store \<Rightarrow> store \<Rightarrow> bool" where
  "sort_frame known val s s' \<longleftrightarrow> length (heads s') = length (heads s)
     \<and> (\<forall>a < length (heads s). info_of s' a = info_of s a) \<and> value_ext known val (datas s) (datas s')"

lemma sort_frame_refl: "sort_frame known val s s"
  by (simp add: sort_frame_def value_ext_refl)

lemma sort_frame_trans:
  "sort_frame known val s s' \<Longrightarrow> sort_frame known val s' s'' \<Longrightarrow> sort_frame known val s s''"
  unfolding sort_frame_def using value_ext_trans [of known val] by metis

lemma relinked_frame: "relinked out s s' \<Longrightarrow> sort_frame known val s s'"
  by (simp add: relinked_def sort_frame_def value_ext_refl)

lemma cell_le_frame:
  assumes "sort_frame known val s s'" and "a < length (heads s)" and "b < length (heads s)"
    and "wf_infos s [a, b]" and "cell_le known val s a b"
  shows "cell_le known val s' a b"
  using assms by (simp add: cell_le_def sort_frame_def value_ext_def)

lemma sorted_frame:
  assumes "sort_frame known val s s'" and "\<forall>a \<in> set xs. a < length (heads s)" and "wf_infos s xs"
    and "sorted_wrt (cell_le known val s) xs"
  shows "sorted_wrt (cell_le known val s') xs"
  using assms(2,3,4)
proof (induction xs)
  case (Cons a xs)
  then show ?case using cell_le_frame [OF assms(1), of a] by (auto simp: wf_infos_def)
qed simp

lemma wf_infos_frame:
  "sort_frame known val s s' \<Longrightarrow> \<forall>a \<in> set xs. a < length (heads s) \<Longrightarrow> wf_infos s xs \<Longrightarrow> wf_infos s' xs"
  by (simp add: wf_infos_def sort_frame_def value_ext_def)

text \<open>
  The state of a merge: \<open>prev\<close> is the output of the earlier merges, \<open>out\<close> of this one, \<open>xs\<close> and \<open>ys\<close>
  are what is left of the two runs, and \<open>zs\<close> are the cells behind them.
\<close>

definition merging :: "(list_data list \<Rightarrow> nat \<Rightarrow> bool) \<Rightarrow> (list_data list \<Rightarrow> nat \<Rightarrow> int)
    \<Rightarrow> nat list \<Rightarrow> nat list \<Rightarrow> nat list \<Rightarrow> nat list \<Rightarrow> nat list
    \<Rightarrow> nat option \<Rightarrow> nat option \<Rightarrow> nat option \<Rightarrow> nat option \<Rightarrow> store \<Rightarrow> bool" where
  "merging known val prev out xs ys zs p q l t s \<longleftrightarrow>
     chain s l t (prev @ out) \<and> (\<exists>m. seg s p xs m) \<and> seg s q (ys @ zs) None
     \<and> distinct (prev @ out @ xs @ ys @ zs) \<and> wf_infos s (prev @ out @ xs @ ys @ zs)
     \<and> (\<forall>a \<in> set (prev @ out @ xs @ ys @ zs). a < length (heads s))
     \<and> sorted_wrt (cell_le known val s) (out @ xs) \<and> sorted_wrt (cell_le known val s) (out @ ys)"

lemma merging_take:
  assumes m: "merging known val prev out xs ys zs p q l t s"
    and e: "xs = e # xs' \<and> ys = ys' \<and> p' = next_of s e \<and> q' = q \<and> (\<forall>y \<in> set ys. cell_le known val s e y)
      \<or> ys = e # ys' \<and> xs = xs' \<and> q' = next_of s e \<and> p' = p \<and> (\<forall>x \<in> set xs. cell_le known val s e x)"
  shows "\<exists>l' t' s'. append_item e l t s = Some (l', t', s')
    \<and> merging known val prev (out @ [e]) xs' ys' zs p' q' l' t' s' \<and> sort_frame known val s s' \<and> datas s' = datas s"
proof -
  have d: "distinct (prev @ out @ [e])" "e < length (heads s)" "chain s l t (prev @ out)"
    using m e by (auto simp: merging_def)
  obtain l' t' s' where a: "append_item e l t s = Some (l', t', s')" "chain s' l' t' ((prev @ out) @ [e])"
    and r: "relinked (set (prev @ out)) s s'"
    using append_item_chain [of s l t "prev @ out" e] d by auto
  have f: "sort_frame known val s s'" using r by (rule relinked_frame)
  have len: "length (heads s') = length (heads s)" using r by (simp add: relinked_def)
  have "\<exists>m. seg s p' xs' m" "seg s q' (ys' @ zs) None"
    using m e by (auto simp: merging_def)
  moreover have "set xs' \<inter> set (prev @ out) = {}" "set (ys' @ zs) \<inter> set (prev @ out) = {}"
    using m e by (auto simp: merging_def)
  ultimately have s: "\<exists>m. seg s' p' xs' m" "seg s' q' (ys' @ zs) None"
    using relinked_seg [OF r] by blast+
  have w: "wf_infos s' (prev @ (out @ [e]) @ xs' @ ys' @ zs)"
    using m e by (intro wf_infos_frame [OF f]) (auto simp: merging_def)
  have o: "sorted_wrt (cell_le known val s) ((out @ [e]) @ xs')" "sorted_wrt (cell_le known val s) ((out @ [e]) @ ys')"
    using m e by (auto simp: merging_def sorted_wrt_append)
  have bd: "\<forall>a \<in> set ((out @ [e]) @ xs'). a < length (heads s)" "\<forall>a \<in> set ((out @ [e]) @ ys'). a < length (heads s)"
    "wf_infos s ((out @ [e]) @ xs')" "wf_infos s ((out @ [e]) @ ys')"
    using m e by (auto simp: merging_def)
  have o': "sorted_wrt (cell_le known val s') ((out @ [e]) @ xs')" "sorted_wrt (cell_le known val s') ((out @ [e]) @ ys')"
    using sorted_frame [OF f bd(1) bd(3) o(1)] sorted_frame [OF f bd(2) bd(4) o(2)] by blast+
  have "distinct (prev @ (out @ [e]) @ xs' @ ys' @ zs)"
    "\<forall>a \<in> set (prev @ (out @ [e]) @ xs' @ ys' @ zs). a < length (heads s')"
    using m e by (auto simp: merging_def len)
  with a s w o' f r show ?thesis by (auto simp: merging_def relinked_def)
qed

lemma merging_data:
  assumes m: "merging known val prev out xs ys zs p q l t s" and "value_ext known val (datas s) ds"
  shows "merging known val prev out xs ys zs p q l t (s\<lparr>datas := ds\<rparr>)
    \<and> sort_frame known val s (s\<lparr>datas := ds\<rparr>)"
proof -
  let ?s = "s\<lparr>datas := ds\<rparr>"
  have f: "sort_frame known val s ?s" using assms(2) by (simp add: sort_frame_def)
  have g: "seg ?s a bs c = seg s a bs c" for a bs c by (intro seg_cong) simp_all
  have c: "chain ?s l t (prev @ out)" using m by (simp add: merging_def chain_def g)
  have w: "wf_infos ?s (prev @ out @ xs @ ys @ zs)"
    using m by (intro wf_infos_frame [OF f]) (auto simp: merging_def)
  have bd: "\<forall>a \<in> set (out @ xs). a < length (heads s)" "\<forall>a \<in> set (out @ ys). a < length (heads s)"
    "wf_infos s (out @ xs)" "wf_infos s (out @ ys)"
    using m by (auto simp: merging_def)
  have "sorted_wrt (cell_le known val ?s) (out @ xs)" "sorted_wrt (cell_le known val ?s) (out @ ys)"
    using sorted_frame [OF f bd(1) bd(3)] sorted_frame [OF f bd(2) bd(4)] m by (simp_all add: merging_def)
  with m f c w show ?thesis by (simp add: merging_def g)
qed

locale caching_comparison =
  fixes cmp :: "'r list_cmp"
    and known :: "list_data list \<Rightarrow> nat \<Rightarrow> bool"
    and val :: "list_data list \<Rightarrow> nat \<Rightarrow> int"
    and inv :: "'r \<Rightarrow> list_data list \<Rightarrow> bool"
  assumes compare: "inv r ds \<Longrightarrow> i < length ds \<Longrightarrow> j < length ds \<Longrightarrow>
    \<exists>c r' ds'. cmp i j r ds = Some (c, r', ds') \<and> inv r' ds' \<and> value_ext known val ds ds'
      \<and> known ds' i \<and> known ds' j \<and> (c \<le>s 0 \<longleftrightarrow> val ds' i \<le> val ds' j)"
begin

lemma merge_sorts:
  assumes "merging known val prev out xs ys zs p q l t s" and "inv r (datas s)"
    and "length ys \<le> qsize" and "length ys = qsize \<or> zs = []"
  shows "\<exists>q' l' t' r' s' ms. merge_loop cmp p (length xs) q qsize l t r s = Some (q', l', t', r', s')
    \<and> inv r' (datas s') \<and> sort_frame known val s s' \<and> chain s' l' t' (prev @ ms)
    \<and> sorted_wrt (cell_le known val s') ms \<and> mset ms = mset (out @ xs @ ys) \<and> seg s' q' zs None"
  using assms
proof (induction "length xs + length ys" arbitrary: out xs ys p q l t s r qsize rule: less_induct)
  case less
  note m = less.prems(1)
  have continue: ?case
    if "merge_loop cmp p (length xs) q qsize l t r s = merge_loop cmp p' (length xs') q' qsize' l' t' r' s'"
      and "merging known val prev out' xs' ys' zs p' q' l' t' s'" and "inv r' (datas s')"
      and f: "sort_frame known val s s'" and "length ys' \<le> qsize'" and "length ys' = qsize' \<or> zs = []"
      and "length xs' + length ys' < length xs + length ys" and "mset (out' @ xs' @ ys') = mset (out @ xs @ ys)"
    for p' q' qsize' l' t' r' s' out' xs' ys'
    using less.hyps [OF that(7) that(2,3,5,6)] that(1) that(8) sort_frame_trans [OF f] by metis
  consider (stop) "xs = []" "ys = []" | (right) y ys' where "xs = []" "ys = y # ys'"
    | (left) x xs' where "xs = x # xs'" "ys = []" | (both) x xs' y ys' where "xs = x # xs'" "ys = y # ys'"
    by (cases xs; cases ys) auto
  then show ?case
  proof cases
    case stop
    then have "qsize = 0 \<or> q = None" using less.prems by (auto simp: merging_def)
    with stop less.prems show ?thesis
      by (subst merge_loop.simps) (auto simp: merging_def sort_frame_refl intro!: exI [of _ out])
  next
    case right
    have y: "q = Some y" "y < length (heads s)" "qsize \<noteq> 0" using less.prems right by (auto simp: merging_def)
    obtain l' t' s' where a: "append_item y l t s = Some (l', t', s')"
      "merging known val prev (out @ [y]) [] ys' zs p (next_of s y) l' t' s'" "sort_frame known val s s'"
      "datas s' = datas s"
      using merging_take [OF m, of y xs ys' p "next_of s y"] right by auto
    show ?thesis
      by (rule continue [of p "[]" "next_of s y" "qsize - 1" l' t' r s' "out @ [y]" ys'])
        (use a y right less.prems in \<open>auto simp: merge_loop.simps [of cmp p 0]\<close>)
  next
    case left
    have q0: "qsize = 0 \<or> q = None" using less.prems left by (auto simp: merging_def)
    have x: "p = Some x" "x < length (heads s)" using m left by (auto simp: merging_def)
    obtain l' t' s' where a: "append_item x l t s = Some (l', t', s')"
      "merging known val prev (out @ [x]) xs' [] zs (next_of s x) q l' t' s'" "sort_frame known val s s'"
      "datas s' = datas s"
      using merging_take [OF m, of x xs' ys "next_of s x" q] left by auto
    show ?thesis
      by (rule continue [of "next_of s x" xs' q qsize l' t' r s' "out @ [x]" "[]"])
        (use a x q0 left less.prems in \<open>auto simp: merge_loop.simps [of cmp "Some x" "Suc (length xs')"]\<close>)
  next
    case both
    have x: "p = Some x" "x < length (heads s)" "q = Some y" "y < length (heads s)" "qsize \<noteq> 0"
      using less.prems both by (auto simp: merging_def)
    have "info_of s x < length (datas s)" "info_of s y < length (datas s)"
      using m both by (auto simp: merging_def)
    then obtain c r1 ds where c: "cmp (info_of s x) (info_of s y) r (datas s) = Some (c, r1, ds)"
      "inv r1 ds" "value_ext known val (datas s) ds" "known ds (info_of s x)" "known ds (info_of s y)"
      "c \<le>s 0 \<longleftrightarrow> val ds (info_of s x) \<le> val ds (info_of s y)"
      using compare [OF less.prems(2)] by blast
    let ?s = "s\<lparr>datas := ds\<rparr>"
    have m1: "merging known val prev out xs ys zs p q l t ?s" and f1: "sort_frame known val s ?s"
      using merging_data [OF m c(3)] by blast+
    have unfold: "merge_loop cmp p (length xs) q qsize l t r s =
        (if c \<le>s 0 then do {
           (l, t, s) \<leftarrow> append_item x l t ?s;
           merge_loop cmp (next_of ?s x) (length xs') q qsize l t r1 s }
         else do {
           (l, t, s) \<leftarrow> append_item y l t ?s;
           merge_loop cmp p (length xs) (next_of ?s y) (qsize - 1) l t r1 s })"
      by (subst merge_loop.simps) (use x both c(1) in simp)
    show ?thesis
    proof (cases "c \<le>s 0")
      case True
      then have "cell_le known val ?s x y" using c by (simp add: cell_le_def)
      moreover have "\<forall>z \<in> set ys'. cell_le known val ?s y z"
        using m1 both by (auto simp: merging_def sorted_wrt_append)
      ultimately have "\<forall>z \<in> set ys. cell_le known val ?s x z"
        using both cell_le_trans [of known val ?s x y] by auto
      with merging_take [OF m1, of x xs' ys "next_of ?s x" q] both obtain l' t' s'
        where a: "append_item x l t ?s = Some (l', t', s')"
          "merging known val prev (out @ [x]) xs' ys zs (next_of ?s x) q l' t' s'" "sort_frame known val ?s s'"
          "datas s' = ds" by auto
      show ?thesis
        by (rule continue [of "next_of ?s x" xs' q qsize l' t' r1 s' "out @ [x]" ys])
          (use a True unfold c(2) both less.prems sort_frame_trans [OF f1] in auto)
    next
      case False
      then have "cell_le known val ?s y x" using c by (simp add: cell_le_def)
      moreover have "\<forall>z \<in> set xs'. cell_le known val ?s x z"
        using m1 both by (auto simp: merging_def sorted_wrt_append)
      ultimately have "\<forall>z \<in> set xs. cell_le known val ?s y z"
        using both cell_le_trans [of known val ?s y x] by auto
      with merging_take [OF m1, of y xs ys' p "next_of ?s y"] both obtain l' t' s'
        where a: "append_item y l t ?s = Some (l', t', s')"
          "merging known val prev (out @ [y]) xs ys' zs p (next_of ?s y) l' t' s'" "sort_frame known val ?s s'"
          "datas s' = ds" by auto
      show ?thesis
        by (rule continue [of p xs "next_of ?s y" "qsize - 1" l' t' r1 s' "out @ [y]" ys'])
          (use a False unfold c(2) both less.prems sort_frame_trans [OF f1] in auto)
    qed
  qed
qed

lemma pass_sorts:
  assumes "0 < k" and "inv r (datas s)" and "seg s p rs None" and "distinct (prev @ rs)"
    and "wf_infos s (prev @ rs)" and "\<forall>a \<in> set (prev @ rs). a < length (heads s)" and "chain s l t prev"
    and "blocks (sorted_wrt (cell_le known val s)) k rs"
  shows "\<exists>l' t' n' r' s' ms. pass_loop cmp k p l t n r s = Some (l', t', n', r', s')
    \<and> inv r' (datas s') \<and> sort_frame known val s s' \<and> chain s' l' t' (prev @ ms)
    \<and> mset ms = mset rs \<and> blocks (sorted_wrt (cell_le known val s')) (2 * k) ms
    \<and> n \<le> n' \<and> (n' = n \<longleftrightarrow> rs = []) \<and> (n' \<le> Suc n \<longleftrightarrow> length rs \<le> 2 * k)"
  using assms
proof (induction "length rs" arbitrary: p rs prev l t n r s rule: less_induct)
  case less
  show ?case
  proof (cases "rs = []")
    case True
    with less.prems show ?thesis
      by (subst pass_loop.simps) (auto simp: sort_frame_refl blocks_def intro!: exI [of _ "[]"])
  next
    case False
    let ?xs = "take k rs" and ?ys = "take k (drop k rs)" and ?zs = "drop (2 * k) rs"
    have p: "p \<noteq> None" using False less.prems(3) by (cases rs) auto
    obtain q where q: "split_run k s p 0 = Some (q, length ?xs)" "seg s p ?xs q" "seg s q (drop k rs) None"
      using split_run_seg [OF less.prems(3) False less.prems(1), of 0] by auto
    have rs: "rs = ?xs @ ?ys @ ?zs"
      by (metis append_take_drop_id drop_drop mult_2)
    have m: "merging known val prev [] ?xs ?ys ?zs p q l t s"
      using less.prems q blocks_split(1,2) [OF less.prems(8)]
      by (auto simp: merging_def rs [symmetric] drop_drop [symmetric] mult_2 simp del: drop_drop)
    have ylen: "length ?ys \<le> k" "length ?ys = k \<or> ?zs = []" by auto
    obtain q' l1 t1 r1 s1 ms where m1: "merge_loop cmp p (length ?xs) q k l t r s = Some (q', l1, t1, r1, s1)"
      "inv r1 (datas s1)" and f1: "sort_frame known val s s1" and c1: "chain s1 l1 t1 (prev @ ms)"
      and o1: "sorted_wrt (cell_le known val s1) ms" and e1: "mset ms = mset (?xs @ ?ys)"
      and z1: "seg s1 q' ?zs None"
      using merge_sorts [OF m less.prems(2) ylen] by auto
    have mm: "mset (prev @ ms @ ?zs) = mset (prev @ rs)"
      using e1 by (subst (2) rs) (simp add: add.assoc)
    have setm: "set (prev @ ms @ ?zs) = set (prev @ rs)" using mset_eq_setD [OF mm] .
    have w: "wf_infos s (prev @ ms @ ?zs)" using less.prems(5) setm unfolding wf_infos_def by metis
    have b: "\<forall>a \<in> set (prev @ ms @ ?zs). a < length (heads s)" using less.prems(6) setm by metis
    have w1: "wf_infos s1 (prev @ ms @ ?zs)" by (rule wf_infos_frame [OF f1 b w])
    have b1: "\<forall>a \<in> set (prev @ ms @ ?zs). a < length (heads s1)" using b f1 by (simp add: sort_frame_def)
    have d1: "distinct (prev @ ms @ ?zs)" using less.prems(4) mset_eq_imp_distinct_iff [OF mm] by blast
    have k1: "blocks (sorted_wrt (cell_le known val s1)) k ?zs"
    proof (rule blocks_mono [OF blocks_split(3) [OF less.prems(8)]])
      fix us assume "set us \<subseteq> set ?zs" "sorted_wrt (cell_le known val s) us"
      moreover from this have "\<forall>a \<in> set us. a < length (heads s)" "wf_infos s us"
        using b w by (auto simp: wf_infos_def)
      ultimately show "sorted_wrt (cell_le known val s1) us" using sorted_frame [OF f1] by blast
    qed
    have lt: "length ?zs < length rs" using False less.prems(1) by (cases rs) auto
    obtain l2 t2 n2 r2 s2 ms2 where m2: "pass_loop cmp k q' l1 t1 (Suc n) r1 s1 = Some (l2, t2, n2, r2, s2)"
      "inv r2 (datas s2)" and f2: "sort_frame known val s1 s2" and c2: "chain s2 l2 t2 ((prev @ ms) @ ms2)"
      and e2: "mset ms2 = mset ?zs" and k2: "blocks (sorted_wrt (cell_le known val s2)) (2 * k) ms2"
      and n2: "Suc n \<le> n2" "n2 = Suc n \<longleftrightarrow> ?zs = []"
      using less.hyps [OF lt less.prems(1) m1(2) z1, of "prev @ ms" l1 t1 "Suc n"] d1 w1 b1 c1 k1 by auto
    have len: "length ms = length (?xs @ ?ys)" using mset_eq_length [OF e1] .
    have o2: "sorted_wrt (cell_le known val s2) ms"
      using sorted_frame [OF f2 _ _ o1] w1 b1 by auto
    have "length ms2 = length rs - 2 * k" using mset_eq_length [OF e2] by simp
    then have "length ms = 2 * k \<or> ms2 = []" "length ms \<le> 2 * k"
      using len by (cases "length rs \<le> 2 * k"; simp)+
    then have "blocks (sorted_wrt (cell_le known val s2)) (2 * k) (ms @ ms2)"
      using blocks_join [OF o2 _ _ _ k2] by simp
    moreover have "mset (ms @ ms2) = mset rs" using e1 e2 by (subst rs) simp
    moreover have "pass_loop cmp k p l t n r s = Some (l2, t2, n2, r2, s2)"
      using p q(1) m1(1) m2(1) by (subst pass_loop.simps) auto
    moreover have "n \<le> n2 \<and> (n2 = n \<longleftrightarrow> rs = []) \<and> (n2 \<le> Suc n \<longleftrightarrow> length rs \<le> 2 * k)"
      using n2 False by auto
    ultimately show ?thesis
      using m2(2) sort_frame_trans [OF f1 f2] c2 by (metis append.assoc)
  qed
qed

text \<open>The whole sort returns a sorted list of the same cells.\<close>

lemma sort_loop_sorts:
  assumes "0 < k" and "inv r (datas s)" and "seg s p xs None" and "xs \<noteq> []" and "wf_infos s xs"
    and "blocks (sorted_wrt (cell_le known val s)) k xs"
  shows "\<exists>l' r' s' ys. sort_loop cmp k p r s = Some (l', r', s') \<and> inv r' (datas s')
    \<and> sort_frame known val s s' \<and> seg s' l' ys None \<and> mset ys = mset xs
    \<and> sorted_wrt (cell_le known val s') ys"
  using assms
proof (induction "length xs - k" arbitrary: k p xs r s rule: less_induct)
  case less
  have bd: "\<forall>a \<in> set xs. a < length (heads s)" using seg_bounds [OF less.prems(3)] by blast
  obtain l1 t1 n1 r1 s1 ms where p: "pass_loop cmp k p None None 0 r s = Some (l1, t1, n1, r1, s1)"
    "inv r1 (datas s1)" and f1: "sort_frame known val s s1" and c1: "chain s1 l1 t1 ms"
    and e1: "mset ms = mset xs" and k1: "blocks (sorted_wrt (cell_le known val s1)) (2 * k) ms"
    and n1: "n1 \<le> 1 \<longleftrightarrow> length xs \<le> 2 * k"
    using pass_sorts [OF less.prems(1-3), of "[]" None None 0] less.prems seg_distinct [OF less.prems(3)] bd
    by (auto simp: chain_def)
  have ms: "ms \<noteq> []" "set ms = set xs" "distinct ms" "length ms = length xs"
    using e1 less.prems(4) seg_distinct [OF less.prems(3)] mset_eq_setD [OF e1] mset_eq_length [OF e1]
      mset_eq_imp_distinct_iff [OF e1] by auto
  then obtain pre a where a: "ms = pre @ [a]" by (cases ms rule: rev_cases) auto
  with c1 obtain m where t: "t1 = Some a" and g: "seg s1 l1 (pre @ [a]) m" by (auto simp: chain_def)
  let ?s = "upd_next a None s1"
  have al: "a < length (heads s1)" using g by (auto dest: seg_bounds)
  have g2: "seg ?s l1 ms None" using seg_set_last [OF g] ms(3) a by auto
  have "relinked {a} s1 ?s" by (simp add: relinked_def)
  then have f2: "sort_frame known val s1 ?s" by (rule relinked_frame)
  have w1: "wf_infos s1 ms" "\<forall>a \<in> set ms. a < length (heads s1)"
    using wf_infos_frame [OF f1 bd less.prems(5)] ms(2) bd f1 by (auto simp: wf_infos_def sort_frame_def)
  have k2: "blocks (sorted_wrt (cell_le known val ?s)) (2 * k) ms"
  proof (rule blocks_mono [OF k1])
    fix us assume "set us \<subseteq> set ms" "sorted_wrt (cell_le known val s1) us"
    moreover from this have "\<forall>a \<in> set us. a < length (heads s1)" "wf_infos s1 us"
      using w1 by (auto simp: wf_infos_def)
    ultimately show "sorted_wrt (cell_le known val ?s) us" using sorted_frame [OF f2] by blast
  qed
  have u: "sort_loop cmp k p r s = (if n1 \<le> 1 then Some (l1, r1, ?s) else sort_loop cmp (2 * k) l1 r1 ?s)"
    using p(1) t al by (subst sort_loop.simps) (simp add: mult.commute)
  show ?case
  proof (cases "n1 \<le> 1")
    case True
    then have "sorted_wrt (cell_le known val ?s) ms"
      using blocks_whole [OF k2] n1 ms(4) by simp
    with True u p(2) g2 e1 sort_frame_trans [OF f1 f2] show ?thesis
      by (intro exI [of _ l1] exI [of _ r1] exI [of _ ?s] exI [of _ ms]) simp
  next
    case False
    then have "length ms - 2 * k < length xs - k" using n1 ms(4) less.prems(1) by simp
    moreover have "0 < 2 * k" "inv r1 (datas ?s)" using less.prems(1) p(2) by simp_all
    ultimately obtain l' r' s' ys where "sort_loop cmp (2 * k) l1 r1 ?s = Some (l', r', s')" "inv r' (datas s')"
      "sort_frame known val ?s s'" "seg s' l' ys None" "mset ys = mset ms" "sorted_wrt (cell_le known val s') ys"
      using less.hyps [OF _ _ _ g2 ms(1) wf_infos_frame [OF f2 w1(2,1)] k2] by blast
    with u False e1 sort_frame_trans [OF sort_frame_trans [OF f1 f2]] show ?thesis by auto
  qed
qed

lemma mergesort_sorts:
  assumes "inv r (datas s)" and "seg s p xs None" and "xs \<noteq> []" and "wf_infos s xs"
  shows "\<exists>l' r' s' ys. core_list_mergesort cmp p r s = Some (l', r', s') \<and> inv r' (datas s')
    \<and> sort_frame known val s s' \<and> seg s' l' ys None \<and> mset ys = mset xs
    \<and> sorted_wrt (cell_le known val s') ys"
proof -
  have "sorted_wrt P (take 1 us)" for P and us :: "nat list" by (cases us) auto
  then show ?thesis
    unfolding core_list_mergesort_def using assms by (intro sort_loop_sorts) (simp_all add: blocks_def)
qed

end

section \<open>Comparison by index\<close>

text \<open>The high byte of an item is the backup of its data; an item is regenerated when the low byte equals it.\<close>

definition backup :: "list_data \<Rightarrow> s16" where
  "backup d = data16 d AND 0xff00"

definition regenerated :: "list_data \<Rightarrow> bool" where
  "regenerated d \<longleftrightarrow> data16 d = (data16 d AND 0xff00) OR (0x00ff AND signed_drop_bit 8 (data16 d))"

text \<open>The parts of the items that no comparison changes.\<close>

definition fixed_parts :: "list_data list \<Rightarrow> (s16 \<times> s16) list" where
  "fixed_parts ds = map (\<lambda>d. (idx d, backup d)) ds"

lemma fixed_parts_update:
  "idx d = idx (ds ! i) \<Longrightarrow> backup d = backup (ds ! i) \<Longrightarrow> fixed_parts (ds[i := d]) = fixed_parts ds"
  unfolding fixed_parts_def map_update
  by (cases "i < length ds") (auto simp: list_update_same_conv list_update_beyond)

lemma fixed_parts_length: "fixed_parts ds' = fixed_parts ds \<Longrightarrow> length ds' = length ds"
  unfolding fixed_parts_def by (drule arg_cong [of _ _ length]) simp

lemma fixed_parts_nth:
  "fixed_parts ds' = fixed_parts ds \<Longrightarrow> i < length ds \<Longrightarrow> (idx (ds' ! i), backup (ds' ! i)) = (idx (ds ! i), backup (ds ! i))"
proof -
  assume f: "fixed_parts ds' = fixed_parts ds" and i: "i < length ds"
  then have "length ds' = length ds" by (intro fixed_parts_length)
  with i have "fixed_parts ds' ! i = (idx (ds' ! i), backup (ds' ! i))"
    "fixed_parts ds ! i = (idx (ds ! i), backup (ds ! i))" by (simp_all add: fixed_parts_def)
  with f show ?thesis by simp
qed

lemma fixed_parts_idx: "fixed_parts ds' = fixed_parts ds \<Longrightarrow> i < length ds \<Longrightarrow> idx (ds' ! i) = idx (ds ! i)"
  and fixed_parts_backup: "fixed_parts ds' = fixed_parts ds \<Longrightarrow> i < length ds \<Longrightarrow> backup (ds' ! i) = backup (ds ! i)"
  using fixed_parts_nth by blast+

lemma sint_diff_s16: "sint (scast a - scast b :: s32) = sint (a :: s16) - sint (b :: s16)"
proof -
  have r: "- (2 ^ 15) \<le> sint x \<and> sint x < 2 ^ 15" for x :: s16
    using sint_greater_eq [of x] sint_less [of x] by simp
  have "(scast a - scast b :: s32) = word_of_int (sint a - sint b)"
    unfolding scast_eq by (rule wi_hom_sub)
  also have "sint (word_of_int (sint a - sint b) :: s32) = signed_take_bit 31 (sint a - sint b)"
  proof -
    have "LENGTH(32) - 1 = (31 :: nat)" by simp
    then show ?thesis using sint_sbintrunc' [of "sint a - sint b", where 'a = 32] by (simp only:)
  qed
  also have "\<dots> = sint a - sint b"
  proof (rule signed_take_bit_int_eq_self)
    have "sint a - sint b < 65536" "- 65536 \<le> sint a - sint b" using r [of a] r [of b] by simp_all
    moreover have "(65536 :: int) \<le> 2 ^ 31" by simp
    ultimately show "- (2 ^ 31) \<le> sint a - sint b" "sint a - sint b < 2 ^ 31" by linarith+
  qed
  finally show ?thesis .
qed

lemma byte_masks: "(0xff00 :: s16) = push_bit 8 (mask 8)" "(0x00ff :: s16) = mask 8"
  "(0x0080 :: s16) = push_bit 7 1" "(0x007f :: s16) = mask 7"
  by (simp_all add: mask_eq_exp_minus_1)

lemma byte_bits: "bit (0xff00 :: s16) n \<longleftrightarrow> 8 \<le> n \<and> n < 16" "bit (0x00ff :: s16) n \<longleftrightarrow> n < 8"
  "bit (0x0080 :: s16) n \<longleftrightarrow> n = 7" "bit (0x007f :: s16) n \<longleftrightarrow> n < 7"
  unfolding byte_masks
  by (simp_all only: bit_push_bit_iff bit_mask_iff bit_1_iff possible_bit_word) auto

lemma backup_regen: "((x AND 0xff00) OR (0x00ff AND y)) AND 0xff00 = (x :: s16) AND 0xff00"
  by (rule bit_word_eqI) (auto simp only: bit_simps byte_bits)

lemma backup_cached: "((x AND 0xff00) OR 0x0080 OR (y AND 0x007f)) AND 0xff00 = (x :: s16) AND 0xff00"
  by (rule bit_word_eqI) (auto simp only: bit_simps byte_bits)

lemma regenerated_regen:
  "(x :: s16) AND 0xff00 OR 0x00ff AND signed_drop_bit 8 x =
    (let y = x AND 0xff00 OR 0x00ff AND signed_drop_bit 8 x in y AND 0xff00 OR 0x00ff AND signed_drop_bit 8 y)"
  unfolding Let_def by (rule bit_word_eqI) (simp only: bit_simps byte_bits, auto)

lemma cached_bits: "bit ((x AND 0xff00) OR 0x0080 OR ((y :: s16) AND 0x007f)) 7"
  "((x AND 0xff00) OR 0x0080 OR (y AND 0x007f)) AND 0x007f = y AND 0x007f"
  by (simp only: bit_simps byte_bits, simp) (rule bit_word_eqI, auto simp only: bit_simps byte_bits)

lemma backup_update: "backup (d\<lparr>data16 := x\<rparr>) = x AND 0xff00"
  by (simp add: backup_def)

lemma regen_steps:
  assumes "i < length ds"
  shows "\<exists>ds'. regen i ds = Some ds' \<and> fixed_parts ds' = fixed_parts ds \<and> regenerated (ds' ! i)
    \<and> (\<forall>j < length ds. regenerated (ds ! j) \<longrightarrow> regenerated (ds' ! j))"
proof -
  let ?x = "data16 (ds ! i)"
  let ?d = "(ds ! i)\<lparr>data16 := (?x AND 0xff00) OR (0x00ff AND signed_drop_bit 8 ?x)\<rparr>"
  have r: "regenerated ?d"
    using regenerated_regen [of ?x] by (simp add: regenerated_def Let_def)
  have f: "fixed_parts (ds[i := ?d]) = fixed_parts ds"
    by (rule fixed_parts_update) (simp, simp only: backup_update backup_regen, simp only: backup_def)
  have "regen i ds = Some (ds[i := ?d])" using assms by (simp add: regen_def)
  moreover have "\<forall>j < length ds. regenerated (ds ! j) \<longrightarrow> regenerated (ds[i := ?d] ! j)"
    using r by (metis nth_list_update_eq nth_list_update_neq)
  ultimately show ?thesis using f r assms by (intro exI [of _ "ds[i := ?d]"]) simp
qed

definition item_idx :: "list_data list \<Rightarrow> nat \<Rightarrow> int" where
  "item_idx ds i = sint (idx (ds ! i))"

lemma cmp_idx_compare:
  assumes "i < length ds" and "j < length ds"
  shows "\<exists>c ds'. cmp_idx i j None ds = Some (c, None, ds') \<and> fixed_parts ds' = fixed_parts ds
    \<and> value_ext (\<lambda>ds i. regenerated (ds ! i)) item_idx ds ds'
    \<and> regenerated (ds' ! i) \<and> regenerated (ds' ! j) \<and> (c \<le>s 0 \<longleftrightarrow> item_idx ds' i \<le> item_idx ds' j)"
proof -
  obtain d1 where 1: "regen i ds = Some d1" "fixed_parts d1 = fixed_parts ds" "regenerated (d1 ! i)"
    "\<forall>j < length ds. regenerated (ds ! j) \<longrightarrow> regenerated (d1 ! j)"
    using regen_steps [OF assms(1)] by blast
  have l1: "length d1 = length ds" using 1(2) by (rule fixed_parts_length)
  obtain d2 where 2: "regen j d1 = Some d2" "fixed_parts d2 = fixed_parts d1" "regenerated (d2 ! j)"
    "\<forall>j < length d1. regenerated (d1 ! j) \<longrightarrow> regenerated (d2 ! j)"
    using regen_steps [of j d1] assms(2) l1 by auto
  have f: "fixed_parts d2 = fixed_parts ds" using 1(2) 2(2) by simp
  have l2: "length d2 = length ds" using f by (rule fixed_parts_length)
  have "value_ext (\<lambda>ds i. regenerated (ds ! i)) item_idx ds d2"
    using fixed_parts_idx [OF f] 1(4) 2(4) l1 l2 by (simp add: value_ext_def item_idx_def)
  moreover have "cmp_idx i j None ds = Some (scast (idx (d2 ! i)) - scast (idx (d2 ! j)), None, d2)"
    using 1(1) 2(1) assms l2 by (simp add: cmp_idx_def)
  moreover have "(scast (idx (d2 ! i)) - scast (idx (d2 ! j)) :: s32) \<le>s 0 \<longleftrightarrow> item_idx d2 i \<le> item_idx d2 j"
    unfolding word_sle_eq sint_diff_s16 by (simp add: item_idx_def)
  moreover have "regenerated (d2 ! i)" "regenerated (d2 ! j)" using 1(3) 2(3,4) assms l1 by simp_all
  ultimately show ?thesis using f
    by (intro exI [of _ "scast (idx (d2 ! i)) - scast (idx (d2 ! j))"] exI [of _ d2]) blast
qed

interpretation by_idx: caching_comparison cmp_idx "\<lambda>ds i. regenerated (ds ! i)" item_idx
    "\<lambda>r ds. r = None \<and> fixed_parts ds = parts" for parts
  by unfold_locales (use cmp_idx_compare in blast)

section \<open>Comparison by calculated value\<close>

text \<open>What the calculation needs of the results structure: both benchmarks run in their blocks and restore them.\<close>

definition results_ok :: "core_results \<Rightarrow> bool" where
  "results_ok res \<longleftrightarrow> seed2 res = seed1 res \<and> unat (res_size res) \<le> length (memblock3 res)
     \<and> (\<forall>i < unat (res_size res). memblock3 res ! i \<noteq> chr8 CHR '',''
          \<longrightarrow> memblock3 res ! i XOR ucast (seed1 res) \<noteq> chr8 CHR '','')
     \<and> (\<exists>z < length (memblock3 res). memblock3 res ! z = 0
          \<and> (unat (res_size res) \<le> z \<or> z mod 17 \<noteq> 0 \<or> ucast (seed1 res) = (0 :: u8)))
     \<and> mat_N (res_mat res) * mat_N (res_mat res) \<le> length (mat_A (res_mat res))
     \<and> mat_N (res_mat res) * mat_N (res_mat res) \<le> length (mat_B (res_mat res))
     \<and> mat_N (res_mat res) * mat_N (res_mat res) \<le> length (mat_C (res_mat res))"

text \<open>
  The inputs of the benchmarks, which no calculation changes, and the checksums of the nested
  benchmarks, which are recorded once.
\<close>

definition same_setup :: "core_results \<Rightarrow> core_results \<Rightarrow> bool" where
  "same_setup res res' \<longleftrightarrow> seed1 res' = seed1 res \<and> seed2 res' = seed2 res \<and> seed3 res' = seed3 res
     \<and> memblock3 res' = memblock3 res \<and> res_size res' = res_size res \<and> res_list res' = res_list res
     \<and> iterations res' = iterations res \<and> execs res' = execs res
     \<and> mat_N (res_mat res') = mat_N (res_mat res) \<and> mat_A (res_mat res') = mat_A (res_mat res)
     \<and> mat_B (res_mat res') = mat_B (res_mat res) \<and> length (mat_C (res_mat res')) = length (mat_C (res_mat res))"

definition sums_kept :: "core_results \<Rightarrow> core_results \<Rightarrow> bool" where
  "sums_kept res res' \<longleftrightarrow> (crcmatrix res \<noteq> 0 \<longrightarrow> crcmatrix res' = crcmatrix res)
     \<and> (crcstate res \<noteq> 0 \<longrightarrow> crcstate res' = crcstate res)"

definition same_inputs :: "core_results \<Rightarrow> core_results \<Rightarrow> bool" where
  "same_inputs res res' \<longleftrightarrow> same_setup res res' \<and> sums_kept res res' \<and> crclist res' = crclist res"

lemmas same_inputs_defs = same_inputs_def same_setup_def sums_kept_def

lemma results_ok_setup: "same_setup res res' \<Longrightarrow> results_ok res \<Longrightarrow> results_ok res'"
  by (simp add: same_setup_def results_ok_def)

lemma results_ok_inputs: "same_inputs res res' \<Longrightarrow> results_ok res \<Longrightarrow> results_ok res'"
  using results_ok_setup by (auto simp: same_inputs_def)

text \<open>The step of the state benchmark is one of 34, 51, ..., 255, a multiple of 17.\<close>

definition operand :: "s16 \<Rightarrow> s16" where
  "operand data = (let d = signed_drop_bit 3 data AND 0xf in d OR push_bit 4 d)"

lemma less_16_cases:
  "k < 16 \<Longrightarrow> k = 0 \<or> k = 1 \<or> k = 2 \<or> k = 3 \<or> k = 4 \<or> k = 5 \<or> k = 6 \<or> k = 7 \<or> k = 8 \<or> k = 9
    \<or> k = 10 \<or> k = 11 \<or> k = 12 \<or> k = 13 \<or> k = 14 \<or> k = (15 :: nat)"
  by arith

lemma state_stride:
  assumes "step = (if operand data <s 0x22 then 0x22 else operand data)"
  shows "0 <s step \<and> 17 dvd nat (sint step)"
proof -
  define d where "d = signed_drop_bit 3 data AND (0xf :: s16)"
  have "d \<le> 0xf" unfolding d_def by (rule word_and_le1)
  then have "unat d < 16" by (simp add: word_le_nat_alt)
  moreover have "d = of_nat (unat d)" by simp
  ultimately obtain k where k: "k < 16" "d = of_nat k" by blast
  have "step = (if d OR push_bit 4 d <s 0x22 then 0x22 else d OR push_bit 4 d)"
    using assms by (simp add: operand_def Let_def d_def)
  with less_16_cases [OF k(1)] k(2) show ?thesis
    by (elim disjE) (simp_all add: word_sless_alt push_bit_eq_mult)
qed

lemma optype_bit: "(ucast (signed_drop_bit 7 (data :: s16) AND 1) :: u8) \<noteq> 0 \<longleftrightarrow> bit data 7"
  by (simp add: and_one_cases bit_signed_drop_bit_iff)

lemma calc_state:
  assumes ok: "results_ok res" and st: "step = (if operand data <s 0x22 then 0x22 else operand data)"
  shows "\<exists>v. core_bench_state (unat (res_size res)) (memblock3 res) (seed1 res) (seed2 res) step (res_crc res)
    = Some (v, memblock3 res)"
proof -
  obtain z where z: "z < length (memblock3 res)" "memblock3 res ! z = 0"
    "unat (res_size res) \<le> z \<or> z mod 17 \<noteq> 0 \<or> ucast (seed1 res) = (0 :: u8)"
    using ok by (auto simp: results_ok_def)
  have "z mod 17 \<noteq> 0 \<Longrightarrow> z mod nat (sint step) \<noteq> 0"
    using state_stride [OF st] by (metis dvd_trans mod_0_imp_dvd dvd_imp_mod_0)
  with bench_state_restores [OF conjunct1 [OF state_stride [OF st]], of "unat (res_size res)" "memblock3 res" "seed1 res" z] z ok
  show ?thesis by (auto simp: results_ok_def)
qed

lemma calc_switch_total:
  assumes "results_ok res"
  shows "\<exists>v res'. calc_switch data res = Some (v, res') \<and> same_inputs res res'"
proof -
  let ?d = "operand data"
  obtain v where "core_bench_state (unat (res_size res)) (memblock3 res) (seed1 res) (seed2 res)
      (if ?d <s 0x22 then 0x22 else ?d) (res_crc res) = Some (v, memblock3 res)"
    using calc_state [OF assms refl] by blast
  moreover obtain c C' where "matrix_test (mat_N (res_mat res)) (mat_C (res_mat res)) (mat_A (res_mat res))
      (mat_B (res_mat res)) ?d = Some (c, C', mat_A (res_mat res))" "length C' = length (mat_C (res_mat res))"
    using matrix_test_total [of "mat_N (res_mat res)" "mat_A (res_mat res)" "mat_B (res_mat res)" "mat_C (res_mat res)" ?d]
      assms by (auto simp: results_ok_def same_tail_def)
  moreover have "calc_switch data res =
     (let flag = data AND 0x7 in
         if flag = 0 then do {
           (retval, m) \<leftarrow> core_bench_state (unat (res_size res)) (memblock3 res) (seed1 res) (seed2 res)
             (if ?d <s 0x22 then 0x22 else ?d) (res_crc res);
           let res = res\<lparr>memblock3 := m\<rparr>;
           Some (retval, if crcstate res = 0 then res\<lparr>crcstate := retval\<rparr> else res) }
         else if flag = 1 then do {
           (retval, mat) \<leftarrow> core_bench_matrix (res_mat res) ?d (res_crc res);
           let res = res\<lparr>res_mat := mat\<rparr>;
           Some (retval, if crcmatrix res = 0 then res\<lparr>crcmatrix := retval\<rparr> else res) }
         else Some (data, res))"
    unfolding calc_switch_def operand_def Let_def by (rule refl)
  ultimately show ?thesis
    by (simp add: core_bench_matrix_def same_inputs_defs Let_def)
qed

lemma calc_func_caches:
  assumes "results_ok res"
  shows "\<exists>v x res'. calc_func data res = Some (v, x, res') \<and> same_inputs res res'
    \<and> x AND 0xff00 = data AND 0xff00 \<and> bit x 7 \<and> v = x AND 0x007f \<and> (bit data 7 \<longrightarrow> x = data)"
proof (cases "bit data 7")
  case True
  then show ?thesis
    by (simp add: calc_func_def optype_bit same_inputs_defs)
next
  case False
  obtain v res' where "calc_switch data res = Some (v, res')" "same_inputs res res'"
    using calc_switch_total [OF assms] by blast
  then have "calc_func data res = Some (v AND 0x007f, (data AND 0xff00) OR 0x0080 OR (v AND 0x007f),
      res'\<lparr>res_crc := crcu16 v (res_crc res')\<rparr>)"
    "same_inputs res (res'\<lparr>res_crc := crcu16 v (res_crc res')\<rparr>)"
    using False by (simp_all add: calc_func_def optype_bit Let_def same_inputs_defs del: not_not)
  then show ?thesis using False backup_cached [of data v] cached_bits [of data v] by metis
qed

definition item_cached :: "list_data list \<Rightarrow> nat \<Rightarrow> bool" where
  "item_cached ds i \<longleftrightarrow> bit (data16 (ds ! i)) 7"

definition item_value :: "list_data list \<Rightarrow> nat \<Rightarrow> int" where
  "item_value ds i = sint (data16 (ds ! i) AND 0x007f)"

lemma same_inputs_refl: "same_inputs res res"
  by (simp add: same_inputs_defs)

lemma same_inputs_trans: "same_inputs res res' \<Longrightarrow> same_inputs res' res'' \<Longrightarrow> same_inputs res res''"
  by (simp add: same_inputs_defs)

lemma calc_item_caches:
  assumes "results_ok res" and i: "i < length ds"
  shows "\<exists>v res' ds'. calc_item i res ds = Some (v, res', ds') \<and> same_inputs res res'
    \<and> fixed_parts ds' = fixed_parts ds \<and> value_ext item_cached item_value ds ds'
    \<and> item_cached ds' i \<and> sint v = item_value ds' i"
proof -
  let ?d = "ds ! i"
  obtain v x res' where c: "calc_func (data16 ?d) res = Some (v, x, res')" "same_inputs res res'"
    "x AND 0xff00 = data16 ?d AND 0xff00" "bit x 7" "v = x AND 0x007f" "bit (data16 ?d) 7 \<longrightarrow> x = data16 ?d"
    using calc_func_caches [OF assms(1)] by blast
  let ?ds = "ds[i := ?d\<lparr>data16 := x\<rparr>]"
  have "calc_item i res ds = Some (v, res', ?ds)" using c(1) i by (simp add: calc_item_def)
  moreover have "fixed_parts ?ds = fixed_parts ds"
    by (rule fixed_parts_update) (simp, simp only: backup_update c(3), simp only: backup_def)
  moreover have "value_ext item_cached item_value ds ?ds"
    using c(6) i by (auto simp: value_ext_def item_cached_def item_value_def nth_list_update)
  moreover have "item_cached ?ds i" "sint v = item_value ?ds i"
    using c(4,5) i by (simp_all add: item_cached_def item_value_def)
  ultimately show ?thesis using c(2) by blast
qed

lemma cmp_complex_compare:
  assumes "results_ok res" and "i < length ds" and "j < length ds"
  shows "\<exists>c res' ds'. cmp_complex i j (Some res) ds = Some (c, Some res', ds') \<and> same_inputs res res'
    \<and> fixed_parts ds' = fixed_parts ds \<and> value_ext item_cached item_value ds ds'
    \<and> item_cached ds' i \<and> item_cached ds' j \<and> (c \<le>s 0 \<longleftrightarrow> item_value ds' i \<le> item_value ds' j)"
proof -
  obtain v1 r1 d1 where 1: "calc_item i res ds = Some (v1, r1, d1)" "same_inputs res r1"
    "fixed_parts d1 = fixed_parts ds" "value_ext item_cached item_value ds d1" "item_cached d1 i"
    "sint v1 = item_value d1 i"
    using calc_item_caches [OF assms(1,2)] by blast
  have l1: "length d1 = length ds" using 1(3) by (rule fixed_parts_length)
  obtain v2 r2 d2 where 2: "calc_item j r1 d1 = Some (v2, r2, d2)" "same_inputs r1 r2"
    "fixed_parts d2 = fixed_parts d1" "value_ext item_cached item_value d1 d2" "item_cached d2 j"
    "sint v2 = item_value d2 j"
    using calc_item_caches [OF results_ok_inputs [OF 1(2) assms(1)], of j d1] assms(3) l1 by auto
  have k: "item_cached d2 i" "item_value d2 i = item_value d1 i"
    using 2(4) 1(5) assms(2) l1 by (simp_all add: value_ext_def)
  have "cmp_complex i j (Some res) ds = Some (scast v1 - scast v2, Some r2, d2)"
    using 1(1) 2(1) by (simp add: cmp_complex_def)
  moreover have "(scast v1 - scast v2 :: s32) \<le>s 0 \<longleftrightarrow> item_value d2 i \<le> item_value d2 j"
    unfolding word_sle_eq sint_diff_s16 using 1(6) 2(6) k by simp
  ultimately show ?thesis
    using k 2(5) 1(3) 2(3) same_inputs_trans [OF 1(2) 2(2)] value_ext_trans [OF 1(4) 2(4)]
    by (intro exI [of _ "scast v1 - scast v2"] exI [of _ r2] exI [of _ d2]) simp
qed

interpretation by_value: caching_comparison cmp_complex item_cached item_value
    "\<lambda>r ds. \<exists>res'. r = Some res' \<and> results_ok res' \<and> same_inputs res res' \<and> fixed_parts ds = parts"
  for res parts
proof
  fix r ds i j
  assume "\<exists>res'. r = Some res' \<and> results_ok res' \<and> same_inputs res res' \<and> fixed_parts ds = parts"
    and ij: "i < length ds" "j < length ds"
  then obtain r1 where r1: "r = Some r1" "results_ok r1" "same_inputs res r1" "fixed_parts ds = parts" by blast
  obtain c r2 ds' where c: "cmp_complex i j (Some r1) ds = Some (c, Some r2, ds')" "same_inputs r1 r2"
    "fixed_parts ds' = fixed_parts ds" "value_ext item_cached item_value ds ds'" "item_cached ds' i"
    "item_cached ds' j" "c \<le>s 0 \<longleftrightarrow> item_value ds' i \<le> item_value ds' j"
    using cmp_complex_compare [OF r1(2) ij] by blast
  with r1 results_ok_inputs [OF c(2) r1(2)] same_inputs_trans [OF r1(3) c(2)]
  show "\<exists>c r' ds'. cmp_complex i j r ds = Some (c, r', ds')
      \<and> (\<exists>res'. r' = Some res' \<and> results_ok res' \<and> same_inputs res res' \<and> fixed_parts ds' = parts)
      \<and> value_ext item_cached item_value ds ds' \<and> item_cached ds' i \<and> item_cached ds' j
      \<and> (c \<le>s 0 \<longleftrightarrow> item_value ds' i \<le> item_value ds' j)"
    by (intro exI [of _ c] exI [of _ "Some r2"] exI [of _ ds']) simp
qed

section \<open>The sorted lists\<close>

lemma cell_le_sorted:
  "sorted_wrt (cell_le known val s) ys \<Longrightarrow> sorted (map (\<lambda>a. val (datas s) (info_of s a)) ys)"
  unfolding sorted_map by (erule sorted_wrt_mono_rel [rotated]) (simp add: cell_le_def)

lemma cell_le_known:
  assumes "sorted_wrt (cell_le known val s) ys" and "2 \<le> length ys" and "a \<in> set ys"
  shows "known (datas s) (info_of s a)"
proof -
  obtain x y zs where "ys = x # y # zs"
    using assms(2) by (cases ys; cases "tl ys") auto
  with assms(1,3) show ?thesis by (auto simp: cell_le_def)
qed

lemma frame_infos:
  "sort_frame known val s s' \<Longrightarrow> seg s p xs q \<Longrightarrow> a \<in> set xs \<Longrightarrow> info_of s' a = info_of s a"
  using seg_bounds [of s p xs q a] by (simp add: sort_frame_def)

lemma idx_sorted:
  assumes "seg s p xs None" and "xs \<noteq> []" and "wf_infos s xs"
  shows "\<exists>l' s' ys. core_list_mergesort cmp_idx p None s = Some (l', None, s') \<and> seg s' l' ys None
    \<and> mset ys = mset xs \<and> (\<forall>a \<in> set xs. info_of s' a = info_of s a)
    \<and> fixed_parts (datas s') = fixed_parts (datas s)
    \<and> sorted (map (\<lambda>a. sint (idx (data_of s' a))) ys)
    \<and> (2 \<le> length xs \<longrightarrow> (\<forall>a \<in> set xs. regenerated (data_of s' a)))
    \<and> length (heads s') = length (heads s) \<and> (\<forall>a < length (heads s). info_of s' a = info_of s a)"
proof -
  obtain l' r' s' ys where m: "core_list_mergesort cmp_idx p None s = Some (l', r', s')"
    "r' = None \<and> fixed_parts (datas s') = fixed_parts (datas s)"
    "sort_frame (\<lambda>ds i. regenerated (ds ! i)) item_idx s s'" "seg s' l' ys None" "mset ys = mset xs"
    "sorted_wrt (cell_le (\<lambda>ds i. regenerated (ds ! i)) item_idx s') ys"
    using by_idx.mergesort_sorts [of None s "fixed_parts (datas s)" p xs] assms by blast
  have "sorted (map (\<lambda>a. sint (idx (data_of s' a))) ys)"
    using cell_le_sorted [OF m(6)] by (simp add: item_idx_def)
  moreover have "\<forall>a \<in> set xs. regenerated (data_of s' a)" if "2 \<le> length xs"
    using cell_le_known [OF m(6)] that mset_eq_length [OF m(5)] mset_eq_setD [OF m(5)] by simp
  moreover have "length (heads s') = length (heads s)" "\<forall>a < length (heads s). info_of s' a = info_of s a"
    using m(3) by (simp_all add: sort_frame_def)
  ultimately show ?thesis using m frame_infos [OF m(3) assms(1)] by blast
qed

lemma value_sorted:
  assumes "seg s p xs None" and "xs \<noteq> []" and "wf_infos s xs" and "results_ok res"
  shows "\<exists>l' res' s' ys. core_list_mergesort cmp_complex p (Some res) s = Some (l', Some res', s')
    \<and> same_inputs res res' \<and> seg s' l' ys None
    \<and> mset ys = mset xs \<and> (\<forall>a \<in> set xs. info_of s' a = info_of s a)
    \<and> fixed_parts (datas s') = fixed_parts (datas s)
    \<and> sorted (map (\<lambda>a. item_value (datas s') (info_of s' a)) ys)
    \<and> length (heads s') = length (heads s) \<and> (\<forall>a < length (heads s). info_of s' a = info_of s a)"
proof -
  obtain l' r' s' ys where m: "core_list_mergesort cmp_complex p (Some res) s = Some (l', r', s')"
    "\<exists>res'. r' = Some res' \<and> results_ok res' \<and> same_inputs res res'
      \<and> fixed_parts (datas s') = fixed_parts (datas s)"
    "sort_frame item_cached item_value s s'" "seg s' l' ys None" "mset ys = mset xs"
    "sorted_wrt (cell_le item_cached item_value s') ys"
    using by_value.mergesort_sorts [of "Some res" res s "fixed_parts (datas s)" p xs] assms
      same_inputs_refl by blast
  have "length (heads s') = length (heads s)" "\<forall>a < length (heads s). info_of s' a = info_of s a"
    using m(3) by (simp_all add: sort_frame_def)
  then show ?thesis using m cell_le_sorted [OF m(6)] frame_infos [OF m(3) assms(1)] by blast
qed

section \<open>A concrete list\<close>

text \<open>A list of three cells, and benchmark inputs that are empty but for one zero byte.\<close>

definition three_cells :: store where
  "three_cells = \<lparr>heads = [\<lparr>nxt = Some 1, info = 0\<rparr>, \<lparr>nxt = Some 2, info = 1\<rparr>, \<lparr>nxt = None, info = 2\<rparr>],
     datas = [\<lparr>data16 = 0, idx = 1\<rparr>, \<lparr>data16 = 0x0101, idx = 2\<rparr>, \<lparr>data16 = 0x0202, idx = 3\<rparr>]\<rparr>"

definition plain_results :: core_results where
  "plain_results = \<lparr>seed1 = 0, seed2 = 0, seed3 = 2, memblock3 = [0], res_size = 0, iterations = 1, execs = 7, res_list = Some 0,
     res_mat = \<lparr>mat_N = 0, addr_A = 0, addr_B = 0, addr_C = 0, mat_A = [], mat_B = [], mat_C = []\<rparr>,
     res_crc = 0, crclist = 0, crcmatrix = 0, crcstate = 0, err = 0\<rparr>"

lemma plain_results_ok: "results_ok plain_results"
  by (auto simp: results_ok_def plain_results_def)

section \<open>Properties\<close>

text \<open> C5: Sorting by index returns for every non-empty list: the result is a list of the same cells
  holding the same data items, ordered by the index of the items; every item has kept its index and its
  backup byte, and in a list of two or more cells every data byte is restored from the backup. \<close>

theorem mergesort_by_idx:
  assumes "seg s p xs None" and "xs \<noteq> []" and "wf_infos s xs"
  shows "\<exists>l' s' ys. core_list_mergesort cmp_idx p None s = Some (l', None, s') \<and> seg s' l' ys None
    \<and> mset ys = mset xs \<and> (\<forall>a \<in> set xs. info_of s' a = info_of s a)
    \<and> fixed_parts (datas s') = fixed_parts (datas s)
    \<and> sorted (map (\<lambda>a. sint (idx (data_of s' a))) ys)
    \<and> (2 \<le> length xs \<longrightarrow> (\<forall>a \<in> set xs. regenerated (data_of s' a)))"
  using idx_sorted [OF assms] by blast

lemma mergesort_by_idx_witness:
  "\<exists>l' s' ys. core_list_mergesort cmp_idx (Some 0) None three_cells = Some (l', None, s') \<and> seg s' l' ys None
    \<and> mset ys = mset [0, 1, 2] \<and> (\<forall>a \<in> set [0, 1, 2]. info_of s' a = info_of three_cells a)
    \<and> fixed_parts (datas s') = fixed_parts (datas three_cells)
    \<and> sorted (map (\<lambda>a. sint (idx (data_of s' a))) ys)
    \<and> (2 \<le> length [0, 1, 2 :: nat] \<longrightarrow> (\<forall>a \<in> set [0, 1, 2]. regenerated (data_of s' a)))"
  by (rule mergesort_by_idx) (simp_all add: three_cells_def)

text \<open>Sorting by calculated value returns for every non-empty list whose results structure holds
  well-formed benchmark inputs: the result is a list of the same cells holding the same data items, the
  values recorded in the items ascend, every item has kept its index and its backup byte, and the inputs
  of the nested benchmarks are unchanged. \<close>

theorem mergesort_by_value:
  assumes "seg s p xs None" and "xs \<noteq> []" and "wf_infos s xs" and "results_ok res"
  shows "\<exists>l' res' s' ys. core_list_mergesort cmp_complex p (Some res) s = Some (l', Some res', s')
    \<and> same_inputs res res' \<and> seg s' l' ys None
    \<and> mset ys = mset xs \<and> (\<forall>a \<in> set xs. info_of s' a = info_of s a)
    \<and> fixed_parts (datas s') = fixed_parts (datas s)
    \<and> sorted (map (\<lambda>a. item_value (datas s') (info_of s' a)) ys)"
  using value_sorted [OF assms] by blast

lemma mergesort_by_value_witness:
  "\<exists>l' res' s' ys. core_list_mergesort cmp_complex (Some 0) (Some plain_results) three_cells = Some (l', Some res', s')
    \<and> same_inputs plain_results res' \<and> seg s' l' ys None
    \<and> mset ys = mset [0, 1, 2] \<and> (\<forall>a \<in> set [0, 1, 2]. info_of s' a = info_of three_cells a)
    \<and> fixed_parts (datas s') = fixed_parts (datas three_cells)
    \<and> sorted (map (\<lambda>a. item_value (datas s') (info_of s' a)) ys)"
  by (rule mergesort_by_value [OF _ _ _ plain_results_ok]) (simp_all add: three_cells_def)

end
