(* ===== verification/CoreMark_Bench.thy ===== *)
theory CoreMark_Bench
  imports CoreMark_List_Correct
begin

text \<open>
  The list benchmark as a whole: searches that reverse the list and move cells, the sort by value, a
  removal that is undone, and the sort by index. The lemmas follow the list through the steps; the
  result is that the benchmark ends with the list it started with.
\<close>

section \<open>Searching and moving\<close>

lemma core_list_find_seg:
  assumes "seg s p xs None" and "wf_infos s xs"
  shows "\<exists>f. core_list_find p d s = Some f \<and> (f = None \<or> (\<exists>a \<in> set xs. f = Some a))"
proof -
  have "find P xs = None \<or> (\<exists>a \<in> set xs. find P xs = Some a)" for P
    by (cases "find P xs") (simp, metis find_Some_iff nth_mem)
  then show ?thesis
    unfolding core_list_find_def using find_loop_seg [OF assms] by simp
qed

lemma relinked_refl: "relinked X s s"
  by (simp add: relinked_def)

lemma relinked_trans: "relinked UNIV s s' \<Longrightarrow> relinked UNIV s' s'' \<Longrightarrow> relinked UNIV s s''"
  by (simp add: relinked_def)

lemma relinked_upd: "relinked UNIV s (upd_next a n s)"
  by (simp add: relinked_def)

lemma wf_infos_relinked:
  "relinked X s s' \<Longrightarrow> \<forall>a \<in> set xs. a < length (heads s) \<Longrightarrow> wf_infos s' xs = wf_infos s xs"
  by (simp add: relinked_def wf_infos_def)

text \<open>The cell behind the found one moves behind the head.\<close>

definition move_next :: "nat \<Rightarrow> nat \<Rightarrow> nat \<Rightarrow> store \<Rightarrow> store option" where
  "move_next f finder l s = do {
     m \<leftarrow> get_next s finder;
     s \<leftarrow> set_next f m s;
     h \<leftarrow> get_next s l;
     s \<leftarrow> set_next finder h s;
     set_next l (Some finder) s }"

lemma move_next_seg:
  assumes s: "seg s (Some l) (pre @ f # g # post) None" and d: "distinct (pre @ f # g # post)"
  shows "\<exists>s' xs'. move_next f g l s = Some s' \<and> seg s' (Some l) xs' None
    \<and> mset xs' = mset (pre @ f # g # post) \<and> relinked UNIV s s'"
proof -
  let ?n = "next_of s g"
  let ?s2 = "upd_next f ?n s"
  have bd: "f < length (heads s)" "g < length (heads s)" "l < length (heads s)"
    and p: "seg s (Some g) (g # post) None" "next_of s f = Some g"
    using s by (cases pre; auto simp: seg_append dest: seg_bounds)+
  have post: "seg s ?n post None" using p by simp
  show ?thesis
  proof (cases pre)
    case Nil
    then have l: "l = f" using s by simp
    let ?s = "upd_next f (Some g) (upd_next g ?n ?s2)"
    have "move_next f g l s = Some ?s" using bd l by (simp add: move_next_def)
    moreover have "seg ?s (Some l) (f # g # post) None"
      using d Nil bd l post by (auto intro!: seg_upd_next)
    moreover have "relinked UNIV s ?s" by (intro relinked_trans [OF _ relinked_upd] relinked_upd)
    ultimately show ?thesis using Nil by fastforce
  next
    case (Cons l' pre')
    then have l: "l' = l" and q: "seg s (next_of s l) (pre' @ [f]) (Some g)"
      using s by (auto simp: seg_append)
    have lf: "l \<noteq> f" "l \<noteq> g" "f \<noteq> g" using d Cons l by auto
    let ?h = "next_of s l"
    let ?s = "upd_next l (Some g) (upd_next g ?h ?s2)"
    have "move_next f g l s = Some ?s" using bd lf by (simp add: move_next_def)
    moreover have "seg ?s2 ?h ((pre' @ [f]) @ post) None"
      unfolding seg_append [of _ _ "pre' @ [f]"]
      using seg_set_last [OF q, of ?n] seg_upd_next [OF _ post, of f ?n] d Cons by auto
    then have "seg ?s ?h ((pre' @ [f]) @ post) None"
      using d Cons l by (intro seg_upd_next [OF _ seg_upd_next]) auto
    then have "seg ?s (Some l) (l # g # (pre' @ [f]) @ post) None" using bd lf by simp
    moreover have "relinked UNIV s ?s" by (intro relinked_trans [OF _ relinked_upd] relinked_upd)
    moreover have "mset (l # g # (pre' @ [f]) @ post) = mset (pre @ f # g # post)"
      using Cons l by simp
    ultimately show ?thesis by blast
  qed
qed

lemma find_round_list:
  assumes s: "seg s list xs None" and len: "2 \<le> length xs" and w: "wf_infos s xs"
  shows "\<exists>list' d' rv' fd' ms' s' xs'. find_round i (list, d, rv, fd, ms, s) = Some (list', d', rv', fd', ms', s')
    \<and> seg s' list' xs' None \<and> mset xs' = mset xs \<and> relinked UNIV s s'"
proof -
  obtain p s1 where rev: "core_list_reverse list s = Some (p, s1)" "seg s1 p (rev xs) None"
    "datas s1 = datas s" "length (heads s1) = length (heads s)" "\<forall>a < length (heads s). info_of s1 a = info_of s a"
    using reverse_loop_seg [OF s, of None "[]"] seg_distinct [OF s] by (auto simp: core_list_reverse_def)
  then have r1: "relinked UNIV s s1" by (simp add: relinked_def)
  have bd: "\<forall>a \<in> set xs. a < length (heads s)" using seg_bounds [OF s] by blast
  have w1: "wf_infos s1 (rev xs)" using wf_infos_relinked [OF r1 bd] w by (simp add: wf_infos_def)
  obtain l m ys where ys: "rev xs = l # m # ys" using len by (cases "rev xs"; cases "tl (rev xs)") auto
  have l: "p = Some l" "l < length (heads s1)" "next_of s1 l = Some m" "m < length (heads s1)"
    using rev(2) ys by auto
  obtain f where f: "core_list_find list (d\<lparr>data16 := of_nat i AND 0xff\<rparr>) s = Some f"
    "f = None \<or> (\<exists>a \<in> set xs. f = Some a)"
    using core_list_find_seg [OF s w] by blast
  show ?thesis
  proof (cases f)
    case None
    have "get_data s1 m = Some (data_of s1 m)" using l w1 ys by simp
    with None f(1) rev l r1 show ?thesis by (simp add: find_round_def Let_def) (metis mset_rev)
  next
    case (Some a)
    then have a: "a \<in> set (rev xs)" using f(2) by auto
    then obtain pre post where split: "rev xs = pre @ a # post" by (meson split_list)
    have al: "a < length (heads s1)" using seg_bounds [OF rev(2) a] .
    have da: "get_data s1 a = Some (data_of s1 a)" using w1 a al by (simp add: wf_infos_def)
    show ?thesis
    proof (cases post)
      case Nil
      then have "next_of s1 a = None" using rev(2) split by (simp add: seg_append)
      with Some f(1) rev l r1 al da show ?thesis by (simp add: find_round_def Let_def) (metis mset_rev)
    next
      case (Cons g post')
      then have n: "next_of s1 a = Some g" using rev(2) split by (auto simp: seg_append)
      obtain s2 xs2 where m: "move_next a g l s1 = Some s2" "seg s2 (Some l) xs2 None"
        "mset xs2 = mset (pre @ a # g # post')" "relinked UNIV s1 s2"
        using move_next_seg [of s1 l pre a g post'] rev(2) l(1) split Cons seg_distinct [OF rev(2)] by auto
      have "mset xs2 = mset xs" using m(3) split Cons by (metis mset_rev)
      with Some f(1) rev(1) l(1) m n al da relinked_trans [OF r1 m(4)] show ?thesis
        by (simp add: find_round_def Let_def move_next_def) metis
    qed
  qed
qed

text \<open>All searches.\<close>

lemma find_rounds_list:
  assumes s: "seg s list xs None" and len: "2 \<le> length xs" and w: "wf_infos s xs"
  shows "\<exists>list' d' rv' fd' ms' s' xs'. for_loop n find_round (list, d, rv, fd, ms, s) = Some (list', d', rv', fd', ms', s')
    \<and> seg s' list' xs' None \<and> mset xs' = mset xs \<and> relinked UNIV s s'"
proof -
  define P where "P st \<longleftrightarrow> (case st of (list', d', rv', fd', ms', s') \<Rightarrow>
      \<exists>xs'. seg s' list' xs' None \<and> mset xs' = mset xs \<and> relinked UNIV s s')"
    for st :: "nat option \<times> list_data \<times> u16 \<times> u16 \<times> u16 \<times> store"
  have "\<exists>st. for_loop n find_round (list, d, rv, fd, ms, s) = Some st \<and> P st"
  proof (rule for_loop_invariant [of "\<lambda>_. P"])
    show "P (list, d, rv, fd, ms, s)" using s relinked_refl by (auto simp: P_def)
    fix i st assume "P st"
    then obtain list1 d1 rv1 fd1 ms1 s1 xs1 where st: "st = (list1, d1, rv1, fd1, ms1, s1)"
      and p: "seg s1 list1 xs1 None" "mset xs1 = mset xs" "relinked UNIV s s1"
      by (cases st) (auto simp: P_def)
    have "wf_infos s xs1" using w mset_eq_setD [OF p(2)] by (simp add: wf_infos_def)
    then have "wf_infos s1 xs1"
      using wf_infos_relinked [OF p(3), of xs1] seg_bounds [OF s] mset_eq_setD [OF p(2)] by auto
    from find_round_list [OF p(1) _ this] len mset_eq_length [OF p(2)]
    obtain list2 d2 rv2 fd2 ms2 s2 xs2 where
      "find_round i (list1, d1, rv1, fd1, ms1, s1) = Some (list2, d2, rv2, fd2, ms2, s2)"
      "seg s2 list2 xs2 None" "mset xs2 = mset xs1" "relinked UNIV s1 s2" by metis
    with p st relinked_trans show "\<exists>st'. find_round i st = Some st' \<and> P st'"
      by (fastforce simp: P_def)
  qed
  then show ?thesis by (auto simp: P_def)
qed

section \<open>Checksums\<close>

lemma crc_loop_total:
  assumes "seg s f zs None" and "l < length (heads s)" and "info_of s l < length (datas s)"
  shows "\<exists>crc. crc_loop l f rv s = Some crc"
  using assms(1)
proof (induction zs arbitrary: f rv)
  case Nil
  then show ?case by (simp add: crc_loop.simps)
next
  case (Cons a zs)
  then show ?case using assms(2,3) by (simp add: crc_loop.simps [of l "Some a"] Let_def)
qed

lemma seg_from:
  assumes "seg s p xs None" and "a \<in> set xs"
  shows "\<exists>zs. seg s (Some a) zs None"
proof -
  obtain pre post where "xs = pre @ a # post" using assms(2) by (meson split_list)
  with assms(1) show ?thesis by (auto simp: seg_append intro: exI [of _ "a # post"])
qed

section \<open>Removal and undoing it\<close>

text \<open>The part of the benchmark between the two sorts leaves the store as it was.\<close>

lemma remove_search_undo_restores:
  assumes s: "seg s (Some l) xs None" and len: "3 \<le> length xs" and w: "wf_infos s xs"
  shows "\<exists>crc. remove_search_undo l (Some l) d rv s = Some (crc, s)"
proof -
  obtain l' a b rest where "xs = l' # a # b # rest"
    using len by (cases xs; cases "tl xs"; cases "tl (tl xs)") auto
  with s have xs: "xs = l # a # b # rest" by simp
  have t: "seg s (Some a) (a # b # rest) None" and l: "l < length (heads s)" "next_of s l = Some a"
    using s xs by auto
  have d: "l \<noteq> a" "l \<noteq> b" "a \<notin> set rest" "b \<notin> set rest" "l \<notin> set rest" using seg_distinct [OF s] xs by auto
  obtain s1 where r: "core_list_remove a s = Some (b, s1)" "core_list_undo_remove b a s1 = Some (b, s)"
    "seg s1 (Some a) (a # rest) None" "info_of s1 a = info_of s b" "datas s1 = datas s"
    "length (heads s1) = length (heads s)"
    "\<forall>c < length (heads s). c \<noteq> a \<and> c \<noteq> b \<longrightarrow> next_of s1 c = next_of s c \<and> info_of s1 c = info_of s c"
    using remove_undo [OF t] by blast
  have l1: "l < length (heads s1)" "next_of s1 l = Some a" "info_of s1 l < length (datas s1)"
    using r l d w xs by simp_all
  have "info_of s1 c = info_of s c" if "c \<in> set rest" for c
    using seg_bounds [OF s, of c] xs that r(7) d(3,4) by auto
  then have w1: "wf_infos s1 (l # a # rest)"
    using r d w xs l1(3) by (auto simp: wf_infos_def)
  have s1: "seg s1 (Some l) (l # a # rest) None" using l1 r(3) by simp
  obtain f where f: "core_list_find (Some l) d s1 = Some f" "f = None \<or> (\<exists>c \<in> set (l # a # rest). f = Some c)"
    using core_list_find_seg [OF s1 w1] by blast
  have "\<exists>zs. seg s1 (if f = None then Some a else f) zs None"
    using f(2) seg_from [OF s1] r(3) by auto
  then obtain crc where "crc_loop l (if f = None then Some a else f) rv s1 = Some crc"
    using crc_loop_total [OF _ l1(1,3)] by blast
  then show ?thesis using l l1 r(1,2) f(1) by (simp add: remove_search_undo_def)
qed

section \<open>The whole benchmark\<close>

lemma regenerated_unique:
  assumes "regenerated d" and "regenerated d'" and "backup d' = backup d" and "idx d' = idx d"
  shows "d' = (d :: list_data)"
proof -
  have hi: "bit (data16 d') n = bit (data16 d) n" if "8 \<le> n" "n < 16" for n
    using assms(3) that unfolding backup_def by (metis bit_and_iff byte_bits(1))
  have low: "bit (data16 e) n = bit (data16 e) (8 + n)" if "regenerated e" "n < 8" for e :: list_data and n
  proof -
    have "bit (data16 e) n = bit ((data16 e AND 0xff00) OR (0x00ff AND signed_drop_bit 8 (data16 e))) n"
      using that(1) unfolding regenerated_def by (rule arg_cong)
    with that(2) show ?thesis by (simp add: bit_simps byte_bits del: bit_numeral_word_iff)
  qed
  have "data16 d' = data16 d"
  proof (rule bit_word_eqI)
    fix n assume "n < LENGTH(16)"
    then show "bit (data16 d') n = bit (data16 d) n"
      using hi [of n] hi [of "8 + n"] low [OF assms(1), of n] low [OF assms(2), of n]
      by (cases "n < 8") simp_all
  qed
  with assms(4) show ?thesis by simp
qed

text \<open>A permutation of a strictly ordered list that is ordered is the list itself.\<close>

lemma sorted_permutation:
  fixes f :: "nat \<Rightarrow> int"
  assumes "sorted_wrt (<) (map f xs)" and "sorted (map f ys)" and "mset ys = mset xs"
  shows "ys = xs"
proof -
  have "sorted (map f xs)" "distinct (map f xs)"
    using assms(1) by (simp_all add: strict_sorted_iff)
  moreover have "mset (map f ys) = mset (map f xs)" using assms(3) by simp
  ultimately have "map f ys = map f xs" using assms(2) by (metis properties_for_sort)
  moreover have "inj_on f (set ys \<union> set xs)"
    using \<open>distinct (map f xs)\<close> mset_eq_setD [OF assms(3)] by (simp add: distinct_map)
  ultimately show ?thesis using map_inj_on by blast
qed

text \<open>The optional sort by value.\<close>

lemma value_stage:
  assumes "seg s p xs None" and "xs \<noteq> []" and "wf_infos s xs" and "results_ok res"
  shows "\<exists>l' res' s' ys. (if b then core_list_mergesort cmp_complex p (Some res) s else Some (p, Some res, s))
      = Some (l', Some res', s')
    \<and> same_inputs res res' \<and> seg s' l' ys None \<and> mset ys = mset xs
    \<and> fixed_parts (datas s') = fixed_parts (datas s)
    \<and> length (heads s') = length (heads s) \<and> (\<forall>a < length (heads s). info_of s' a = info_of s a)"
proof (cases b)
  case True
  with value_sorted [OF assms] show ?thesis by auto
next
  case False
  with assms(1) same_inputs_refl show ?thesis by auto
qed

lemma bench_list_restores:
  assumes s: "seg s (res_list res) xs None" and len: "3 \<le> length xs" and w: "wf_infos s xs"
    and ok: "results_ok res"
    and idx: "sorted_wrt (<) (map (\<lambda>a. sint (idx (data_of s a))) xs)"
    and reg: "\<forall>a \<in> set xs. regenerated (data_of s a)"
  shows "\<exists>crc res' s'. core_bench_list res finder_idx s = Some (crc, res', s') \<and> same_inputs res res'
    \<and> seg s' (res_list res) xs None
    \<and> (\<forall>a \<in> set xs. info_of s' a = info_of s a \<and> data_of s' a = data_of s a)
    \<and> length (datas s') = length (datas s)"
proof -
  obtain l1 d1 rv1 fd1 ms1 s1 xs1 where 1:
    "for_loop (nat (sint (seed3 res))) find_round (res_list res, \<lparr>data16 = 0, idx = finder_idx\<rparr>, 0, 0, 0, s)
      = Some (l1, d1, rv1, fd1, ms1, s1)" "seg s1 l1 xs1 None" "mset xs1 = mset xs" and r1: "relinked UNIV s s1"
    using find_rounds_list [OF s _ w] len by (metis Suc_leD numeral_2_eq_2 numeral_3_eq_3)
  have bd: "\<forall>a \<in> set xs. a < length (heads s)" using seg_bounds [OF s] by blast
  have set1: "set xs1 = set xs" using mset_eq_setD [OF 1(3)] .
  have w1: "wf_infos s1 xs1" using wf_infos_relinked [OF r1, of xs1] w bd set1 by (simp add: wf_infos_def)
  have ne1: "xs1 \<noteq> []" using 1(3) len by auto
  obtain l2 res2 s2 xs2 where 2: "(if 0 <s finder_idx then core_list_mergesort cmp_complex l1 (Some res) s1
      else Some (l1, Some res, s1)) = Some (l2, Some res2, s2)" "same_inputs res res2" "seg s2 l2 xs2 None"
    "mset xs2 = mset xs1" "fixed_parts (datas s2) = fixed_parts (datas s1)"
    "length (heads s2) = length (heads s1)" "\<forall>a < length (heads s1). info_of s2 a = info_of s1 a"
    using value_stage [OF 1(2) ne1 w1 ok] by blast
  have i2: "info_of s2 a = info_of s a" if "a \<in> set xs" for a
    using 2(7) r1 bd that by (simp add: relinked_def)
  have f2: "fixed_parts (datas s2) = fixed_parts (datas s)" using 2(5) r1 by (simp add: relinked_def)
  have set2: "set xs2 = set xs" using mset_eq_setD [OF 2(4)] set1 by simp
  have w2: "wf_infos s2 xs2"
    using w i2 set2 fixed_parts_length [OF f2] by (simp add: wf_infos_def)
  have len2: "length xs2 = length xs" using mset_eq_length [OF 2(4)] mset_eq_length [OF 1(3)] by simp
  obtain l ts where l: "xs2 = l # ts" using len len2 by (cases xs2) auto
  with 2(3) have l2: "l2 = Some l" by simp
  obtain rv3 where 3: "remove_search_undo l (Some l) d1 (rv1 + (fd1 * 4 - ms1)) s2 = Some (rv3, s2)"
    using remove_search_undo_restores [OF _ _ w2, of l] 2(3) l2 len len2 by metis
  obtain l4 s4 ys where 4: "core_list_mergesort cmp_idx (Some l) None s2 = Some (l4, None, s4)"
    "seg s4 l4 ys None" "mset ys = mset xs2" "\<forall>a \<in> set xs2. info_of s4 a = info_of s2 a"
    "fixed_parts (datas s4) = fixed_parts (datas s2)" "sorted (map (\<lambda>a. sint (idx (data_of s4 a))) ys)"
    "2 \<le> length xs2 \<longrightarrow> (\<forall>a \<in> set xs2. regenerated (data_of s4 a))"
    using idx_sorted [of s2 "Some l" xs2] 2(3) l2 l w2 by blast
  have i4: "info_of s4 a = info_of s a" if "a \<in> set xs" for a using 4(4) i2 set2 that by simp
  have f4: "fixed_parts (datas s4) = fixed_parts (datas s)" using 4(5) f2 by simp
  have d4: "data_of s4 a = data_of s a" if "a \<in> set xs" for a
  proof (rule regenerated_unique)
    have "info_of s a < length (datas s)" using w that by (simp add: wf_infos_def)
    then show "backup (data_of s4 a) = backup (data_of s a)" "idx (data_of s4 a) = idx (data_of s a)"
      using fixed_parts_idx [OF f4] fixed_parts_backup [OF f4] i4 [OF that] by simp_all
    show "regenerated (data_of s a)" "regenerated (data_of s4 a)"
      using reg that 4(7) set2 len len2 by simp_all
  qed
  have "mset ys = mset xs" using 4(3) 2(4) 1(3) by simp
  moreover have "sorted (map (\<lambda>a. sint (idx (data_of s a))) ys)"
  proof -
    have "map (\<lambda>a. sint (idx (data_of s a))) ys = map (\<lambda>a. sint (idx (data_of s4 a))) ys"
      using d4 mset_eq_setD [OF \<open>mset ys = mset xs\<close>] by simp
    with 4(6) show ?thesis by (simp only:)
  qed
  ultimately have ys: "ys = xs" using sorted_permutation [OF idx] by blast
  obtain h hs where h: "xs = h # hs" using len by (cases xs) auto
  have p4: "seg s4 l4 xs None" using 4(2) ys by simp
  have head: "l4 = Some h" "res_list res = Some h" using p4 s h by simp_all
  have hl: "h < length (heads s4)" "seg s4 (next_of s4 h) hs None" using p4 h by simp_all
  have "info_of s4 h < length (datas s4)"
    using w i4 [of h] h fixed_parts_length [OF f4] by simp
  then obtain crc where 5: "crc_loop h (next_of s4 h) rv3 s4 = Some crc"
    using crc_loop_total [OF hl(2,1)] by blast
  have "core_bench_list res finder_idx s = Some (crc, res2, s4)"
    using 1(1) 2(1) l2 3 4(1) head hl 5 by (simp add: core_bench_list_def Let_def)
  then show ?thesis using 2(2) p4 head i4 d4 fixed_parts_length [OF f4] by auto
qed

section \<open>Properties\<close>

text \<open> C9: The list benchmark returns and ends with the list it started with: for a list of at least
  three cells in strictly ascending index order, whose data bytes equal their backups, and for
  well-formed inputs of the nested benchmarks, every number of searches and every finder index leaves
  the same cells linked in the same order from the same head, each with its data item unchanged, and
  the nested inputs unchanged. \<close>

theorem core_bench_list_restores:
  assumes "seg s (res_list res) xs None" and "3 \<le> length xs" and "wf_infos s xs" and "results_ok res"
    and "sorted_wrt (<) (map (\<lambda>a. sint (idx (data_of s a))) xs)"
    and "\<forall>a \<in> set xs. regenerated (data_of s a)"
  shows "\<exists>crc res' s'. core_bench_list res finder_idx s = Some (crc, res', s') \<and> same_inputs res res'
    \<and> seg s' (res_list res) xs None
    \<and> (\<forall>a \<in> set xs. info_of s' a = info_of s a \<and> data_of s' a = data_of s a)"
  using bench_list_restores [OF assms] by blast

lemma core_bench_list_restores_witness:
  "\<exists>crc res' s'. core_bench_list plain_results 1 three_cells = Some (crc, res', s') \<and> same_inputs plain_results res'
    \<and> seg s' (res_list plain_results) [0, 1, 2] None
    \<and> (\<forall>a \<in> set [0, 1, 2]. info_of s' a = info_of three_cells a \<and> data_of s' a = data_of three_cells a)"
proof (rule core_bench_list_restores [OF _ _ _ plain_results_ok])
  show "\<forall>a \<in> set [0, 1, 2]. regenerated (data_of three_cells a)"
    by (simp add: three_cells_def regenerated_def)
qed (simp_all add: three_cells_def plain_results_def)

end
