(* ===== verification/CoreMark_Init.thy ===== *)
theory CoreMark_Init
  imports CoreMark_Bench
begin

text \<open>
  The initial list of the benchmark: the insertions behind the head give the cells in descending
  order, the indexing loop numbers all of them but the last, and the sort by index links the cells in
  ascending order. \<open>init_idx\<close> is the index each cell receives.
\<close>

section \<open>Insertion\<close>

lemma copy_info_Some: "d < length (datas s) \<Longrightarrow> copy_info d from s = Some (s\<lparr>datas := (datas s)[d := from]\<rparr>)"
  by (cases "datas s ! d"; cases "from") (simp add: copy_info_def)

lemma core_list_insert_new_Some:
  assumes "m + 1 < e" and "m < length (heads s)" and "m < length (datas s)" and "p < length (heads s)"
  shows "core_list_insert_new p item m m e e s = Some (Some m, m + 1, m + 1,
    (upd_info m m (upd_next p (Some m) (upd_next m (next_of s p) s)))\<lparr>datas := (datas s)[m := item]\<rparr>)"
  using assms by (simp add: core_list_insert_new_def copy_info_Some)

lemma core_list_insert_new_full:
  "e \<le> m + 1 \<Longrightarrow> core_list_insert_new p item m m e e s = Some (None, m, m, s)"
  by (simp add: core_list_insert_new_def)

lemma seg_datas [simp]: "seg (s\<lparr>datas := ds\<rparr>) p xs q = seg s p xs q"
  by (induction xs arbitrary: p) simp_all

text \<open>\<open>k\<close> cells are in use, each with the data item of its number; the head and the first item keep their indices.\<close>

definition filled :: "nat \<Rightarrow> nat \<Rightarrow> nat \<Rightarrow> store \<Rightarrow> bool" where
  "filled h d k s \<longleftrightarrow> length (heads s) = h \<and> length (datas s) = d
     \<and> seg s (Some 0) (0 # rev [1..<k]) None \<and> (\<forall>a < k. info_of s a = a)
     \<and> idx (datas s ! 0) = 0 \<and> (1 < k \<longrightarrow> idx (datas s ! 1) = 0x7fff)"

lemma insert_filled:
  assumes f: "filled h d k s" and k: "0 < k" "k < h" "k < d" "k + 1 < e" and i: "k = 1 \<longrightarrow> idx item = 0x7fff"
  shows "\<exists>s'. core_list_insert_new 0 item k k e e s = Some (Some k, k + 1, k + 1, s') \<and> filled h d (Suc k) s'"
proof -
  let ?s = "upd_info k k (upd_next 0 (Some k) (upd_next k (next_of s 0) s))"
  have l: "length (heads s) = h" "length (datas s) = d" and s: "seg s (next_of s 0) (rev [1..<k]) None"
    using f by (simp_all add: filled_def)
  have "seg ?s (next_of s 0) (rev [1..<k]) None = seg s (next_of s 0) (rev [1..<k]) None"
    using k l by (intro seg_cong) auto
  then have "seg ?s (Some 0) (0 # rev [1..<Suc k]) None" using s k l by simp
  then have "filled h d (Suc k) (?s\<lparr>datas := (datas s)[k := item]\<rparr>)"
    using f k i l by (auto simp: filled_def less_Suc_eq nth_list_update)
  then show ?thesis using core_list_insert_new_Some [of k e s 0 item] k l by auto
qed

lemma fill_item_filled:
  assumes "filled h d k s" and "1 < k" and "k < e" and "e \<le> h" and "e \<le> d"
  shows "\<exists>item' s'. fill_item seed e i (item, k, k, s)
      = Some (item', if k + 1 < e then k + 1 else k, if k + 1 < e then k + 1 else k, s')
    \<and> filled h d (if k + 1 < e then Suc k else k) s'"
proof (cases "k + 1 < e")
  case True
  let ?p = "(ucast ((scast seed :: u32) XOR of_nat i) :: u16) AND 0xf"
  let ?d = "push_bit 3 ?p OR (of_nat i AND 0x7)"
  let ?item = "item\<lparr>data16 := push_bit 8 ?d OR ?d\<rparr>"
  have "\<exists>s'. core_list_insert_new 0 ?item k k e e s = Some (Some k, k + 1, k + 1, s') \<and> filled h d (Suc k) s'"
    using assms True by (intro insert_filled) auto
  then obtain s' where "core_list_insert_new 0 ?item k k e e s = Some (Some k, k + 1, k + 1, s')"
    "filled h d (Suc k) s'" by blast
  then show ?thesis using True by (simp add: fill_item_def Let_def)
next
  case False
  with assms show ?thesis by (simp add: fill_item_def Let_def core_list_insert_new_full)
qed

text \<open>The rounds of the insertion loop fill the block up to its last cell but one.\<close>

lemma fill_loop_filled:
  assumes "filled h d 2 s" and "3 \<le> e" and "e \<le> h" and "e \<le> d"
  shows "\<exists>item' m s'. for_loop e (fill_item seed e) (item, 2, 2, s) = Some (item', m, m, s')
    \<and> filled h d (e - 1) s'"
proof -
  let ?P = "\<lambda>i (it :: list_data, m :: nat, m' :: nat, s). m' = m \<and> m = min (i + 2) (e - 1) \<and> filled h d m s"
  have "\<exists>r. for_loop e (fill_item seed e) (item, 2, 2, s) = Some r \<and> ?P e r"
  proof (rule for_loop_invariant [of ?P])
    show "?P 0 (item, 2, 2, s)" using assms by simp
  next
    fix i st assume "?P i st"
    then obtain it m s1 where st: "st = (it, m, m, s1)" "m = min (i + 2) (e - 1)" "filled h d m s1"
      by (cases st) auto
    then have "1 < m" "m < e" using assms(2) by auto
    then obtain it' s2 where "fill_item seed e i (it, m, m, s1) =
        Some (it', if m + 1 < e then m + 1 else m, if m + 1 < e then m + 1 else m, s2)"
      "filled h d (if m + 1 < e then m + 1 else m) s2"
      using fill_item_filled [OF st(3) _ _ assms(3,4)] by (simp only: Suc_eq_plus1) blast
    moreover have "(if m + 1 < e then m + 1 else m) = min (Suc i + 2) (e - 1)" using st(2) assms(2) by auto
    ultimately show "\<exists>r. fill_item seed e i st = Some r \<and> ?P (Suc i) r" using st(1) by (simp only:) auto
  qed
  then show ?thesis using assms(2) by auto
qed

section \<open>Numbering\<close>

text \<open>The index the \<open>i\<close>-th item behind the head receives, and with it the index of every cell.\<close>

definition item_number :: "s16 \<Rightarrow> u32 \<Rightarrow> u32 \<Rightarrow> s16" where
  "item_number seed sz i = (if i < sz div 5 then ucast i
     else 0x3fff AND (push_bit 8 (ucast ((i + 1) AND 0x07)) OR ucast (i XOR (scast seed :: u32))))"

definition init_idx :: "s16 \<Rightarrow> u32 \<Rightarrow> nat \<Rightarrow> s16" where
  "init_idx seed sz a = (if a = 0 then 0 else if a = 1 then 0x7fff
     else item_number seed sz (of_nat (unat sz - 1 - a)))"

lemma set_data_Some: "a < length (heads s) \<Longrightarrow> info_of s a < length (datas s)
  \<Longrightarrow> set_data a v s = Some (s\<lparr>datas := (datas s)[info_of s a := v]\<rparr>)"
  by (simp add: set_data_def)

lemma index_loop_seg:
  assumes "seg s (Some f) (xs @ [z]) None" and "distinct (xs @ [z])"
    and "\<forall>a \<in> set (xs @ [z]). info_of s a = a \<and> a < length (datas s)"
  shows "\<exists>ds. index_loop seed sz i f s = Some (s\<lparr>datas := ds\<rparr>) \<and> length ds = length (datas s)
    \<and> (\<forall>j < length xs. idx (ds ! (xs ! j)) = item_number seed sz (i + of_nat j))
    \<and> (\<forall>b. b \<notin> set xs \<longrightarrow> ds ! b = datas s ! b)"
  using assms
proof (induction xs arbitrary: f i s)
  case Nil
  then have "index_loop seed sz i f s = Some (s\<lparr>datas := datas s\<rparr>)" by (auto simp: index_loop.simps)
  then show ?case by (intro exI [of _ "datas s"]) simp
next
  case (Cons a xs)
  let ?n = "item_number seed sz i"
  let ?s = "s\<lparr>datas := (datas s)[a := (datas s ! a)\<lparr>idx := ?n\<rparr>]\<rparr>"
  have a: "f = a" "a < length (heads s)" "a < length (datas s)" "info_of s a = a" using Cons.prems by auto
  have "seg s (next_of s a) (xs @ [z]) None" using Cons.prems(1) by simp
  moreover then obtain g where g: "next_of s a = Some g" by (cases xs) auto
  ultimately have "\<exists>ds. index_loop seed sz (i + 1) g ?s = Some (?s\<lparr>datas := ds\<rparr>) \<and> length ds = length (datas ?s)
    \<and> (\<forall>j < length xs. idx (ds ! (xs ! j)) = item_number seed sz (i + 1 + of_nat j))
    \<and> (\<forall>b. b \<notin> set xs \<longrightarrow> ds ! b = datas ?s ! b)"
    using Cons.prems by (intro Cons.IH) auto
  then obtain ds where ds: "index_loop seed sz (i + 1) g ?s = Some (s\<lparr>datas := ds\<rparr>)" "length ds = length (datas s)"
    "\<forall>j < length xs. idx (ds ! (xs ! j)) = item_number seed sz (i + 1 + of_nat j)"
    "\<forall>b. b \<notin> set xs \<longrightarrow> ds ! b = datas ?s ! b"
    by auto
  have "index_loop seed sz i f s = Some (s\<lparr>datas := ds\<rparr>)"
    using a g ds(1) by (cases "i < sz div 5"; subst index_loop.simps) (simp_all add: item_number_def Let_def set_data_Some)
  moreover have "idx (ds ! ((a # xs) ! j)) = item_number seed sz (i + of_nat j)" if "j < length (a # xs)" for j
    using that ds(3,4) Cons.prems(2) a(3) by (cases j) (simp_all add: add.assoc)
  moreover have "ds ! b = datas s ! b" if "b \<notin> set (a # xs)" for b
    using that ds(4) by (cases "b < length (datas s)") auto
  ultimately show ?case using ds(2) by blast
qed

section \<open>The initial list\<close>

lemma head_filled:
  assumes "0 < length (heads s)" and "0 < length (datas s)"
  shows "\<exists>sa sb s'. set_next 0 None s = Some sa \<and> set_info 0 0 sa = Some sb
    \<and> set_data 0 \<lparr>data16 = x, idx = 0\<rparr> sb = Some s' \<and> filled (length (heads s)) (length (datas s)) 1 s'"
  using assms by (simp add: set_data_Some filled_def del: length_greater_0_conv)

lemma numbered:
  assumes f: "filled h d (e - 1) s" and e: "3 \<le> e" "e \<le> d" "e = unat sz"
  shows "\<exists>g ds. next_of s 0 = Some g \<and> index_loop seed sz 1 g s = Some (s\<lparr>datas := ds\<rparr>) \<and> length ds = d
    \<and> (\<forall>a < e - 1. idx (ds ! a) = init_idx seed sz a)"
proof -
  let ?xs = "rev [2..<e - 1]"
  have r: "rev [1..<e - 1] = ?xs @ [1]" using e(1) by (simp add: upt_conv_Cons numeral_2_eq_2)
  have s: "seg s (next_of s 0) (?xs @ [1]) None" "length (datas s) = d" and i: "\<forall>a < e - 1. info_of s a = a"
    and k: "idx (datas s ! 0) = 0" "idx (datas s ! 1) = 0x7fff"
    using f e(1) unfolding filled_def r by simp_all
  obtain g where g: "next_of s 0 = Some g" using s(1) by (cases ?xs) auto
  have "\<forall>a \<in> set (?xs @ [1]). info_of s a = a \<and> a < length (datas s)" using i e s(2) by auto
  then obtain ds where ds: "index_loop seed sz 1 g s = Some (s\<lparr>datas := ds\<rparr>)" "length ds = d"
    "\<forall>j < length ?xs. idx (ds ! (?xs ! j)) = item_number seed sz (1 + of_nat j)"
    "\<forall>b. b \<notin> set ?xs \<longrightarrow> ds ! b = datas s ! b"
    using index_loop_seg [of s g ?xs 1 seed sz 1] s g by auto
  have "idx (ds ! a) = init_idx seed sz a" if a: "a < e - 1" for a
  proof (cases "a < 2")
    case True
    then have "a \<notin> set ?xs" "a = 0 \<or> a = 1" by auto
    with k ds(4) show ?thesis by (auto simp: init_idx_def)
  next
    case False
    let ?j = "e - 2 - a"
    have "?j < length ?xs" "?xs ! ?j = a" using a False by (simp_all add: rev_nth)
    moreover have "1 + of_nat ?j = (of_nat (e - 1 - a) :: u32)"
    proof -
      have "e - 1 - a = Suc ?j" using a False by simp
      then show ?thesis by (simp only: of_nat_Suc)
    qed
    ultimately have "idx (ds ! a) = item_number seed sz (of_nat (e - 1 - a))" using ds(3) by metis
    with False e(3) show ?thesis by (simp add: init_idx_def)
  qed
  with g ds show ?thesis by blast
qed

lemma init_list_sorted:
  assumes "100 \<le> blksize" and sz: "sz = blksize div 20 - 2"
    and "unat sz \<le> length (heads s)" and "unat sz \<le> length (datas s)"
  shows "\<exists>l s' ys. core_list_init blksize seed s = Some (l, s') \<and> seg s' l ys None
    \<and> mset ys = mset [0..<unat sz - 1] \<and> sorted (map (\<lambda>a. sint (idx (data_of s' a))) ys)
    \<and> length (datas s') = length (datas s)
    \<and> (\<forall>a < unat sz - 1. info_of s' a = a \<and> idx (data_of s' a) = init_idx seed sz a \<and> regenerated (data_of s' a))"
proof -
  have b: "100 \<le> unat blksize" using assms(1) by (simp add: word_le_nat_alt)
  have q: "unat (blksize div 20) = unat blksize div 20" by (simp add: unat_div)
  then have "(2 :: u32) \<le> blksize div 20" using b by (simp add: word_le_nat_alt)
  then have e: "3 \<le> unat sz" using b q unfolding sz by (simp add: unat_sub)
  let ?e = "unat sz"
  have p: "0 < length (heads s)" "0 < length (datas s)" using e assms(3,4) by linarith+
  obtain sa sb s1 where 0: "set_next 0 None s = Some sa" "set_info 0 0 sa = Some sb"
    "set_data 0 \<lparr>data16 = 0x8080, idx = 0\<rparr> sb = Some s1" and 1: "filled (length (heads s)) (length (datas s)) 1 s1"
    using head_filled [OF p] by blast
  obtain s2 where 2: "core_list_insert_new 0 \<lparr>data16 = 0xffff, idx = 0x7fff\<rparr> 1 1 ?e ?e s1 = Some (Some 1, 2, 2, s2)"
    "filled (length (heads s)) (length (datas s)) 2 s2"
    using insert_filled [OF 1, of ?e "\<lparr>data16 = 0xffff, idx = 0x7fff\<rparr>"] e assms(3,4)
    by (auto simp: numeral_2_eq_2)
  obtain it m s3 where 3: "for_loop ?e (fill_item seed ?e) (\<lparr>data16 = 0xffff, idx = 0x7fff\<rparr>, 2, 2, s2) = Some (it, m, m, s3)"
    "filled (length (heads s)) (length (datas s)) (?e - 1) s3"
    using fill_loop_filled [OF 2(2) e assms(3,4)] by blast
  obtain g ds where 4: "next_of s3 0 = Some g" "index_loop seed sz 1 g s3 = Some (s3\<lparr>datas := ds\<rparr>)"
    "length ds = length (datas s)" "\<forall>a < ?e - 1. idx (ds ! a) = init_idx seed sz a"
    using numbered [OF 3(2) e assms(4) refl] by blast
  let ?xs = "0 # rev [1..<?e - 1]" and ?s = "s3\<lparr>datas := ds\<rparr>"
  have ms: "mset ?xs = mset [0..<?e - 1]" using e by (simp add: upt_conv_Cons)
  have x: "seg ?s (Some 0) ?xs None" "\<forall>a < ?e - 1. info_of ?s a = a" "0 < length (heads s3)"
    using 3(2) p by (simp_all add: filled_def)
  have "wf_infos ?s ?xs" using x(2) 4(3) e assms(4) by (auto simp: wf_infos_def)
  then obtain l s' ys where 5: "core_list_mergesort cmp_idx (Some 0) None ?s = Some (l, None, s')" "seg s' l ys None"
    "mset ys = mset ?xs" "\<forall>a \<in> set ?xs. info_of s' a = info_of ?s a" "fixed_parts (datas s') = fixed_parts (datas ?s)"
    "sorted (map (\<lambda>a. sint (idx (data_of s' a))) ys)" "2 \<le> length ?xs \<longrightarrow> (\<forall>a \<in> set ?xs. regenerated (data_of s' a))"
    using idx_sorted [OF x(1)] by blast
  have "core_list_init blksize seed s = Some (l, s')"
  proof -
    have "get_next s3 0 = Some (Some g)" using x(3) 4(1) by simp
    then show ?thesis
      using \<open>2 \<le> blksize div 20\<close> 4(2) 5(1)
      by (simp add: core_list_init_def Let_def not_less sz [symmetric] 0 2(1) 3(1) del: One_nat_def get_next_Some set_next_Some set_info_Some)
  qed
  moreover have "info_of s' a = a \<and> idx (data_of s' a) = init_idx seed sz a \<and> regenerated (data_of s' a)"
    if "a < ?e - 1" for a
  proof -
    have a: "a \<in> set ?xs" using that by auto
    then have "info_of s' a = a" using 5(4) x(2) that by metis
    moreover have "idx (datas s' ! a) = init_idx seed sz a"
      using fixed_parts_idx [OF 5(5), of a] that 4(3,4) assms(4) by simp
    moreover have "2 \<le> length ?xs" using e by simp
    then have "regenerated (data_of s' a)" using 5(7) a by blast
    ultimately show ?thesis by simp
  qed
  moreover have "length (datas s') = length (datas s)" using fixed_parts_length [OF 5(5)] 4(3) by simp
  ultimately show ?thesis using 5(2,3,6) ms by metis
qed

text \<open>In a block of 666 bytes, a third of 2000, the indices of the 30 cells differ.\<close>

lemma init_idx_2k:
  assumes "seed = 0 \<or> seed = 0x3415"
  shows "distinct (map (init_idx seed 31) [0..<30])"
proof -
  have "distinct (map (init_idx 0 31) [0..<30])"
    by (simp add: upt_rec init_idx_def item_number_def)
  moreover have "distinct (map (init_idx 0x3415 31) [0..<30])"
    by (simp add: upt_rec init_idx_def item_number_def)
  ultimately show ?thesis using assms by blast
qed

lemma init_list_2k:
  assumes "seed = 0 \<or> seed = 0x3415" and "31 \<le> length (heads s)" and "31 \<le> length (datas s)"
  shows "\<exists>l s' ys. core_list_init 666 seed s = Some (l, s') \<and> seg s' l ys None \<and> length ys = 30
    \<and> set ys = {0..<30} \<and> wf_infos s' ys \<and> sorted_wrt (<) (map (\<lambda>a. sint (idx (data_of s' a))) ys)
    \<and> (\<forall>a \<in> set ys. regenerated (data_of s' a))"
proof -
  obtain l s' ys where i: "core_list_init 666 seed s = Some (l, s')" "seg s' l ys None"
    "mset ys = mset [0..<30]" "sorted (map (\<lambda>a. sint (idx (data_of s' a))) ys)"
    "length (datas s') = length (datas s)"
    "\<forall>a < 30. info_of s' a = a \<and> idx (data_of s' a) = init_idx seed 31 a \<and> regenerated (data_of s' a)"
    using init_list_sorted [of 666 31 s seed] assms(2,3) by auto
  have ys: "set ys = {0..<30}" "length ys = 30"
    using mset_eq_setD [OF i(3)] mset_eq_length [OF i(3)] by simp_all
  have "distinct (map (\<lambda>a. sint (init_idx seed 31 a)) [0..<30])"
    using init_idx_2k [OF assms(1)] by (simp add: distinct_map inj_on_def signed_word_eqI)
  moreover have "mset (map (\<lambda>a. sint (init_idx seed 31 a)) ys) = mset (map (\<lambda>a. sint (init_idx seed 31 a)) [0..<30])"
    using i(3) by (metis mset_map)
  ultimately have "distinct (map (\<lambda>a. sint (init_idx seed 31 a)) ys)" by (metis mset_eq_imp_distinct_iff)
  moreover have "idx (data_of s' a) = init_idx seed 31 a" if "a \<in> set ys" for a
    using i(6) ys that by (metis atLeastLessThan_iff)
  then have "map (\<lambda>a. sint (idx (data_of s' a))) ys = map (\<lambda>a. sint (init_idx seed 31 a)) ys"
    by (intro map_cong) (simp_all only:)
  ultimately have "sorted_wrt (<) (map (\<lambda>a. sint (idx (data_of s' a))) ys)"
    using i(4) unfolding strict_sorted_iff by (simp only: simp_thms)
  moreover have "wf_infos s' ys" using i(5,6) ys assms(3) by (simp add: wf_infos_def)
  moreover have "\<forall>a \<in> set ys. regenerated (data_of s' a)" using i(6) ys by (metis atLeastLessThan_iff)
  ultimately show ?thesis using i(1,2) ys by blast
qed

section \<open>Properties\<close>

text \<open> C18: The initialisation of the list returns for every block of at least 100 bytes whatever the
  memory held: the cells are all but one of those that fit, each with the data item of its own number,
  linked in the order of their indices; the index of every cell is the one the numbering gives, and
  every data byte equals its backup. \<close>

theorem core_list_init_sorted:
  assumes "100 \<le> blksize" and "sz = blksize div 20 - 2"
    and "unat sz \<le> length (heads s)" and "unat sz \<le> length (datas s)"
  shows "\<exists>l s' ys. core_list_init blksize seed s = Some (l, s') \<and> seg s' l ys None
    \<and> mset ys = mset [0..<unat sz - 1] \<and> sorted (map (\<lambda>a. sint (idx (data_of s' a))) ys)
    \<and> (\<forall>a < unat sz - 1. info_of s' a = a \<and> idx (data_of s' a) = init_idx seed sz a \<and> regenerated (data_of s' a))"
  using init_list_sorted [OF assms, of seed] by blast

lemma core_list_init_sorted_witness:
  "\<exists>l s' ys. core_list_init 100 7 \<lparr>heads = replicate 3 \<lparr>nxt = Some 9, info = 8\<rparr>, datas = replicate 3 \<lparr>data16 = 1, idx = 2\<rparr>\<rparr>
      = Some (l, s') \<and> seg s' l ys None
    \<and> mset ys = mset [0..<unat (3 :: u32) - 1] \<and> sorted (map (\<lambda>a. sint (idx (data_of s' a))) ys)
    \<and> (\<forall>a < unat (3 :: u32) - 1. info_of s' a = a \<and> idx (data_of s' a) = init_idx 7 3 a \<and> regenerated (data_of s' a))"
  by (rule core_list_init_sorted) simp_all

end
