(* ===== verification/CoreMark_Main.thy ===== *)
theory CoreMark_Main
  imports CoreMark_List Libc_Stubs
begin

text \<open>
  The CoreMark program \<open>software/app/CoreMark/src/core_main.c\<close> with its port \<open>core_portme.c\<close>: the
  seeds, the division of the memory block, the initialisation of the three benchmarks, the measured
  iterations, the comparison with the known checksums, and the report. There is one context
  (\<open>MULTITHREAD\<close> is 1) and the block is on the stack (\<open>MEM_STACK\<close>). The test that a list cell has at
  most 128 bytes is constant (it has 8).
\<close>

section \<open>Configuration\<close>

definition TOTAL_DATA_SIZE :: u32 where "TOTAL_DATA_SIZE = 2 * 1000"
definition ITERATIONS :: u32 where "ITERATIONS = 1"
definition ID_LIST :: u32 where "ID_LIST = push_bit 0 1"
definition ID_MATRIX :: u32 where "ID_MATRIX = push_bit 1 1"
definition ID_STATE :: u32 where "ID_STATE = push_bit 2 1"
definition ALL_ALGORITHMS_MASK :: u32 where "ALL_ALGORITHMS_MASK = ID_LIST OR ID_MATRIX OR ID_STATE"
definition NUM_ALGORITHMS :: nat where "NUM_ALGORITHMS = 3"

lemmas ID_defs = ID_LIST_def ID_MATRIX_def ID_STATE_def ALL_ALGORITHMS_MASK_def NUM_ALGORITHMS_def

text \<open>The volatile seeds, and their initial values in a performance run.\<close>

record seeds =
  seed1_volatile :: s32
  seed2_volatile :: s32
  seed3_volatile :: s32
  seed4_volatile :: s32
  seed5_volatile :: s32

definition performance_seeds :: seeds where
  "performance_seeds = \<lparr>seed1_volatile = 0x0, seed2_volatile = 0x0, seed3_volatile = 0x66,
     seed4_volatile = ITERATIONS, seed5_volatile = 0\<rparr>"

definition validation_seeds :: seeds where
  "validation_seeds = \<lparr>seed1_volatile = 0x3415, seed2_volatile = 0x3415, seed3_volatile = 0x66,
     seed4_volatile = ITERATIONS, seed5_volatile = 0\<rparr>"

definition get_seed_32 :: "seeds \<Rightarrow> int \<Rightarrow> s32" where
  "get_seed_32 v i =
     (if i = 1 then seed1_volatile v
      else if i = 2 then seed2_volatile v
      else if i = 3 then seed3_volatile v
      else if i = 4 then seed4_volatile v
      else if i = 5 then seed5_volatile v
      else 0)"

definition get_seed :: "seeds \<Rightarrow> int \<Rightarrow> s16" where
  "get_seed v x = ucast (get_seed_32 v x)"

section \<open>Iterations\<close>

definition iterate_round :: "nat \<Rightarrow> core_results \<times> store \<Rightarrow> (core_results \<times> store) option" where
  "iterate_round i = (\<lambda>(res, s). do {
     (crc, res, s) \<leftarrow> core_bench_list res 1 s;
     let res = res\<lparr>res_crc := crcu16 crc (res_crc res)\<rparr>;
     (crc, res, s) \<leftarrow> core_bench_list res (-1) s;
     let res = res\<lparr>res_crc := crcu16 crc (res_crc res)\<rparr>;
     Some (if i = 0 then res\<lparr>crclist := res_crc res\<rparr> else res, s) })"

definition iterate :: "core_results \<Rightarrow> store \<Rightarrow> (core_results \<times> store) option" where
  "iterate res s =
     for_loop (unat (iterations res)) iterate_round
       (res\<lparr>res_crc := 0, crclist := 0, crcmatrix := 0, crcstate := 0\<rparr>, s)"

section \<open>Set-up\<close>

definition default_seeds :: "core_results \<Rightarrow> core_results" where
  "default_seeds res =
     (let res = (if seed1 res = 0 \<and> seed2 res = 0 \<and> seed3 res = 0
                 then res\<lparr>seed1 := 0, seed2 := 0, seed3 := 0x66\<rparr> else res)
      in if seed1 res = 1 \<and> seed2 res = 0 \<and> seed3 res = 0
         then res\<lparr>seed1 := 0x3415, seed2 := 0x3415, seed3 := 0x66\<rparr> else res)"

text \<open>The seeds, the iterations and the selection of the algorithms, up to the size of the whole block.\<close>

definition read_seeds :: "seeds \<Rightarrow> core_results \<Rightarrow> core_results" where
  "read_seeds v res =
     (let res = res\<lparr>seed1 := get_seed v 1, seed2 := get_seed v 2, seed3 := get_seed v 3, iterations := ITERATIONS\<rparr>;
          res = res\<lparr>execs := get_seed_32 v 5\<rparr>;
          res = (if execs res = 0 then res\<lparr>execs := ALL_ALGORITHMS_MASK\<rparr> else res);
          res = default_seeds res
      in res\<lparr>res_size := TOTAL_DATA_SIZE, err := 0\<rparr>)"

definition selected :: "u32 \<Rightarrow> nat \<Rightarrow> bool" where
  "selected ex i \<longleftrightarrow> push_bit i 1 AND ex \<noteq> 0"

definition num_algorithms :: "u32 \<Rightarrow> u16" where
  "num_algorithms ex = fold (\<lambda>i n. if selected ex i then n + 1 else n) [0..<NUM_ALGORITHMS] 0"

text \<open>The pointers \<open>memblock[0..3]\<close>; one that is never assigned has no value.\<close>

definition assign_blocks :: "u32 \<Rightarrow> u32 \<Rightarrow> u32 \<Rightarrow> u32 option list" where
  "assign_blocks ex sz memblock0 =
     fst (fold (\<lambda>i (memblock, j :: u16).
            if selected ex i then (memblock[i + 1 := Some (memblock0 + sz * ucast j)], j + 1) else (memblock, j))
          [0..<NUM_ALGORITHMS] ([Some memblock0, None, None, None], 0))"

text \<open>
  The block's three parts as their benchmarks see them: list cells and data items, matrix elements,
  bytes. Their contents before the initialisation are arbitrary.
\<close>

record core_memory =
  list_part :: store
  part_A :: "s16 list"
  part_B :: "s16 list"
  part_C :: "s32 list"
  state_part :: "u8 list"

definition core_init :: "u32 option list \<Rightarrow> core_memory \<Rightarrow> core_results \<Rightarrow> (core_results \<times> store) option" where
  "core_init memblock mem res = do {
     (res, s) \<leftarrow>
       (if execs res AND ID_LIST \<noteq> 0 then do {
          (l, s) \<leftarrow> core_list_init (res_size res) (seed1 res) (list_part mem);
          Some (res\<lparr>res_list := l\<rparr>, s) }
        else Some (res, list_part mem));
     res \<leftarrow>
       (if execs res AND ID_MATRIX \<noteq> 0 then do {
          memblk \<leftarrow> memblock ! 2;
          p \<leftarrow> core_init_matrix (res_size res) memblk (scast (seed1 res) OR push_bit 16 (scast (seed2 res)))
                 (part_A mem) (part_B mem) (part_C mem);
          Some (res\<lparr>res_mat := p\<rparr>) }
        else Some res);
     res \<leftarrow>
       (if execs res AND ID_STATE \<noteq> 0 then do {
          p \<leftarrow> core_init_state (res_size res) (seed1 res) (state_part mem);
          Some (res\<lparr>memblock3 := p\<rparr>) }
        else Some res);
     Some (res, s) }"

text \<open>Dividing by the number of algorithms has no value when none is selected.\<close>

definition core_setup :: "seeds \<Rightarrow> u32 \<Rightarrow> core_memory \<Rightarrow> core_results \<Rightarrow> (core_results \<times> store) option" where
  "core_setup v stack_memblock mem res = do {
     let res = read_seeds v res;
     let n = num_algorithms (execs res);
     if n = 0 then None
     else do {
       let res = res\<lparr>res_size := res_size res div ucast n\<rparr>;
       core_init (assign_blocks (execs res) (res_size res) stack_memblock) mem res } }"

section \<open>Time\<close>

text \<open>
  \<open>rdtime\<close> reads the low 32 bits of the timer; the two readings are widened to 64 bits and subtracted.
  The arithmetic on \<open>double\<close> and \<open>float\<close> is the compiler's library and a parameter; a \<open>double\<close> is its bits.
\<close>

definition get_time :: "u32 \<times> u32 \<Rightarrow> u64" where
  "get_time = (\<lambda>(t0, t1). ucast t1 - ucast t0)"

definition freq :: s32 where "freq = 100000000"

record core_float =
  div_freq :: "u32 \<Rightarrow> s32 \<Rightarrow> u64"         \<comment> \<open>\<open>delta / (double) freq()\<close>\<close>
  less_one :: "u64 \<Rightarrow> bool"                \<comment> \<open>\<open>secs_passed < (secs_ret)1\<close>\<close>
  is_positive :: "u64 \<Rightarrow> bool"             \<comment> \<open>\<open>time_in_secs(total_time) > 0\<close>\<close>
  to_u32 :: "u64 \<Rightarrow> u32"                   \<comment> \<open>\<open>(ee_u32)secs_passed\<close>\<close>
  per_sec :: "u32 \<Rightarrow> u64 \<Rightarrow> u64"            \<comment> \<open>\<open>iterations / time_in_secs(total_time)\<close>\<close>
  per_ticks :: "u32 \<Rightarrow> u64 \<Rightarrow> u64"          \<comment> \<open>\<open>iterations * 1000000 / (float)total_time\<close>\<close>

definition time_in_secs :: "core_float \<Rightarrow> u64 \<Rightarrow> u64" where
  "time_in_secs fl ticks = (let scale = 256; delta = (ucast (ticks div scale) :: u32) in div_freq fl delta freq)"

text \<open>
  When no number of iterations is set, it is multiplied by ten until one run takes a second; \<open>clock k\<close>
  gives the readings around the \<open>k\<close>-th trial.
\<close>

partial_function (option) calibrate_loop ::
  "core_float \<Rightarrow> (nat \<Rightarrow> u32 \<times> u32) \<Rightarrow> nat \<Rightarrow> core_results \<Rightarrow> store \<Rightarrow> (u64 \<times> core_results \<times> store) option" where
  "calibrate_loop fl clock k res s = do {
     let res = res\<lparr>iterations := iterations res * 10\<rparr>;
     (res, s) \<leftarrow> iterate res s;
     let secs_passed = time_in_secs fl (get_time (clock k));
     if less_one fl secs_passed then calibrate_loop fl clock (Suc k) res s
     else Some (secs_passed, res, s) }"

definition calibrate ::
  "core_float \<Rightarrow> (nat \<Rightarrow> u32 \<times> u32) \<Rightarrow> core_results \<Rightarrow> store \<Rightarrow> (core_results \<times> store) option" where
  "calibrate fl clock res s =
     (if iterations res = 0 then do {
        (secs_passed, res, s) \<leftarrow> calibrate_loop fl clock 0 (res\<lparr>iterations := 1\<rparr>) s;
        let divisor = to_u32 fl secs_passed;
        let divisor = (if divisor = 0 then 1 else divisor);
        Some (res\<lparr>iterations := iterations res * (1 + 10 div divisor)\<rparr>, s) }
      else Some (res, s))"

section \<open>Validation\<close>

definition list_known_crc :: "u16 list" where "list_known_crc = [0xd4b0, 0x3340, 0x6a79, 0xe714, 0xe3c1]"
definition matrix_known_crc :: "u16 list" where "matrix_known_crc = [0xbe52, 0x1199, 0x5608, 0x1fd7, 0x0747]"
definition state_known_crc :: "u16 list" where "state_known_crc = [0x5e47, 0x39bf, 0xe5a4, 0x8e3a, 0x8d84]"

type_synonym prints = "(string \<times> vararg list) list"

definition line :: "string \<Rightarrow> vararg list \<Rightarrow> string \<times> vararg list" where
  "line t args = (t @ [CHR 0x0A], args)"

definition seed_crc :: "core_results \<Rightarrow> u16" where
  "seed_crc res =
     (let seedcrc = 0;
          seedcrc = crc16 (seed1 res) seedcrc;
          seedcrc = crc16 (seed2 res) seedcrc;
          seedcrc = crc16 (seed3 res) seedcrc
      in crc16 (ucast (res_size res)) seedcrc)"

text \<open>The number of a known run and its line; \<open>None\<close> is \<open>known_id\<close> -1.\<close>

definition known_run :: "u16 \<Rightarrow> (nat \<times> string) option" where
  "known_run seedcrc =
     (if seedcrc = 0x8a02 then Some (0, ''6k performance run parameters for coremark.'')
      else if seedcrc = 0x7b05 then Some (1, ''6k validation run parameters for coremark.'')
      else if seedcrc = 0x4eaf then Some (2, ''Profile generation run parameters for coremark.'')
      else if seedcrc = 0xe9f5 then Some (3, ''2K performance run parameters for coremark.'')
      else if seedcrc = 0x18f2 then Some (4, ''2K validation run parameters for coremark.'')
      else None)"

text \<open>
  One comparison: \<open>name\<close> is the benchmark, \<open>addr\<close> gives the addresses the lines print.
\<close>

definition check_crc :: "(string \<Rightarrow> u32) \<Rightarrow> nat \<Rightarrow> bool \<Rightarrow> string \<Rightarrow> u16 \<Rightarrow> u16 list \<Rightarrow> s16 \<times> prints \<Rightarrow> s16 \<times> prints" where
  "check_crc addr known_id chosen name crc known = (\<lambda>(er, out).
     if chosen \<and> crc \<noteq> known ! known_id then
       (er + 1, out @
         [line (''[%u]ERROR! '' @ name @ '' crc 0x%04x - should be 0x%04x'') [VInt 0, VInt (ucast crc), VInt (ucast (known ! known_id))],
          line (''results[%d].crc'' @ name @ '' = %d, %x'') [VInt 0, VInt (ucast crc), VInt (addr (''crc'' @ name))],
          line (name @ ''_known_crc[%d] = %d, %x'')
            [VInt (of_nat known_id), VInt (ucast (known ! known_id)), VInt (addr (name @ ''_known_crc''))]])
     else (er, out))"

definition check_results :: "(string \<Rightarrow> u32) \<Rightarrow> nat \<Rightarrow> core_results \<Rightarrow> s16 \<times> prints" where
  "check_results addr known_id res =
     check_crc addr known_id (execs res AND ID_STATE \<noteq> 0) ''state'' (crcstate res) state_known_crc
       (check_crc addr known_id (execs res AND ID_MATRIX \<noteq> 0) ''matrix'' (crcmatrix res) matrix_known_crc
         (check_crc addr known_id (execs res AND ID_LIST \<noteq> 0) ''list'' (crclist res) list_known_crc (0, [])))"

text \<open>The sizes of the integer types, in bytes, are compared with the expected ones.\<close>

definition check_data_types :: "u8 \<times> prints" where
  "check_data_types =
     (let bad = filter fst
        [(LENGTH(8) div 8 \<noteq> 1, ''ERROR: ee_u8 is not an 8b datatype!''),
         (LENGTH(16) div 8 \<noteq> 2, ''ERROR: ee_u16 is not a 16b datatype!''),
         (LENGTH(16) div 8 \<noteq> 2, ''ERROR: ee_s16 is not a 16b datatype!''),
         (LENGTH(32) div 8 \<noteq> 4, ''ERROR: ee_s32 is not a 32b datatype!''),
         (LENGTH(32) div 8 \<noteq> 4, ''ERROR: ee_u32 is not a 32b datatype!''),
         (LENGTH(32) div 8 \<noteq> LENGTH(32) div 8, ''ERROR: ee_ptr_int is not a datatype that holds an int pointer!'')];
          retval = of_nat (length bad)
      in (retval, map (\<lambda>(_, t). line t []) bad
            @ (if retval > 0 then [line ''ERROR: Please modify the datatypes in core_portme.h!'' []] else [])))"

text \<open>The number of the run, the total of the errors, the results with their error count, and the lines.\<close>

definition validate :: "(string \<Rightarrow> u32) \<Rightarrow> core_results \<Rightarrow> nat option \<times> s16 \<times> core_results \<times> prints" where
  "validate addr res =
     (let (types, tout) = check_data_types in
      case known_run (seed_crc res) of
        None \<Rightarrow> (None, - 1 + ucast types, res, tout)
      | Some (known_id, t) \<Rightarrow>
          let (er, out) = check_results addr known_id res
          in (Some known_id, 0 + er + ucast types, res\<lparr>err := er\<rparr>, line t [] # out @ tout))"

section \<open>Report\<close>

definition hex_line :: "string \<Rightarrow> u16 \<Rightarrow> string \<times> vararg list" where
  "hex_line t crc = line (''[%d]'' @ t @ ''0x%04x'') [VInt 0, VInt (ucast crc)]"

text \<open>The lines up to the checksums; \<open>version\<close> is the compiler's version string.\<close>

definition core_report :: "core_float \<Rightarrow> string \<Rightarrow> u64 \<Rightarrow> u16 \<Rightarrow> core_results \<Rightarrow> prints" where
  "core_report fl version total_time seedcrc res =
     (let secs = time_in_secs fl total_time in
      [line ''CoreMark Size    : %lu'' [VInt (res_size res)],
       line ''Total ticks      : %lu'' [VInt (ucast total_time)],
       line ''Total time (secs): %f'' [VDouble secs]]
      @ (if is_positive fl secs then [line ''Iterations/Sec   : %f'' [VDouble (per_sec fl (iterations res) secs)]] else [])
      @ [line ''Iterations       : %lu'' [VInt (iterations res)],
         line ''Compiler version : %s'' [VStr (Some version)],
         line ''Compiler flags   : %s'' [VStr (Some ''none'')],
         line ''Memory location  : %s'' [VStr (Some ''STACK'')],
         line ''seedcrc          : 0x%04x'' [VInt (ucast seedcrc)]]
      @ (if execs res AND ID_LIST \<noteq> 0 then [hex_line ''crclist       : '' (crclist res)] else [])
      @ (if execs res AND ID_MATRIX \<noteq> 0 then [hex_line ''crcmatrix     : '' (crcmatrix res)] else [])
      @ (if execs res AND ID_STATE \<noteq> 0 then [hex_line ''crcstate      : '' (crcstate res)] else [])
      @ [hex_line ''crcfinal      : '' (res_crc res)])"

definition verdict :: "core_float \<Rightarrow> string \<Rightarrow> u64 \<Rightarrow> nat option \<Rightarrow> s16 \<Rightarrow> core_results \<Rightarrow> prints" where
  "verdict fl version total_time known_id total_errors res =
     (if total_errors = 0 then
        line ''Correct operation validated. See readme.txt for run and reporting rules.'' []
        # (if known_id = Some 3 then
             [(''CoreMark 1.0 : %f / %s %s'',
               [VDouble (per_sec fl (iterations res) (time_in_secs fl total_time)), VStr (Some version), VStr (Some ''none'')]),
              ('' / %s'', [VStr (Some ''STACK'')]), line '''' []]
           else [])
      else [])
     @ (if 0 <s total_errors then [line ''Errors detected: %d'' [VInt (scast total_errors)]] else [])
     @ (if total_errors <s 0 then
          [line ''Cannot validate operation for these seed values, please compare with results on a known platform.'' []]
        else [])"

definition core_footer :: "core_float \<Rightarrow> u64 \<Rightarrow> core_results \<Rightarrow> prints" where
  "core_footer fl total_time res =
     [line '''' [], line '''' [], line ''Print Personal Added Addtional Info to Easy Visual Analysis'' [], line '''' [],
      line '' (*) Assume the core running at 1 MHz'' [],
      line ''     So the CoreMark/MHz can be caculated by: '' [],
      line ''     (Iterations*1000000/total_ticks) = %2.6f CoreMark/MHz'' [VDouble (per_ticks fl (iterations res) total_time)],
      line '''' []]"

section \<open>The program\<close>

text \<open>
  What the program gets from its surroundings: the seeds, the memory and its address, the readings of
  the timer, the library's arithmetic and the strings and addresses it prints. The writes to the
  counter-inhibit register are not modelled.
\<close>

record core_env =
  env_seeds :: seeds
  env_base :: u32
  env_memory :: core_memory
  env_results :: core_results
  env_trials :: "nat \<Rightarrow> u32 \<times> u32"
  env_clock :: "u32 \<times> u32"
  env_float :: core_float
  env_version :: string
  env_addr :: "string \<Rightarrow> u32"

definition portable_init :: "soc \<Rightarrow> soc option" where
  "portable_init = st_slc Tmr_cfg 0x1"

definition portable_fini :: "soc \<Rightarrow> soc option" where
  "portable_fini = st_slc Tmr_cfg 0x0"

definition core_main :: "fp_ops \<Rightarrow> core_env \<Rightarrow> soc \<Rightarrow> (core_results \<times> store \<times> soc) option" where
  "core_main fp e m = do {
     let fl = env_float e;
     m \<leftarrow> portable_init m;
     (res, s) \<leftarrow> core_setup (env_seeds e) (env_base e) (env_memory e) (env_results e);
     (res, s) \<leftarrow> calibrate fl (env_trials e) res s;
     m \<leftarrow> run_prints fp [line ''Core Mark Started: Iterations = %d'' [VInt (iterations res)]] m;
     (res, s) \<leftarrow> iterate res s;
     let total_time = get_time (env_clock e);
     let seedcrc = seed_crc res;
     let (known_id, total_errors, res, out) = validate (env_addr e) res;
     m \<leftarrow> run_prints fp out m;
     m \<leftarrow> run_prints fp (core_report fl (env_version e) total_time seedcrc res) m;
     m \<leftarrow> run_prints fp (verdict fl (env_version e) total_time known_id total_errors res) m;
     m \<leftarrow> portable_fini m;
     m \<leftarrow> run_prints fp (core_footer fl total_time res) m;
     Some (res, s, m) }"

end
