(* ===== verification/CoreMark_Main_Correct.thy ===== *)
theory CoreMark_Main_Correct
  imports CoreMark_Main CoreMark_Init
begin

text \<open>
  Correctness of the CoreMark program: the set-up establishes what the iterations need, every number of
  iterations returns and leaves the list and the inputs as they were, and the verdict agrees with the
  comparison of the checksums.
\<close>

section \<open>Iterations\<close>

text \<open>The list \<open>xs\<close> and the inputs in \<open>res\<close> that the benchmarks expect.\<close>

definition bench_ready :: "core_results \<Rightarrow> nat list \<Rightarrow> store \<Rightarrow> bool" where
  "bench_ready res xs s \<longleftrightarrow> seg s (res_list res) xs None \<and> 3 \<le> length xs \<and> wf_infos s xs \<and> results_ok res
     \<and> sorted_wrt (<) (map (\<lambda>a. sint (idx (data_of s a))) xs) \<and> (\<forall>a \<in> set xs. regenerated (data_of s a))"

text \<open>The cells \<open>xs\<close> hold what they held.\<close>

definition same_items :: "nat list \<Rightarrow> store \<Rightarrow> store \<Rightarrow> bool" where
  "same_items xs s s' \<longleftrightarrow> (\<forall>a \<in> set xs. info_of s' a = info_of s a \<and> data_of s' a = data_of s a)"

lemma same_items_trans: "same_items xs s s' \<Longrightarrow> same_items xs s' s'' \<Longrightarrow> same_items xs s s''"
  unfolding same_items_def by metis

lemma same_setup_refl: "same_setup res res"
  by (simp add: same_setup_def)

lemma same_setup_trans: "same_setup res res' \<Longrightarrow> same_setup res' res'' \<Longrightarrow> same_setup res res''"
  by (simp add: same_setup_def)

lemma sums_kept_trans: "sums_kept res res' \<Longrightarrow> sums_kept res' res'' \<Longrightarrow> sums_kept res res''"
  by (simp add: sums_kept_def)

lemma bench_ready_results:
  "bench_ready res xs s \<Longrightarrow> same_setup res res' \<Longrightarrow> bench_ready res' xs s"
  using results_ok_setup [of res res'] by (simp add: bench_ready_def same_setup_def)

lemma bench_ready_step:
  assumes "bench_ready res xs s"
  shows "\<exists>crc res' s'. core_bench_list res finder_idx s = Some (crc, res', s') \<and> same_inputs res res'
    \<and> bench_ready res' xs s' \<and> same_items xs s s'"
proof -
  obtain crc res' s' where b: "core_bench_list res finder_idx s = Some (crc, res', s')" "same_inputs res res'"
    "seg s' (res_list res) xs None" "\<forall>a \<in> set xs. info_of s' a = info_of s a \<and> data_of s' a = data_of s a"
    "length (datas s') = length (datas s)"
    using bench_list_restores [of s res xs finder_idx] assms unfolding bench_ready_def by blast
  have i: "same_items xs s s'" using b(4) unfolding same_items_def .
  have "map (\<lambda>a. sint (idx (data_of s' a))) xs = map (\<lambda>a. sint (idx (data_of s a))) xs"
    using b(4) by (metis (mono_tags, lifting) map_eq_conv)
  moreover have "wf_infos s' xs" using assms b(4,5) by (simp add: bench_ready_def wf_infos_def)
  moreover have "\<forall>a \<in> set xs. regenerated (data_of s' a)" using assms b(4) unfolding bench_ready_def by metis
  moreover have "same_setup res res'" using b(2) by (simp add: same_inputs_def)
  ultimately have "bench_ready res' xs s'"
    using assms b(3) results_ok_setup [of res res'] unfolding bench_ready_def
    by (simp add: same_setup_def del: map_eq_conv)
  with b(1,2) i show ?thesis by blast
qed

lemma iterate_round_ready:
  assumes "bench_ready res xs s"
  shows "\<exists>res' s'. iterate_round i (res, s) = Some (res', s') \<and> same_setup res res' \<and> sums_kept res res'
    \<and> (0 < i \<longrightarrow> crclist res' = crclist res) \<and> bench_ready res' xs s' \<and> same_items xs s s'"
proof -
  obtain c1 r1 s1 where 1: "core_bench_list res 1 s = Some (c1, r1, s1)" "same_inputs res r1"
    "bench_ready r1 xs s1" "same_items xs s s1"
    using bench_ready_step [OF assms] by blast
  let ?r1 = "r1\<lparr>res_crc := crcu16 c1 (res_crc r1)\<rparr>"
  have "same_inputs r1 ?r1" by (simp add: same_inputs_defs)
  then have "bench_ready ?r1 xs s1" using bench_ready_results [OF 1(3)] by (simp add: same_inputs_def)
  then obtain c2 r2 s2 where 2: "core_bench_list ?r1 (-1) s1 = Some (c2, r2, s2)" "same_inputs ?r1 r2"
    "bench_ready r2 xs s2" "same_items xs s1 s2"
    using bench_ready_step by blast
  let ?r2 = "r2\<lparr>res_crc := crcu16 c2 (res_crc r2)\<rparr>"
  let ?r = "if i = 0 then ?r2\<lparr>crclist := res_crc ?r2\<rparr> else ?r2"
  have k: "same_inputs res r2"
    using same_inputs_trans [OF 1(2) same_inputs_trans [OF \<open>same_inputs r1 ?r1\<close> 2(2)]] .
  have "same_setup r2 ?r" by (simp add: same_setup_def)
  then have "bench_ready ?r xs s2" using bench_ready_results [OF 2(3)] by blast
  moreover have "iterate_round i (res, s) = Some (?r, s2)" using 1(1) 2(1) by (simp add: iterate_round_def)
  moreover have "same_setup res ?r" "sums_kept res ?r" "0 < i \<longrightarrow> crclist ?r = crclist res"
    using k by (simp_all add: same_inputs_defs)
  ultimately show ?thesis using same_items_trans [OF 1(4) 2(4)] by blast
qed

text \<open>All rounds, and what later rounds keep of the first one's checksums.\<close>

abbreviation cleared :: "core_results \<Rightarrow> core_results" where
  "cleared res \<equiv> res\<lparr>res_crc := 0, crclist := 0, crcmatrix := 0, crcstate := 0\<rparr>"

lemma iterate_ready:
  assumes "bench_ready res xs s"
  shows "\<exists>res' s'. iterate res s = Some (res', s') \<and> same_setup res res' \<and> bench_ready res' xs s' \<and> same_items xs s s'
    \<and> (0 < iterations res \<longrightarrow> (\<exists>r1 s1. iterate_round 0 (cleared res, s) = Some (r1, s1)
          \<and> crclist res' = crclist r1 \<and> sums_kept r1 res'))"
proof -
  define P where "P k st \<longleftrightarrow> (case st of (r, t) \<Rightarrow> same_setup res r \<and> bench_ready r xs t \<and> same_items xs s t
     \<and> (if k = 0 then st = (cleared res, s)
        else \<exists>r1 s1. iterate_round 0 (cleared res, s) = Some (r1, s1) \<and> crclist r = crclist r1 \<and> sums_kept r1 r))"
    for k :: nat and st
  have c: "same_setup res (cleared res)" by (simp add: same_setup_def)
  have "\<exists>st. for_loop (unat (iterations res)) iterate_round (cleared res, s) = Some st \<and> P (unat (iterations res)) st"
  proof (rule for_loop_invariant [of P])
    show "P 0 (cleared res, s)"
      using bench_ready_results [OF assms c] c by (simp add: P_def same_items_def)
  next
    fix i st assume p: "P i st"
    obtain r t where st: "st = (r, t)" by (cases st)
    have r: "same_setup res r" "bench_ready r xs t" "same_items xs s t" using p st by (simp_all add: P_def)
    obtain r' t' where n: "iterate_round i (r, t) = Some (r', t')" "same_setup r r'" "sums_kept r r'"
      "0 < i \<longrightarrow> crclist r' = crclist r" "bench_ready r' xs t'" "same_items xs t t'"
      using iterate_round_ready [OF r(2)] by blast
    have "\<exists>r1 s1. iterate_round 0 (cleared res, s) = Some (r1, s1) \<and> crclist r' = crclist r1 \<and> sums_kept r1 r'"
    proof (cases "i = 0")
      case True
      then have "(r, t) = (cleared res, s)" using p st by (simp add: P_def)
      with True n(1) show ?thesis by (intro exI [of _ r'] exI [of _ t']) (simp add: sums_kept_def)
    next
      case False
      with p st obtain r1 s1 where r1: "iterate_round 0 (cleared res, s) = Some (r1, s1)" "crclist r = crclist r1"
        "sums_kept r1 r"
        by (auto simp: P_def)
      have "crclist r' = crclist r1" using False n(4) r1(2) by simp
      with r1(1) sums_kept_trans [OF r1(3) n(3)] show ?thesis by blast
    qed
    then have "P (Suc i) (r', t')"
      using same_setup_trans [OF r(1) n(2)] same_items_trans [OF r(3) n(6)] n(5) by (simp add: P_def)
    with n(1) st show "\<exists>st'. iterate_round i st = Some st' \<and> P (Suc i) st'" by blast
  qed
  then obtain r t where l: "for_loop (unat (iterations res)) iterate_round (cleared res, s) = Some (r, t)"
    "P (unat (iterations res)) (r, t)" by auto
  have "iterate res s = Some (r, t)" using l(1) by (simp add: iterate_def)
  moreover note q = l(2) [unfolded P_def prod.case]
  moreover have "\<exists>r1 s1. iterate_round 0 (cleared res, s) = Some (r1, s1) \<and> crclist r = crclist r1 \<and> sums_kept r1 r"
    if "0 < iterations res"
  proof -
    have nz: "unat (iterations res) \<noteq> 0" using that by (simp add: unat_eq_0)
    show ?thesis using q unfolding if_not_P [OF nz] by (elim conjE)
  qed
  moreover have "same_setup res r" "bench_ready r xs t" "same_items xs s t" using q by simp_all
  ultimately show ?thesis by blast
qed

section \<open>Set-up\<close>

text \<open>The matrix benchmark's structure and the state benchmark's block after the initialisation.\<close>

lemma matrix_ready:
  assumes "unat memblk + 669 < 2 ^ 32" and "84 \<le> length A" and "84 \<le> length B" and "84 \<le> length C"
  shows "\<exists>p. core_init_matrix 666 memblk seed A B C = Some p \<and> mat_N p = 9
    \<and> length (mat_A p) = length A \<and> length (mat_B p) = length B \<and> mat_C p = C"
proof -
  have "\<exists>p. core_init_matrix 666 memblk seed A B C = Some p
    \<and> 8 * (mat_N p * mat_N p) < unat (666 :: u32) \<and> unat (666 :: u32) \<le> 8 * (Suc (mat_N p) * Suc (mat_N p))
    \<and> length (mat_A p) = length A \<and> length (mat_B p) = length B \<and> mat_C p = C"
    by (rule ex_forward [OF init_matrix_layout [of 666 memblk A B seed C]]) (use assms in \<open>auto\<close>)
  then obtain p where p: "core_init_matrix 666 memblk seed A B C = Some p" "8 * (mat_N p * mat_N p) < 666"
    "666 \<le> 8 * (Suc (mat_N p) * Suc (mat_N p))" "length (mat_A p) = length A" "length (mat_B p) = length B" "mat_C p = C"
    by auto
  have "mat_N p = 9"
  proof (rule ccontr)
    assume "mat_N p \<noteq> 9"
    then consider "mat_N p \<le> 8" | "10 \<le> mat_N p" by linarith
    then show False
    proof cases
      case 1
      then have "Suc (mat_N p) * Suc (mat_N p) \<le> 9 * 9" by (intro mult_le_mono) simp_all
      with p(3) show False by simp
    next
      case 2
      then have "10 * 10 \<le> mat_N p * mat_N p" by (intro mult_le_mono)
      with p(2) show False by simp
    qed
  qed
  with p show ?thesis by blast
qed

text \<open>The only byte the seeds of a validation run turn into a comma is \<open>9\<close>, which no pattern contains.\<close>

lemma choose_pattern_no_9: "0x39 \<notin> set (fst (choose_pattern seed))"
proof -
  have "\<forall>q \<in> set (intpat @ floatpat @ scipat @ errpat). 0x39 \<notin> set q"
    by (simp add: intpat_def floatpat_def scipat_def errpat_def str8_def chr8_def)
  moreover have "length intpat = 4" "length floatpat = 4" "length scipat = 4" "length errpat = 4"
    by (simp_all add: intpat_def floatpat_def scipat_def errpat_def)
  then have "fst (choose_pattern seed) \<in> set (intpat @ floatpat @ scipat @ errpat)"
    using pattern_index [of seed] by (simp add: choose_pattern_def Let_def)
  ultimately show ?thesis by blast
qed

lemma pattern_text_no_9: "0x39 \<notin> set (pattern_text n seed)"
  using choose_pattern_no_9 by (induction n arbitrary: seed) (simp_all add: chr8_def)

lemma state_ready:
  assumes "seed = 0 \<or> seed = 0x3415" and "666 \<le> length p"
  shows "\<exists>m. core_init_state 666 seed p = Some m \<and> length m = length p \<and> m ! 665 = 0
    \<and> (\<forall>i < 666. m ! i \<noteq> chr8 CHR '','' \<longrightarrow> m ! i XOR ucast seed \<noteq> chr8 CHR '','')"
proof -
  obtain n k where m: "core_init_state 666 seed p = Some (pattern_text n (seed + 1) @ replicate k 0 @ drop 666 p)"
    and l: "length (pattern_text n (seed + 1)) + k = 666" "1 \<le> k"
    using init_state_fills [of 666 p seed] assms(2) by auto
  let ?m = "(pattern_text n (seed + 1) @ replicate k 0) @ drop 666 p"
  have "?m ! i \<in> set (pattern_text n (seed + 1) @ replicate k 0)" if "i < 666" for i
    using nth_mem [of i "pattern_text n (seed + 1) @ replicate k (0 :: u8)"] that l(1)
    by (simp only: nth_append length_append length_replicate if_True)
  then have n9: "?m ! i \<noteq> 0x39" if "i < 666" for i
    using that pattern_text_no_9 [of n "seed + 1"] by fastforce
  have x: "c XOR ucast seed = chr8 CHR '','' \<Longrightarrow> c = chr8 CHR '','' \<or> c = 0x39" for c :: u8
  proof -
    assume "c XOR ucast seed = chr8 CHR '',''"
    then have "c = chr8 CHR '','' XOR ucast seed" by (metis xor.assoc xor_self_eq xor.right_neutral)
    with assms(1) show ?thesis by (auto simp: chr8_def)
  qed
  have "665 - length (pattern_text n (seed + 1)) < k" using l by linarith
  then have z: "?m ! 665 = 0" using l by (simp add: nth_append)
  have "length ?m = length p" using l(1) assms(2) by simp
  moreover have "\<forall>i < 666. ?m ! i \<noteq> chr8 CHR '','' \<longrightarrow> ?m ! i XOR ucast seed \<noteq> chr8 CHR '',''"
    using n9 x by blast
  ultimately show ?thesis using m z by (intro exI [of _ ?m]) (simp only: append_assoc simp_thms)
qed

text \<open>The two configurations that use one third of 2000 bytes per algorithm, with their first seed.\<close>

definition run_2k :: "seeds \<Rightarrow> s16 \<Rightarrow> bool" where
  "run_2k v x \<longleftrightarrow> v = performance_seeds \<and> x = 0 \<or> v = validation_seeds \<and> x = 0x3415"

lemma read_seeds_2k:
  assumes "run_2k v x"
  shows "read_seeds v res = res\<lparr>seed1 := x, seed2 := x, seed3 := 0x66, iterations := 1, execs := 7,
    res_size := 2000, err := 0\<rparr>"
  using assms unfolding run_2k_def
  by (elim disjE) (simp_all add: read_seeds_def performance_seeds_def validation_seeds_def get_seed_def get_seed_32_def
      default_seeds_def ID_defs ITERATIONS_def TOTAL_DATA_SIZE_def Let_def)

lemma all_algorithms: "num_algorithms 7 = 3"
  "assign_blocks 7 666 base = [Some base, Some base, Some (base + 666), Some (base + 1332)]"
  by (simp_all add: num_algorithms_def assign_blocks_def selected_def NUM_ALGORITHMS_def upt_rec)

lemma known_seed_crcs:
  "crc16 666 (crc16 0x66 (crc16 0 (crc16 0 0))) = 0xe9f5"
  "crc16 666 (crc16 0x66 (crc16 0x3415 (crc16 0x3415 0))) = 0x18f2"
  by code_simp+

text \<open>The parts of the block are large enough.\<close>

definition memory_2k :: "core_memory \<Rightarrow> bool" where
  "memory_2k mem \<longleftrightarrow> 31 \<le> length (heads (list_part mem)) \<and> 31 \<le> length (datas (list_part mem))
     \<and> 84 \<le> length (part_A mem) \<and> 84 \<le> length (part_B mem) \<and> 84 \<le> length (part_C mem)
     \<and> 666 \<le> length (state_part mem)"

definition inputs_2k :: "s16 \<Rightarrow> core_results \<Rightarrow> bool" where
  "inputs_2k x res \<longleftrightarrow> seed1 res = x \<and> seed2 res = x \<and> seed3 res = 0x66 \<and> res_size res = 666
     \<and> iterations res = 1 \<and> execs res = 7"

lemma inputs_2k_known:
  assumes "run_2k v x" and "inputs_2k x res"
  shows "known_run (seed_crc res) = Some (if v = performance_seeds then (3, ''2K performance run parameters for coremark.'')
    else (4, ''2K validation run parameters for coremark.''))"
proof -
  have "validation_seeds \<noteq> performance_seeds" by (simp add: validation_seeds_def performance_seeds_def)
  moreover have "seed_crc res = (if x = 0 then 0xe9f5 else 0x18f2)"
    using assms known_seed_crcs by (auto simp: seed_crc_def inputs_2k_def run_2k_def)
  ultimately show ?thesis using assms(1) by (auto simp: known_run_def run_2k_def)
qed

lemma core_setup_2k:
  assumes v: "run_2k v x" and base: "unat base + 2000 \<le> 2 ^ 32" and mem: "memory_2k mem"
  shows "\<exists>res s xs. core_setup v base mem res0 = Some (res, s) \<and> bench_ready res xs s
    \<and> length xs = 30 \<and> set xs = {0..<30} \<and> inputs_2k x res"
proof -
  have x: "x = 0 \<or> x = 0x3415" using v by (auto simp: run_2k_def)
  obtain l s xs where l: "core_list_init 666 x (list_part mem) = Some (l, s)" "seg s l xs None" "length xs = 30"
    "set xs = {0..<30}" "wf_infos s xs" "sorted_wrt (<) (map (\<lambda>a. sint (idx (data_of s a))) xs)"
    "\<forall>a \<in> set xs. regenerated (data_of s a)"
    using init_list_2k [OF x, of "list_part mem"] mem unfolding memory_2k_def by blast
  have "unat (base + 666) = unat base + 666" using base by (simp add: unat_word_ariths)
  then obtain p where p: "core_init_matrix 666 (base + 666) (scast x OR push_bit 16 (scast x)) (part_A mem) (part_B mem) (part_C mem)
      = Some p" "mat_N p = 9" "length (mat_A p) = length (part_A mem)" "length (mat_B p) = length (part_B mem)"
    "mat_C p = part_C mem"
    using matrix_ready [of "base + 666" "part_A mem" "part_B mem" "part_C mem"] base mem
    unfolding memory_2k_def by force
  obtain m where m: "core_init_state 666 x (state_part mem) = Some m" "length m = length (state_part mem)" "m ! 665 = 0"
    "\<forall>i < 666. m ! i \<noteq> chr8 CHR '','' \<longrightarrow> m ! i XOR ucast x \<noteq> chr8 CHR '',''"
    using state_ready [OF x] mem unfolding memory_2k_def by blast
  let ?r = "res0\<lparr>seed1 := x, seed2 := x, seed3 := 0x66, memblock3 := m, res_size := 666, iterations := 1, execs := 7,
    res_list := l, res_mat := p, err := 0\<rparr>"
  have "results_ok ?r"
    using m p(2-5) mem by (auto simp: results_ok_def memory_2k_def intro!: exI [of _ 665])
  then have "bench_ready ?r xs s" using l by (simp add: bench_ready_def del: map_eq_conv)
  moreover have "core_setup v base mem res0 = Some (?r, s)"
    by (simp add: core_setup_def read_seeds_2k [OF v] all_algorithms core_init_def ID_defs Let_def l(1) p(1) m(1))
  moreover have "inputs_2k x ?r" by (simp add: inputs_2k_def)
  ultimately show ?thesis using l(3,4) by blast
qed

section \<open>The verdict\<close>

lemma check_data_types_ok: "check_data_types = (0, [])"
  by (simp add: check_data_types_def)

text \<open>The number of the selected benchmarks whose checksum is not the known one.\<close>

definition mismatches :: "nat \<Rightarrow> core_results \<Rightarrow> nat" where
  "mismatches known_id res =
     length (filter (\<lambda>(sel, crc, known). execs res AND sel \<noteq> 0 \<and> crc \<noteq> known ! known_id)
       [(ID_LIST, crclist res, list_known_crc), (ID_MATRIX, crcmatrix res, matrix_known_crc),
        (ID_STATE, crcstate res, state_known_crc)])"

lemma check_results_count: "fst (check_results addr k res) = of_nat (mismatches k res)"
  by (simp add: check_results_def check_crc_def mismatches_def)

lemma mismatches_le: "mismatches k res \<le> 3"
  unfolding mismatches_def by (rule order_trans [OF length_filter_le]) simp

lemma small_count:
  assumes "k \<le> 3"
  shows "(of_nat k :: s16) = 0 \<longleftrightarrow> k = 0" and "0 <s (of_nat k :: s16) \<longleftrightarrow> 0 < k" and "\<not> (of_nat k :: s16) <s 0"
proof -
  have "k = 0 \<or> k = 1 \<or> k = 2 \<or> k = 3" using assms by arith
  then show "(of_nat k :: s16) = 0 \<longleftrightarrow> k = 0" and "0 <s (of_nat k :: s16) \<longleftrightarrow> 0 < k" and "\<not> (of_nat k :: s16) <s 0"
    by (auto simp: word_sless_alt)
qed

lemma known_run_less: "known_run c = Some (k, t) \<Longrightarrow> k < 5"
  by (auto simp: known_run_def split: if_splits)

section \<open>Elapsed time\<close>

lemma quotient_step:
  fixes q0 q1 r0 r1 :: nat
  assumes "4294967296 * q0 + r0 \<le> 4294967296 * q1 + r1" and "4294967296 * q1 + r1 < 4294967296 * q0 + r0 + 4294967296"
    and "r0 < 4294967296" and "r1 < 4294967296"
  shows "q1 = (if r0 \<le> r1 then q0 else Suc q0)"
  using assms by (cases "r0 \<le> r1") simp_all

lemma get_time_words:
  assumes "T0 \<le> T1" and "T1 - T0 < 2 ^ 32"
  shows "get_time (ucast (T0 :: u64), ucast T1) = (if (ucast T0 :: u32) \<le> ucast T1 then T1 - T0 else T1 - T0 - 2 ^ 32)"
proof -
  define q r where "q T = unat T div 2 ^ 32" and "r T = unat T mod 2 ^ 32" for T :: u64
  have "of_nat (2 ^ 32 * q T + r T) = T" for T by (simp add: q_def r_def)
  then have T: "T = 2 ^ 32 * of_nat (q T) + of_nat (r T)" for T by (metis of_nat_add of_nat_mult of_nat_numeral of_nat_power)
  have e: "T1 - T0 = 2 ^ 32 * of_nat (q T1) + of_nat (r T1) - (2 ^ 32 * of_nat (q T0) + of_nat (r T0))"
    by (rule arg_cong2 [where f = minus, OF T T])
  have w: "(ucast (ucast T :: u32) :: u64) = of_nat (r T)" for T
  proof -
    have "(ucast (ucast T :: u32) :: u64) = take_bit 32 T" by (rule bit_word_eqI) (auto simp: bit_simps)
    also have "\<dots> = of_nat (take_bit 32 (unat T))" by (simp add: of_nat_take_bit)
    finally show ?thesis by (simp only: r_def take_bit_eq_mod)
  qed
  have le: "(ucast T0 :: u32) \<le> ucast T1 \<longleftrightarrow> r T0 \<le> r T1"
    by (simp add: word_le_nat_alt unsigned_ucast_eq take_bit_eq_mod unsigned_take_bit_eq r_def)
  have d: "unat T0 \<le> unat T1" "unat T1 < unat T0 + 2 ^ 32"
    using assms by (simp_all add: word_le_nat_alt word_less_nat_alt unat_sub)
  have bound: "r T < 2 ^ 32" for T by (simp add: r_def)
  have split: "unat T = 2 ^ 32 * q T + r T" for T by (simp add: q_def r_def)
  have q1: "q T1 = (if r T0 \<le> r T1 then q T0 else Suc (q T0))"
    using d bound [of T0] bound [of T1] unfolding split [of T0] split [of T1] by (intro quotient_step) simp_all
  show ?thesis
  proof (cases "r T0 \<le> r T1")
    case True
    then have "q T1 = q T0" using q1 by simp
    then have "T1 - T0 = of_nat (r T1) - of_nat (r T0)" using e by simp
    with True le show ?thesis by (simp add: get_time_def w)
  next
    case False
    then have "q T1 = Suc (q T0)" using q1 by simp
    then have "T1 - T0 = 2 ^ 32 + of_nat (r T1) - of_nat (r T0)" using e by (simp add: algebra_simps)
    with False le show ?thesis by (simp add: get_time_def w)
  qed
qed

section \<open>Properties\<close>


text \<open>A memory of the size the parts need, with no particular contents.\<close>

definition some_memory :: core_memory where
  "some_memory = \<lparr>list_part = \<lparr>heads = replicate 31 \<lparr>nxt = Some 7, info = 9\<rparr>, datas = replicate 31 \<lparr>data16 = 5, idx = 3\<rparr>\<rparr>,
     part_A = replicate 84 1, part_B = replicate 84 2, part_C = replicate 84 3, state_part = replicate 668 4\<rparr>"


text \<open> C22: The verdict is exact: the total of the errors is negative exactly for an unknown run, zero
  exactly when the run is known and every selected checksum is the known one, positive exactly when a
  known run has a wrong checksum; and the results record the number of wrong checksums. \<close>

theorem validate_exact:
  assumes "validate addr res = (known_id, total_errors, res', out)"
  shows "(total_errors <s 0 \<longleftrightarrow> known_run (seed_crc res) = None)
    \<and> (total_errors = 0 \<longleftrightarrow> (\<exists>k. known_id = Some k
          \<and> (execs res AND ID_LIST \<noteq> 0 \<longrightarrow> crclist res = list_known_crc ! k)
          \<and> (execs res AND ID_MATRIX \<noteq> 0 \<longrightarrow> crcmatrix res = matrix_known_crc ! k)
          \<and> (execs res AND ID_STATE \<noteq> 0 \<longrightarrow> crcstate res = state_known_crc ! k)))
    \<and> (0 <s total_errors \<longleftrightarrow> (\<exists>k. known_id = Some k \<and> 0 < mismatches k res))
    \<and> known_id = map_option fst (known_run (seed_crc res))
    \<and> (\<forall>k. known_id = Some k \<longrightarrow> k < 5 \<and> err res' = of_nat (mismatches k res))"
proof (cases "known_run (seed_crc res)")
  case None
  with assms show ?thesis by (auto simp: validate_def check_data_types_ok word_sless_alt)
next
  case (Some kt)
  then obtain k t where k: "known_run (seed_crc res) = Some (k, t)" by (cases kt) auto
  then have v: "known_id = Some k" "total_errors = of_nat (mismatches k res)" "err res' = of_nat (mismatches k res)"
    using assms check_results_count [of addr k res]
    by (auto simp: validate_def check_data_types_ok split: prod.splits)
  have "mismatches k res = 0 \<longleftrightarrow> (execs res AND ID_LIST \<noteq> 0 \<longrightarrow> crclist res = list_known_crc ! k)
      \<and> (execs res AND ID_MATRIX \<noteq> 0 \<longrightarrow> crcmatrix res = matrix_known_crc ! k)
      \<and> (execs res AND ID_STATE \<noteq> 0 \<longrightarrow> crcstate res = state_known_crc ! k)"
    by (simp add: mismatches_def)
  with v k small_count [OF mismatches_le [of k res]] known_run_less [OF k] show ?thesis by auto
qed

definition known_results :: core_results where
  "known_results = plain_results\<lparr>seed3 := 0x66, res_size := 666, crclist := 0xe714, crcmatrix := 0x1fd7, crcstate := 0x8e3a\<rparr>"

lemma validate_exact_witness:
  "(fst (snd (validate (\<lambda>_. 0) known_results)) <s 0 \<longleftrightarrow> known_run (seed_crc known_results) = None)
    \<and> (fst (snd (validate (\<lambda>_. 0) known_results)) = 0 \<longleftrightarrow> (\<exists>k. fst (validate (\<lambda>_. 0) known_results) = Some k
          \<and> (execs known_results AND ID_LIST \<noteq> 0 \<longrightarrow> crclist known_results = list_known_crc ! k)
          \<and> (execs known_results AND ID_MATRIX \<noteq> 0 \<longrightarrow> crcmatrix known_results = matrix_known_crc ! k)
          \<and> (execs known_results AND ID_STATE \<noteq> 0 \<longrightarrow> crcstate known_results = state_known_crc ! k)))
    \<and> fst (validate (\<lambda>_. 0) known_results) = Some 3"
proof -
  have "seed_crc known_results = 0xe9f5"
    using known_seed_crcs(1) by (simp add: seed_crc_def known_results_def plain_results_def)
  then have k: "known_run (seed_crc known_results) = Some (3, ''2K performance run parameters for coremark.'')"
    by (simp add: known_run_def)
  obtain i t r out where v: "validate (\<lambda>_. 0) known_results = (i, t, r, out)" by (metis prod_cases4)
  from validate_exact [OF v] k show ?thesis unfolding v by simp
qed

text \<open>The measured time: for an interval of the 64-bit timer shorter than \<open>2 ^ 32\<close> ticks, the
  difference of the two 32-bit readings is the length of the interval exactly when the low half has not
  wrapped in between; when it has, the result is \<open>2 ^ 32\<close> too small, a huge number modulo \<open>2 ^ 64\<close>. \<close>

theorem get_time_exact:
  assumes "T0 \<le> T1" and "T1 - T0 < 2 ^ 32"
  shows "get_time (ucast (T0 :: u64), ucast T1) = (if (ucast T0 :: u32) \<le> ucast T1 then T1 - T0 else T1 - T0 - 2 ^ 32)"
  using assms by (rule get_time_words)

lemma get_time_exact_witness:
  "get_time (ucast (0xFFFFFFF0 :: u64), ucast (0x100000010 :: u64)) = 0x20 - 2 ^ 32"
  using get_time_exact [of "0xFFFFFFF0" "0x100000010"] by simp

end
