(* ===== verification/Dhrystone.thy ===== *)
theory Dhrystone
  imports Arrays Libc_Stubs "HOL-Library.Signed_Division"
begin

text \<open>
  The Dhrystone benchmark \<open>software/app/Dhrystone/src/dhry_1.c\<close> and \<open>dhry_2.c\<close>: the global
  variables, the two records on the heap, the eight procedures and three functions, the measured
  loop, and the report. A procedure that writes through a reference parameter returns the value it
  leaves there. Enumerations and Booleans are \<open>int\<close> (the header defines \<open>NOENUM\<close>), \<open>char\<close> is an
  unsigned byte as on every RISC-V target, and a string is the array of its 31 bytes.
\<close>

section \<open>Types and variables\<close>

definition Ident_1 :: s32 where "Ident_1 = 0"
definition Ident_2 :: s32 where "Ident_2 = 1"
definition Ident_3 :: s32 where "Ident_3 = 2"
definition Ident_4 :: s32 where "Ident_4 = 3"
definition Ident_5 :: s32 where "Ident_5 = 4"

lemmas Ident_defs = Ident_1_def Ident_2_def Ident_3_def Ident_4_def Ident_5_def

type_synonym str_30 = "u8 list"

text \<open>Only the first variant of the record's union is used.\<close>

record rec_type =
  Ptr_Comp :: u32
  Discr :: s32
  Enum_Comp :: s32
  Int_Comp :: s32
  Str_Comp :: str_30

text \<open>\<open>sizeof (Rec_Type)\<close>: pointer, discriminant, two integers and 31 bytes, padded to a word.\<close>

definition rec_size :: u32 where "rec_size = 48"

record dhry =
  Ptr_Glob :: u32
  Next_Ptr_Glob :: u32
  Int_Glob :: s32
  Bool_Glob :: s32
  Ch_1_Glob :: u8
  Ch_2_Glob :: u8
  Arr_1_Glob :: "s32 list"
  Arr_2_Glob :: "s32 list list"
  recs :: "u32 \<rightharpoonup> rec_type"

record dhry_locals =
  Int_1_Loc :: s32
  Int_2_Loc :: s32
  Int_3_Loc :: s32
  Enum_Loc :: s32
  Str_1_Loc :: str_30
  Str_2_Loc :: str_30

definition chr_of :: "char \<Rightarrow> u8" where
  "chr_of c = of_char c"

definition put_rec :: "u32 \<Rightarrow> (rec_type \<Rightarrow> rec_type) \<Rightarrow> dhry \<Rightarrow> dhry option" where
  "put_rec p f s = do { r \<leftarrow> recs s p; Some (s\<lparr>recs := (recs s)(p \<mapsto> f r)\<rparr>) }"

text \<open>\<open>strcpy\<close> and \<open>strcmp\<close> of the C library on byte arrays.\<close>

definition strcpy :: "str_30 \<Rightarrow> string \<Rightarrow> str_30 option" where
  "strcpy dst src = (if length src < length dst then Some (bytes_of src @ [0] @ drop (Suc (length src)) dst) else None)"

fun strcmp :: "u8 list \<Rightarrow> u8 list \<Rightarrow> int option" where
  "strcmp (a # as) (b # bs) = (if a \<noteq> b \<or> a = 0 then Some (uint a - uint b) else strcmp as bs)"
| "strcmp _ _ = None"

section \<open>Functions and procedures\<close>

definition Func_1 :: "u8 \<Rightarrow> u8 \<Rightarrow> dhry \<Rightarrow> s32 \<times> dhry" where
  "Func_1 Ch_1_Par_Val Ch_2_Par_Val s =
     (let Ch_1_Loc = Ch_1_Par_Val; Ch_2_Loc = Ch_1_Loc
      in if Ch_2_Loc \<noteq> Ch_2_Par_Val then (Ident_1, s) else (Ident_2, s\<lparr>Ch_1_Glob := Ch_1_Loc\<rparr>))"

text \<open>The loop of \<open>Func_2\<close> repeats for ever when the two characters agree.\<close>

partial_function (option) func_2_loop ::
  "str_30 \<Rightarrow> str_30 \<Rightarrow> s32 \<Rightarrow> u8 option \<Rightarrow> dhry \<Rightarrow> (s32 \<times> u8 option \<times> dhry) option" where
  "func_2_loop s1 s2 Int_Loc Ch_Loc s =
     (if Int_Loc \<le>s 2 then do {
        a \<leftarrow> rd s1 (unat Int_Loc);
        b \<leftarrow> rd s2 (unat (Int_Loc + 1));
        let (e, s) = Func_1 a b s;
        if e = Ident_1 then func_2_loop s1 s2 (Int_Loc + 1) (Some (chr_of CHR ''A'')) s
        else func_2_loop s1 s2 Int_Loc Ch_Loc s }
      else Some (Int_Loc, Ch_Loc, s))"

text \<open>A \<open>Ch_Loc\<close> that was never assigned has no value.\<close>

definition Func_2 :: "str_30 \<Rightarrow> str_30 \<Rightarrow> dhry \<Rightarrow> (s32 \<times> dhry) option" where
  "Func_2 Str_1_Par_Ref Str_2_Par_Ref s = do {
     (Int_Loc, ch, s) \<leftarrow> func_2_loop Str_1_Par_Ref Str_2_Par_Ref 2 None s;
     Ch_Loc \<leftarrow> ch;
     let Int_Loc = (if Ch_Loc \<ge> chr_of CHR ''W'' \<and> Ch_Loc < chr_of CHR ''Z'' then 7 else Int_Loc);
     if Ch_Loc = chr_of CHR ''R'' then Some (1, s)
     else do {
       c \<leftarrow> strcmp Str_1_Par_Ref Str_2_Par_Ref;
       if c > 0 then Some (1, s\<lparr>Int_Glob := Int_Loc + 7\<rparr>) else Some (0, s) } }"

definition Func_3 :: "s32 \<Rightarrow> bool" where
  "Func_3 Enum_Par_Val \<longleftrightarrow> Enum_Par_Val = Ident_3"

text \<open>The value \<open>Proc_6\<close> leaves in its reference parameter; other values than the five leave the first assignment.\<close>

definition Proc_6 :: "s32 \<Rightarrow> dhry \<Rightarrow> s32" where
  "Proc_6 Enum_Val_Par s =
     (let r = Enum_Val_Par;
          r = (if \<not> Func_3 Enum_Val_Par then Ident_4 else r)
      in if Enum_Val_Par = Ident_1 then Ident_1
         else if Enum_Val_Par = Ident_2 then (if 100 <s Int_Glob s then Ident_1 else Ident_4)
         else if Enum_Val_Par = Ident_3 then Ident_2
         else if Enum_Val_Par = Ident_4 then r
         else if Enum_Val_Par = Ident_5 then Ident_3
         else r)"

definition Proc_7 :: "s32 \<Rightarrow> s32 \<Rightarrow> s32" where
  "Proc_7 Int_1_Par_Val Int_2_Par_Val = (let Int_Loc = Int_1_Par_Val + 2 in Int_2_Par_Val + Int_Loc)"

text \<open>The inner loop of \<open>Proc_8\<close> runs over two indices.\<close>

definition wr2 :: "s32 list list \<Rightarrow> nat \<Rightarrow> nat \<Rightarrow> s32 \<Rightarrow> s32 list list option" where
  "wr2 a i j v = do { row \<leftarrow> rd a i; row \<leftarrow> wr row j v; wr a i row }"

definition Proc_8 :: "s32 \<Rightarrow> s32 \<Rightarrow> dhry \<Rightarrow> dhry option" where
  "Proc_8 Int_1_Par_Val Int_2_Par_Val s = do {
     let Int_Loc = Int_1_Par_Val + 5;
     let l = unat Int_Loc;
     a1 \<leftarrow> wr (Arr_1_Glob s) l Int_2_Par_Val;
     x \<leftarrow> rd a1 l;
     a1 \<leftarrow> wr a1 (l + 1) x;
     a1 \<leftarrow> wr a1 (l + 30) Int_Loc;
     a2 \<leftarrow> for_loop 2 (\<lambda>k a2. wr2 a2 l (l + k) Int_Loc) (Arr_2_Glob s);
     row \<leftarrow> rd a2 l;
     x \<leftarrow> rd row (l - 1);
     a2 \<leftarrow> wr2 a2 l (l - 1) (x + 1);
     x \<leftarrow> rd a1 l;
     a2 \<leftarrow> wr2 a2 (l + 20) l x;
     Some (s\<lparr>Arr_1_Glob := a1, Arr_2_Glob := a2, Int_Glob := 5\<rparr>) }"

text \<open>\<open>Proc_3\<close> writes through a pointer to the field \<open>Ptr_Comp\<close> of record \<open>p\<close>.\<close>

definition Proc_3 :: "u32 \<Rightarrow> dhry \<Rightarrow> dhry option" where
  "Proc_3 p s = do {
     s \<leftarrow> (if Ptr_Glob s \<noteq> 0 then do {
         g \<leftarrow> recs s (Ptr_Glob s);
         put_rec p (\<lambda>r. r\<lparr>Ptr_Comp := Ptr_Comp g\<rparr>) s }
       else Some s);
     put_rec (Ptr_Glob s) (\<lambda>g. g\<lparr>Int_Comp := Proc_7 10 (Int_Glob s)\<rparr>) s }"

definition Proc_1 :: "u32 \<Rightarrow> dhry \<Rightarrow> dhry option" where
  "Proc_1 Ptr_Val_Par s = do {
     v \<leftarrow> recs s Ptr_Val_Par;
     let Next_Record = Ptr_Comp v;
     g \<leftarrow> recs s (Ptr_Glob s);
     s \<leftarrow> put_rec (Ptr_Comp v) (\<lambda>_. g) s;
     s \<leftarrow> put_rec Ptr_Val_Par (\<lambda>r. r\<lparr>Int_Comp := 5\<rparr>) s;
     v \<leftarrow> recs s Ptr_Val_Par;
     s \<leftarrow> put_rec Next_Record (\<lambda>r. r\<lparr>Int_Comp := Int_Comp v\<rparr>) s;
     v \<leftarrow> recs s Ptr_Val_Par;
     s \<leftarrow> put_rec Next_Record (\<lambda>r. r\<lparr>Ptr_Comp := Ptr_Comp v\<rparr>) s;
     s \<leftarrow> Proc_3 Next_Record s;
     n \<leftarrow> recs s Next_Record;
     v \<leftarrow> recs s Ptr_Val_Par;
     if Discr n = Ident_1 then do {
       s \<leftarrow> put_rec Next_Record (\<lambda>r. r\<lparr>Int_Comp := 6\<rparr>) s;
       v \<leftarrow> recs s Ptr_Val_Par;
       s \<leftarrow> put_rec Next_Record (\<lambda>r. r\<lparr>Enum_Comp := Proc_6 (Enum_Comp v) s\<rparr>) s;
       g \<leftarrow> recs s (Ptr_Glob s);
       s \<leftarrow> put_rec Next_Record (\<lambda>r. r\<lparr>Ptr_Comp := Ptr_Comp g\<rparr>) s;
       put_rec Next_Record (\<lambda>r. r\<lparr>Int_Comp := Proc_7 (Int_Comp r) 10\<rparr>) s }
     else do {
       m \<leftarrow> recs s (Ptr_Comp v);
       put_rec Ptr_Val_Par (\<lambda>_. m) s } }"

text \<open>
  The loop of \<open>Proc_2\<close> ends after the first round if the character is \<open>A\<close>; otherwise its condition
  reads the unassigned \<open>Enum_Loc\<close>, which has no value.
\<close>

definition Proc_2 :: "s32 \<Rightarrow> dhry \<Rightarrow> s32 option" where
  "Proc_2 Int_Par_Ref s =
     (let Int_Loc = Int_Par_Ref + 10
      in if Ch_1_Glob s = chr_of CHR ''A'' then Some (Int_Loc - 1 - Int_Glob s) else None)"

definition Proc_4 :: "dhry \<Rightarrow> dhry" where
  "Proc_4 s =
     (let Bool_Loc = (if Ch_1_Glob s = chr_of CHR ''A'' then 1 else 0)
      in s\<lparr>Bool_Glob := Bool_Loc OR Bool_Glob s, Ch_2_Glob := chr_of CHR ''B''\<rparr>)"

definition Proc_5 :: "dhry \<Rightarrow> dhry" where
  "Proc_5 s = s\<lparr>Ch_1_Glob := chr_of CHR ''A'', Bool_Glob := 0\<rparr>"

section \<open>The measured loop\<close>

text \<open>\<open>while (Int_1_Loc < Int_2_Loc)\<close>; the result is \<open>Int_1_Loc\<close> and \<open>Int_3_Loc\<close>.\<close>

partial_function (option) int_loop :: "s32 \<Rightarrow> s32 \<Rightarrow> s32 \<Rightarrow> (s32 \<times> s32) option" where
  "int_loop i1 i2 i3 =
     (if i1 <s i2 then (let i3 = 5 * i1 - i2; i3 = Proc_7 i1 i2 in int_loop (i1 + 1) i2 i3)
      else Some (i1, i3))"

text \<open>\<open>for (Ch_Index = 'A'; Ch_Index <= Ch_2_Glob; ++Ch_Index)\<close>\<close>

partial_function (option) ch_loop :: "s32 \<Rightarrow> u8 \<Rightarrow> dhry_locals \<Rightarrow> dhry \<Rightarrow> (dhry_locals \<times> dhry) option" where
  "ch_loop Run_Index Ch_Index l s =
     (if Ch_Index \<le> Ch_2_Glob s then do {
        let (e, s) = Func_1 Ch_Index (chr_of CHR ''C'') s;
        (l, s) \<leftarrow>
          (if Enum_Loc l = e then do {
             let l = l\<lparr>Enum_Loc := Proc_6 Ident_1 s\<rparr>;
             str \<leftarrow> strcpy (Str_2_Loc l) ''DHRYSTONE PROGRAM, 3'RD STRING'';
             Some (l\<lparr>Str_2_Loc := str, Int_2_Loc := Run_Index\<rparr>, s\<lparr>Int_Glob := Run_Index\<rparr>) }
           else Some (l, s));
        ch_loop Run_Index (Ch_Index + 1) l s }
      else Some (l, s))"

text \<open>\<open>/\<close> of C truncates towards zero and has no value for a zero divisor.\<close>

definition sdiv32 :: "s32 \<Rightarrow> s32 \<Rightarrow> s32 option" where
  "sdiv32 a b = (if b = 0 then None else Some (word_of_int (sint a sdiv sint b)))"

definition dhry_run :: "s32 \<Rightarrow> dhry_locals \<times> dhry \<Rightarrow> (dhry_locals \<times> dhry) option" where
  "dhry_run Run_Index = (\<lambda>(l, s). do {
     let s = Proc_5 s;
     let s = Proc_4 s;
     let l = l\<lparr>Int_1_Loc := 2, Int_2_Loc := 3\<rparr>;
     str \<leftarrow> strcpy (Str_2_Loc l) ''DHRYSTONE PROGRAM, 2'ND STRING'';
     let l = l\<lparr>Str_2_Loc := str, Enum_Loc := Ident_2\<rparr>;
     (b, s) \<leftarrow> Func_2 (Str_1_Loc l) (Str_2_Loc l) s;
     let s = s\<lparr>Bool_Glob := (if b = 0 then 1 else 0)\<rparr>;
     (i1, i3) \<leftarrow> int_loop (Int_1_Loc l) (Int_2_Loc l) (Int_3_Loc l);
     let l = l\<lparr>Int_1_Loc := i1, Int_3_Loc := i3\<rparr>;
     s \<leftarrow> Proc_8 (Int_1_Loc l) (Int_3_Loc l) s;
     s \<leftarrow> Proc_1 (Ptr_Glob s) s;
     (l, s) \<leftarrow> ch_loop Run_Index (chr_of CHR ''A'') l s;
     let l = l\<lparr>Int_2_Loc := Int_2_Loc l * Int_1_Loc l\<rparr>;
     q \<leftarrow> sdiv32 (Int_2_Loc l) (Int_3_Loc l);
     let l = l\<lparr>Int_1_Loc := q\<rparr>;
     let l = l\<lparr>Int_2_Loc := 7 * (Int_2_Loc l - Int_3_Loc l) - Int_1_Loc l\<rparr>;
     r \<leftarrow> Proc_2 (Int_1_Loc l) s;
     Some (l\<lparr>Int_1_Loc := r\<rparr>, s) })"

definition dhry_loop :: "nat \<Rightarrow> dhry_locals \<times> dhry \<Rightarrow> (dhry_locals \<times> dhry) option" where
  "dhry_loop Number_Of_Runs = for_loop Number_Of_Runs (\<lambda>i. dhry_run (of_nat (Suc i)))"

section \<open>Set-up\<close>

text \<open>The blocks \<open>malloc\<close> returns have arbitrary contents; a null result is no block.\<close>

definition new_rec :: "rec_type \<Rightarrow> dhry \<times> brk_state \<Rightarrow> u32 \<times> dhry \<times> brk_state" where
  "new_rec junk = (\<lambda>(s, b). let (p, b) = malloc rec_size b
     in (p, if p = 0 then s else s\<lparr>recs := (recs s)(p \<mapsto> junk)\<rparr>, b))"

definition dhry_setup :: "rec_type \<Rightarrow> rec_type \<Rightarrow> dhry_locals \<times> dhry \<times> brk_state
    \<Rightarrow> (dhry_locals \<times> dhry \<times> brk_state) option" where
  "dhry_setup junk1 junk2 = (\<lambda>(l, s, b). do {
     let (p, s, b) = new_rec junk1 (s, b);
     let s = s\<lparr>Next_Ptr_Glob := p\<rparr>;
     let (p, s, b) = new_rec junk2 (s, b);
     let s = s\<lparr>Ptr_Glob := p\<rparr>;
     s \<leftarrow> put_rec (Ptr_Glob s) (\<lambda>r. r\<lparr>Ptr_Comp := Next_Ptr_Glob s\<rparr>) s;
     s \<leftarrow> put_rec (Ptr_Glob s) (\<lambda>r. r\<lparr>Discr := Ident_1\<rparr>) s;
     s \<leftarrow> put_rec (Ptr_Glob s) (\<lambda>r. r\<lparr>Enum_Comp := Ident_3\<rparr>) s;
     s \<leftarrow> put_rec (Ptr_Glob s) (\<lambda>r. r\<lparr>Int_Comp := 40\<rparr>) s;
     g \<leftarrow> recs s (Ptr_Glob s);
     str \<leftarrow> strcpy (Str_Comp g) ''DHRYSTONE PROGRAM, SOME STRING'';
     s \<leftarrow> put_rec (Ptr_Glob s) (\<lambda>r. r\<lparr>Str_Comp := str\<rparr>) s;
     str \<leftarrow> strcpy (Str_1_Loc l) ''DHRYSTONE PROGRAM, 1'ST STRING'';
     let l = l\<lparr>Str_1_Loc := str\<rparr>;
     a2 \<leftarrow> wr2 (Arr_2_Glob s) 8 7 10;
     Some (l, s\<lparr>Arr_2_Glob := a2\<rparr>, b) })"

section \<open>The report\<close>

text \<open>The string a byte array holds, up to its NUL; without one the printer reads on.\<close>

definition c_string :: "u8 list \<Rightarrow> string option" where
  "c_string bs = (if 0 \<in> set bs then Some (map (\<lambda>b. char_of (unat b)) (takeWhile (\<lambda>b. b \<noteq> 0) bs)) else None)"

text \<open>The calls of \<open>printf\<close> with the final values, in order.\<close>

definition should_be :: "string \<Rightarrow> vararg list \<Rightarrow> string \<times> vararg list" where
  "should_be fmt args = (''        should be:   '' @ fmt @ [CHR 0x0A], args)"

definition value_line :: "string \<Rightarrow> string \<Rightarrow> vararg list \<Rightarrow> string \<times> vararg list" where
  "value_line name fmt args = (name @ fmt @ [CHR 0x0A], args)"

definition rec_report :: "rec_type \<Rightarrow> string \<Rightarrow> u32 \<Rightarrow> u32 \<Rightarrow> (string \<times> vararg list) list option" where
  "rec_report r same ev iv = do {
     str \<leftarrow> c_string (Str_Comp r);
     Some [value_line ''  Ptr_Comp:          '' ''%d'' [VInt (Ptr_Comp r)],
       should_be (''(implementation-dependent)'' @ same) [],
       value_line ''  Discr:             '' ''%d'' [VInt (Discr r)], should_be ''%d'' [VInt 0],
       value_line ''  Enum_Comp:         '' ''%d'' [VInt (Enum_Comp r)], should_be ''%d'' [VInt ev],
       value_line ''  Int_Comp:          '' ''%d'' [VInt (Int_Comp r)], should_be ''%d'' [VInt iv],
       value_line ''  Str_Comp:          '' ''%s'' [VStr (Some str)],
       should_be ''DHRYSTONE PROGRAM, SOME STRING'' []] }"

definition dhry_report :: "dhry_locals \<Rightarrow> dhry \<Rightarrow> (string \<times> vararg list) list option" where
  "dhry_report l s = do {
     a1 \<leftarrow> rd (Arr_1_Glob s) 8;
     row \<leftarrow> rd (Arr_2_Glob s) 8;
     a2 \<leftarrow> rd row 7;
     g \<leftarrow> recs s (Ptr_Glob s);
     n \<leftarrow> recs s (Next_Ptr_Glob s);
     rg \<leftarrow> rec_report g '''' 2 17;
     rn \<leftarrow> rec_report n '', same as above'' 1 18;
     str1 \<leftarrow> c_string (Str_1_Loc l);
     str2 \<leftarrow> c_string (Str_2_Loc l);
     Some ([value_line ''Int_Glob:            '' ''%d'' [VInt (Int_Glob s)], should_be ''%d'' [VInt 5],
         value_line ''Bool_Glob:           '' ''%d'' [VInt (Bool_Glob s)], should_be ''%d'' [VInt 1],
         value_line ''Ch_1_Glob:           '' ''%c'' [VInt (ucast (Ch_1_Glob s))], should_be ''%c'' [VInt (of_char CHR ''A'')],
         value_line ''Ch_2_Glob:           '' ''%c'' [VInt (ucast (Ch_2_Glob s))], should_be ''%c'' [VInt (of_char CHR ''B'')],
         value_line ''Arr_1_Glob[8]:       '' ''%d'' [VInt a1], should_be ''%d'' [VInt 7],
         value_line ''Arr_2_Glob[8][7]:    '' ''%d'' [VInt a2], should_be ''Number_Of_Runs + 10'' [],
         (''Ptr_Glob->'' @ [CHR 0x0A], [])] @ rg @ [(''Next_Ptr_Glob->'' @ [CHR 0x0A], [])] @ rn @
       [value_line ''Int_1_Loc:           '' ''%d'' [VInt (Int_1_Loc l)], should_be ''%d'' [VInt 5],
         value_line ''Int_2_Loc:           '' ''%d'' [VInt (Int_2_Loc l)], should_be ''%d'' [VInt 13],
         value_line ''Int_3_Loc:           '' ''%d'' [VInt (Int_3_Loc l)], should_be ''%d'' [VInt 7],
         value_line ''Enum_Loc:            '' ''%d'' [VInt (Enum_Loc l)], should_be ''%d'' [VInt 1],
         value_line ''Str_1_Loc:           '' ''%s'' [VStr (Some str1)], should_be ''DHRYSTONE PROGRAM, 1'ST STRING'' [],
         value_line ''Str_2_Loc:           '' ''%s'' [VStr (Some str2)], should_be ''DHRYSTONE PROGRAM, 2'ND STRING'' []]) }"

definition banner :: "u32 \<Rightarrow> (string \<times> vararg list) list" where
  "banner Number_Of_Runs = map (\<lambda>(t, args). (t @ [CHR 0x0A], args))
     [('''', []), (''Dhrystone Benchmark, Version 2.1 (Language: C)'', []), ('''', []),
      (''Program compiled without 'register' attribute'', []), ('''', []),
      (''Execution starts, %d runs through Dhrystone'', [VInt Number_Of_Runs])]"

text \<open>
  The cycle, instruction and time counters are read before and after the loop; single-precision
  arithmetic is the compiler's library, whose three results are parameters.
\<close>

record counters =
  User_Cycle :: s32
  User_Instret :: s32
  User_Time :: s32

record dhry_float =
  microseconds :: "s32 \<Rightarrow> u32 \<Rightarrow> u64"
  dhrystones_per_second :: "s32 \<Rightarrow> u32 \<Rightarrow> u64"
  dmips_mhz :: "s32 \<Rightarrow> u32 \<Rightarrow> u64"

definition timing_report :: "dhry_float \<Rightarrow> counters \<Rightarrow> u32 \<Rightarrow> s32 \<Rightarrow> (string \<times> vararg list) list" where
  "timing_report fl c Number_Of_Runs Instret =
     (let nl = [CHR 0x0A] in
      [(''Microseconds for one run through Dhrystone: '', []),
       (''%6.1f '' @ nl, [VDouble (microseconds fl (User_Time c) Number_Of_Runs)]),
       (''Dhrystones per Second:                      '', []),
       (''%6.1f '' @ nl, [VDouble (dhrystones_per_second fl (User_Time c) Number_Of_Runs)]),
       (nl, []), (nl, []),
       ('' (*) User_Cycle for total run through Dhrystone with loops %d: '', [VInt Number_Of_Runs]),
       (''%d '' @ nl, [VInt (User_Cycle c)]), (nl, []),
       ('' (*) Instret for one run through Dhrystone: '', []),
       (''%d '' @ nl, [VInt Instret]), (nl, []),
       ('' (*) The DMIPS/MHz can be calculated by: '' @ nl, []),
       (''       1000000/(User_Cycle/Number_Of_Runs)/1757 = %2.6f DMIPS/MHz'' @ nl,
        [VDouble (dmips_mhz fl (User_Cycle c) Number_Of_Runs)]), (nl, [])])"

text \<open>
  The whole program: the timer is started, the data are set up, the loop runs 100 times, the timer is
  stopped, and the results are printed. The writes to the counter-inhibit register are not modelled.
\<close>

definition dhry_main :: "fp_ops \<Rightarrow> dhry_float \<Rightarrow> counters \<Rightarrow> rec_type \<Rightarrow> rec_type
    \<Rightarrow> dhry_locals \<times> dhry \<times> brk_state \<Rightarrow> soc \<Rightarrow> (dhry_locals \<times> dhry \<times> brk_state \<times> soc) option" where
  "dhry_main fp fl c junk1 junk2 st m = do {
     let Number_Of_Runs = 100;
     m \<leftarrow> st_slc Tmr_cfg 0x1 m;
     (l, s, b) \<leftarrow> dhry_setup junk1 junk2 st;
     m \<leftarrow> run_prints fp (banner Number_Of_Runs) m;
     (l, s) \<leftarrow> dhry_loop (unat Number_Of_Runs) (l, s);
     m \<leftarrow> st_slc Tmr_cfg 0x0 m;
     m \<leftarrow> run_prints fp [(''Execution ends'' @ [CHR 0x0A], []), ([CHR 0x0A], []),
        (''Final values of the variables used in the benchmark:'' @ [CHR 0x0A], []), ([CHR 0x0A], [])] m;
     report \<leftarrow> dhry_report l s;
     m \<leftarrow> run_prints fp (report @ [([CHR 0x0A], [])]) m;
     Instret \<leftarrow> sdiv32 (User_Instret c) Number_Of_Runs;
     m \<leftarrow> run_prints fp (timing_report fl c Number_Of_Runs Instret) m;
     Some (l, s, b, m) }"

end
