(* ===== verification/Dhrystone_Correct.thy ===== *)
theory Dhrystone_Correct
  imports Dhrystone
begin

text \<open>
  The Dhrystone program ends with the values its own report says it should have: one round of the
  measured loop, step by step, and the induction over the number of runs.
\<close>

section \<open>Strings\<close>

definition str_of :: "string \<Rightarrow> str_30" where
  "str_of t = bytes_of t @ [0]"

lemma strcpy_full: "Suc (length t) = length dst \<Longrightarrow> strcpy dst t = Some (str_of t)"
  by (simp add: strcpy_def str_of_def)

abbreviation str_some :: str_30 where "str_some \<equiv> str_of ''DHRYSTONE PROGRAM, SOME STRING''"
abbreviation str_first :: str_30 where "str_first \<equiv> str_of ''DHRYSTONE PROGRAM, 1'ST STRING''"
abbreviation str_second :: str_30 where "str_second \<equiv> str_of ''DHRYSTONE PROGRAM, 2'ND STRING''"

lemma Func_2_strings: "Func_2 str_first str_second s = Some (0, s)"
proof -
  have "rd str_first 2 = Some (chr_of CHR ''R'')" "rd str_second 3 = Some (chr_of CHR ''Y'')"
    by (simp_all add: str_of_def bytes_of_def chr_of_def rd_def)
  moreover have "chr_of CHR ''R'' \<noteq> chr_of CHR ''Y''" by (simp add: chr_of_def)
  ultimately have f: "func_2_loop str_first str_second 2 None s = Some (3, Some (chr_of CHR ''A''), s)"
    by (subst func_2_loop.simps) (simp add: Func_1_def func_2_loop.simps [of _ _ 3])
  have "strcmp str_first str_second = Some (- 1)"
    by (simp add: str_of_def bytes_of_def)
  with f show ?thesis by (simp add: Func_2_def chr_of_def)
qed

section \<open>One round\<close>

lemma int_loop_round: "int_loop 2 3 i3 = Some (3, 7)"
  by (simp add: int_loop.simps [of 2] int_loop.simps [of 3] Proc_7_def Let_def)

lemma ch_loop_round:
  assumes "Ch_2_Glob s = chr_of CHR ''B''" and "Enum_Loc l = Ident_2"
  shows "ch_loop r (chr_of CHR ''A'') l s = Some (l, s)"
proof -
  have A: "chr_of CHR ''A'' = 65" "chr_of CHR ''B'' = 66" "chr_of CHR ''C'' = 67"
    by (simp_all add: chr_of_def)
  show ?thesis using assms unfolding A
    by (simp add: ch_loop.simps [of _ 65] ch_loop.simps [of _ 66] ch_loop.simps [of _ 67] Func_1_def A Ident_defs)
qed

text \<open>Arrays of 50 rows of 50 elements.\<close>

definition square_50 :: "s32 list list \<Rightarrow> bool" where
  "square_50 a \<longleftrightarrow> length a = 50 \<and> (\<forall>i < 50. length (a ! i) = 50)"

lemma wr2_stores:
  assumes "square_50 a" and "i < 50" and "j < 50"
  shows "\<exists>a'. wr2 a i j v = Some a' \<and> square_50 a' \<and> a' ! i ! j = v
    \<and> (\<forall>i' < 50. \<forall>j' < 50. (i', j') \<noteq> (i, j) \<longrightarrow> a' ! i' ! j' = a ! i' ! j')"
  using assms by (simp add: wr2_def square_50_def nth_list_update)

lemma Proc_8_round:
  assumes "length (Arr_1_Glob s) = 50" and "square_50 (Arr_2_Glob s)"
  shows "\<exists>a1 a2. Proc_8 3 7 s = Some (s\<lparr>Arr_1_Glob := a1, Arr_2_Glob := a2, Int_Glob := 5\<rparr>)
    \<and> length a1 = 50 \<and> square_50 a2 \<and> a1 ! 8 = 7 \<and> a2 ! 8 ! 7 = Arr_2_Glob s ! 8 ! 7 + 1"
proof -
  obtain b1 where 1: "wr2 (Arr_2_Glob s) 8 8 8 = Some b1" "square_50 b1"
    "\<forall>i' < 50. \<forall>j' < 50. (i', j') \<noteq> (8, 8) \<longrightarrow> b1 ! i' ! j' = Arr_2_Glob s ! i' ! j'"
    using wr2_stores [OF assms(2), of 8 8 8] by auto
  obtain b2 where 2: "wr2 b1 8 9 8 = Some b2" "square_50 b2"
    "\<forall>i' < 50. \<forall>j' < 50. (i', j') \<noteq> (8, 9) \<longrightarrow> b2 ! i' ! j' = b1 ! i' ! j'"
    using wr2_stores [OF 1(2), of 8 9 8] by auto
  obtain b3 where 3: "wr2 b2 8 7 (b2 ! 8 ! 7 + 1) = Some b3" "square_50 b3" "b3 ! 8 ! 7 = b2 ! 8 ! 7 + 1"
    using wr2_stores [OF 2(2), of 8 7 "b2 ! 8 ! 7 + 1"] by auto
  obtain b4 where 4: "wr2 b3 28 8 7 = Some b4" "square_50 b4"
    "\<forall>i' < 50. \<forall>j' < 50. (i', j') \<noteq> (28, 8) \<longrightarrow> b4 ! i' ! j' = b3 ! i' ! j'"
    using wr2_stores [OF 3(2), of 28 8 7] by auto
  have loop: "for_loop 2 (\<lambda>k a2. wr2 a2 8 (8 + k) 8) (Arr_2_Glob s) = Some b2"
    using 1(1) 2(1) by (simp add: numeral_2_eq_2)
  have rows: "rd b2 8 = Some (b2 ! 8)" "rd (b2 ! 8) 7 = Some (b2 ! 8 ! 7)"
    using 2(2) by (simp_all add: square_50_def)
  let ?a1 = "(Arr_1_Glob s)[8 := 7, 9 := 7, 38 := 8]"
  have "Proc_8 3 7 s = Some (s\<lparr>Arr_1_Glob := ?a1, Arr_2_Glob := b4, Int_Glob := 5\<rparr>)"
    using assms(1) loop rows 3(1) 4(1) by (simp add: Proc_8_def Let_def)
  moreover have "b4 ! 8 ! 7 = Arr_2_Glob s ! 8 ! 7 + 1" using 1(3) 2(3) 3(3) 4(3) by simp
  moreover have "length ?a1 = 50" "?a1 ! 8 = 7" using assms(1) by simp_all
  ultimately show ?thesis using 4(2) by blast
qed

text \<open>The two records: \<open>p\<close> is the global pointer's, \<open>q\<close> the next one.\<close>

lemma Proc_1_round:
  assumes "Ptr_Glob s = p" and "p \<noteq> 0" and "p \<noteq> q" and "Int_Glob s = 5"
    and "recs s p = Some \<lparr>Ptr_Comp = q, Discr = Ident_1, Enum_Comp = Ident_3, Int_Comp = i, Str_Comp = t\<rparr>"
    and "recs s q = Some r"
  shows "Proc_1 p s = Some (s\<lparr>recs := (recs s)
    (p \<mapsto> \<lparr>Ptr_Comp = q, Discr = Ident_1, Enum_Comp = Ident_3, Int_Comp = 17, Str_Comp = t\<rparr>,
     q \<mapsto> \<lparr>Ptr_Comp = q, Discr = Ident_1, Enum_Comp = Ident_2, Int_Comp = 18, Str_Comp = t\<rparr>)\<rparr>)"
proof -
  have "Proc_6 Ident_3 s' = Ident_2" for s' by (simp add: Proc_6_def Ident_defs)
  then show ?thesis
    using assms by (simp add: Proc_1_def Proc_3_def put_rec_def Proc_7_def Let_def fun_upd_twist)
qed

section \<open>The loop\<close>

text \<open>What holds before every round, after \<open>n\<close> rounds, and what every round establishes.\<close>

definition round_ready :: "u32 \<Rightarrow> u32 \<Rightarrow> nat \<Rightarrow> dhry_locals \<times> dhry \<Rightarrow> bool" where
  "round_ready p q n = (\<lambda>(l, s). Ptr_Glob s = p \<and> Next_Ptr_Glob s = q \<and> p \<noteq> 0 \<and> p \<noteq> q
     \<and> (\<exists>i. recs s p = Some \<lparr>Ptr_Comp = q, Discr = Ident_1, Enum_Comp = Ident_3, Int_Comp = i, Str_Comp = str_some\<rparr>)
     \<and> recs s q \<noteq> None \<and> length (Arr_1_Glob s) = 50 \<and> square_50 (Arr_2_Glob s)
     \<and> Arr_2_Glob s ! 8 ! 7 = of_nat (n + 10) \<and> Str_1_Loc l = str_first \<and> length (Str_2_Loc l) = 31)"

definition final_values :: "u32 \<Rightarrow> u32 \<Rightarrow> nat \<Rightarrow> dhry_locals \<times> dhry \<Rightarrow> bool" where
  "final_values p q n = (\<lambda>(l, s). Ptr_Glob s = p \<and> Next_Ptr_Glob s = q
     \<and> Int_Glob s = 5 \<and> Bool_Glob s = 1 \<and> Ch_1_Glob s = chr_of CHR ''A'' \<and> Ch_2_Glob s = chr_of CHR ''B''
     \<and> length (Arr_1_Glob s) = 50 \<and> square_50 (Arr_2_Glob s)
     \<and> Arr_1_Glob s ! 8 = 7 \<and> Arr_2_Glob s ! 8 ! 7 = of_nat (n + 10)
     \<and> recs s p = Some \<lparr>Ptr_Comp = q, Discr = 0, Enum_Comp = 2, Int_Comp = 17, Str_Comp = str_some\<rparr>
     \<and> recs s q = Some \<lparr>Ptr_Comp = q, Discr = 0, Enum_Comp = 1, Int_Comp = 18, Str_Comp = str_some\<rparr>
     \<and> Int_1_Loc l = 5 \<and> Int_2_Loc l = 13 \<and> Int_3_Loc l = 7 \<and> Enum_Loc l = 1
     \<and> Str_1_Loc l = str_first \<and> Str_2_Loc l = str_second)"

lemma dhry_run_round:
  assumes "round_ready p q n (l, s)"
  shows "\<exists>l' s'. dhry_run r (l, s) = Some (l', s') \<and> round_ready p q (Suc n) (l', s')
    \<and> final_values p q (Suc n) (l', s')"
proof -
  obtain i where pre: "Ptr_Glob s = p" "Next_Ptr_Glob s = q" "p \<noteq> 0" "p \<noteq> q"
    "recs s p = Some \<lparr>Ptr_Comp = q, Discr = Ident_1, Enum_Comp = Ident_3, Int_Comp = i, Str_Comp = str_some\<rparr>"
    "recs s q \<noteq> None" "length (Arr_1_Glob s) = 50" "square_50 (Arr_2_Glob s)"
    "Arr_2_Glob s ! 8 ! 7 = of_nat (n + 10)" "Str_1_Loc l = str_first" "length (Str_2_Loc l) = 31"
    using assms by (auto simp: round_ready_def)
  obtain rq where rq: "recs s q = Some rq" using pre(6) by blast
  let ?s0 = "Proc_4 (Proc_5 s)\<lparr>Bool_Glob := 1\<rparr>"
  have s0: "Ptr_Glob ?s0 = p" "Next_Ptr_Glob ?s0 = q" "recs ?s0 = recs s" "Arr_1_Glob ?s0 = Arr_1_Glob s"
    "Arr_2_Glob ?s0 = Arr_2_Glob s" "Ch_1_Glob ?s0 = chr_of CHR ''A''" "Ch_2_Glob ?s0 = chr_of CHR ''B''"
    "Bool_Glob ?s0 = 1"
    using pre(1,2) by (simp_all add: Proc_4_def Proc_5_def Let_def)
  obtain a1 a2 where 8: "Proc_8 3 7 ?s0 = Some (?s0\<lparr>Arr_1_Glob := a1, Arr_2_Glob := a2, Int_Glob := 5\<rparr>)"
    "length a1 = 50" "square_50 a2" "a1 ! 8 = 7" "a2 ! 8 ! 7 = of_nat (n + 10) + 1"
    using Proc_8_round [of ?s0] pre(7,8,9) unfolding s0 by auto
  let ?s1 = "?s0\<lparr>Arr_1_Glob := a1, Arr_2_Glob := a2, Int_Glob := 5\<rparr>"
  let ?s2 = "?s1\<lparr>recs := (recs s)
    (p \<mapsto> \<lparr>Ptr_Comp = q, Discr = Ident_1, Enum_Comp = Ident_3, Int_Comp = 17, Str_Comp = str_some\<rparr>,
     q \<mapsto> \<lparr>Ptr_Comp = q, Discr = Ident_1, Enum_Comp = Ident_2, Int_Comp = 18, Str_Comp = str_some\<rparr>)\<rparr>"
  have 1: "Proc_1 (Ptr_Glob ?s1) ?s1 = Some ?s2"
    using Proc_1_round [of ?s1 p q i str_some rq] pre(3,4,5) rq s0 by simp
  have str: "strcpy (Str_2_Loc l') ''DHRYSTONE PROGRAM, 2'ND STRING'' = Some str_second"
    if "Str_2_Loc l' = Str_2_Loc l" for l' :: dhry_locals
    using pre(11) that by (intro strcpy_full) simp
  let ?l = "l\<lparr>Int_2_Loc := 3, Str_2_Loc := str_second, Enum_Loc := Ident_2, Int_1_Loc := 3, Int_3_Loc := 7\<rparr>"
  have ch: "ch_loop r (chr_of CHR ''A'') ?l ?s2 = Some (?l, ?s2)"
    by (rule ch_loop_round) (use s0 in simp_all)
  have "sdiv32 9 7 = Some 1" by (simp add: sdiv32_def)
  moreover have "Proc_2 1 ?s2 = Some 5" using s0 by (simp add: Proc_2_def)
  ultimately have "dhry_run r (l, s) = Some (?l\<lparr>Int_2_Loc := 13, Int_1_Loc := 5\<rparr>, ?s2)"
    using str [of "l\<lparr>Int_1_Loc := 2, Int_2_Loc := 3\<rparr>"] pre(10) 8(1) 1 ch
    by (simp add: dhry_run_def Let_def Func_2_strings int_loop_round)
  moreover have "round_ready p q (Suc n) (?l\<lparr>Int_2_Loc := 13, Int_1_Loc := 5\<rparr>, ?s2)"
    "final_values p q (Suc n) (?l\<lparr>Int_2_Loc := 13, Int_1_Loc := 5\<rparr>, ?s2)"
    using pre s0 8 by (simp_all add: round_ready_def final_values_def Ident_defs str_of_def bytes_of_def)
  ultimately show ?thesis by blast
qed

lemma dhry_loop_final:
  assumes "round_ready p q 0 st" and "0 < n"
  shows "\<exists>st'. dhry_loop n st = Some st' \<and> final_values p q n st'"
proof -
  have "\<exists>st'. dhry_loop n st = Some st' \<and> round_ready p q n st' \<and> (0 < n \<longrightarrow> final_values p q n st')"
    unfolding dhry_loop_def
  proof (rule for_loop_invariant [of "\<lambda>n st. round_ready p q n st \<and> (0 < n \<longrightarrow> final_values p q n st)"])
    fix i st assume "round_ready p q i st \<and> (0 < i \<longrightarrow> final_values p q i st)"
    then show "\<exists>s'. dhry_run (of_nat (Suc i)) st = Some s' \<and> round_ready p q (Suc i) s'
        \<and> (0 < Suc i \<longrightarrow> final_values p q (Suc i) s')"
      using dhry_run_round [of p q i "fst st" "snd st"] by (cases st) auto
  qed (use assms in simp)
  with assms(2) show ?thesis by blast
qed

section \<open>Set-up and report\<close>

lemma new_rec_room:
  assumes "brk_ok b" and "unat (curbrk b) + 48 \<le> unat (heap_end b)"
  shows "new_rec junk (s, b) = (curbrk b, s\<lparr>recs := (recs s)(curbrk b \<mapsto> junk)\<rparr>, b\<lparr>curbrk := curbrk b + 48\<rparr>)"
    and "curbrk b \<noteq> 0"
proof -
  show "curbrk b \<noteq> 0" using assms(1) by (auto simp: brk_ok_def)
  then show "new_rec junk (s, b) = (curbrk b, s\<lparr>recs := (recs s)(curbrk b \<mapsto> junk)\<rparr>, b\<lparr>curbrk := curbrk b + 48\<rparr>)"
    using malloc_cases [OF assms(1), of rec_size] assms(2) by (simp add: new_rec_def rec_size_def)
qed

lemma setup_steps:
  assumes "new_rec junk1 (s, b) = (q, s\<lparr>recs := (recs s)(q \<mapsto> junk1)\<rparr>, b1)"
    and "\<And>s. new_rec junk2 (s, b1) = (p, s\<lparr>recs := (recs s)(p \<mapsto> junk2)\<rparr>, b2)"
    and "p \<noteq> 0" and "p \<noteq> q"
    and "strcpy (Str_Comp junk2) ''DHRYSTONE PROGRAM, SOME STRING'' = Some str_some
      \<and> strcpy (Str_1_Loc l) ''DHRYSTONE PROGRAM, 1'ST STRING'' = Some str_first"
    and "wr2 (Arr_2_Glob s) 8 7 10 = Some a2"
    and "square_50 a2 \<and> a2 ! 8 ! 7 = 10 \<and> length (Str_2_Loc l) = 31 \<and> length (Arr_1_Glob s) = 50"
  shows "\<exists>l' s' b'. dhry_setup junk1 junk2 (l, s, b) = Some (l', s', b') \<and> round_ready p q 0 (l', s')"
  using assms by (cases junk2) (simp add: dhry_setup_def put_rec_def Let_def round_ready_def)

lemma dhry_setup_ready:
  assumes "brk_ok b" and "unat (curbrk b) + 96 \<le> unat (heap_end b)"
    and "length (Str_Comp junk2) = 31" and "length (Str_1_Loc l) = 31" and "length (Str_2_Loc l) = 31"
    and "length (Arr_1_Glob s) = 50" and "square_50 (Arr_2_Glob s)"
  shows "\<exists>l' s' b'. dhry_setup junk1 junk2 (l, s, b) = Some (l', s', b')
    \<and> round_ready (curbrk b + 48) (curbrk b) 0 (l', s')"
proof -
  let ?q = "curbrk b" and ?p = "curbrk b + 48" and ?b = "b\<lparr>curbrk := curbrk b + 48\<rparr>"
  have m: "malloc 48 b = (?q, ?b)" using malloc_cases [OF assms(1), of 48] assms(2) by simp
  have q: "?q \<noteq> 0" using assms(1) by (auto simp: brk_ok_def)
  have "brk_ok (snd (malloc 48 b))" by (rule malloc_ok(1) [OF assms(1)]) simp
  then have b: "brk_ok ?b" unfolding m by (simp only: snd_conv)
  have "unat (curbrk (snd (malloc 48 b))) = unat ?q + unat (48 :: u32)"
    using malloc_ok(3) [OF assms(1), of 48] q by (simp only: m fst_conv) simp
  then have u: "unat ?p = unat ?q + 48" unfolding m by simp
  have n1: "new_rec junk1 (s, b) = (?q, s\<lparr>recs := (recs s)(?q \<mapsto> junk1)\<rparr>, ?b)"
    using assms(1,2) by (intro new_rec_room) simp_all
  have room: "unat (curbrk ?b) + 48 \<le> unat (heap_end ?b)" using u assms(2) by simp
  note r2 = new_rec_room(1) [OF b room]
  have c: "curbrk ?b = ?p" "?b\<lparr>curbrk := x\<rparr> = b\<lparr>curbrk := x\<rparr>" for x by simp_all
  have n2: "new_rec junk2 (s', ?b) = (?p, s'\<lparr>recs := (recs s')(?p \<mapsto> junk2)\<rparr>, b\<lparr>curbrk := ?p + 48\<rparr>)" for s'
    using r2 [of junk2 s'] unfolding c .
  have p: "?p \<noteq> 0" using new_rec_room(2) [OF b room] unfolding c .
  have "?p \<noteq> ?q" using u by auto
  obtain a2 where w: "wr2 (Arr_2_Glob s) 8 7 10 = Some a2" "square_50 a2" "a2 ! 8 ! 7 = 10"
    using wr2_stores [OF assms(7), of 8 7 10] by auto
  have "strcpy (Str_Comp junk2) ''DHRYSTONE PROGRAM, SOME STRING'' = Some str_some
      \<and> strcpy (Str_1_Loc l) ''DHRYSTONE PROGRAM, 1'ST STRING'' = Some str_first"
    using assms(3,4) by (simp add: strcpy_full)
  then show ?thesis
    using setup_steps [OF n1 n2 p \<open>?p \<noteq> ?q\<close> _ w(1)] w assms(5,6) by blast
qed

lemma unat_of_char: "unat (of_char c :: u8) = of_char c"
proof (cases c)
  case (Char b0 b1 b2 b3 b4 b5 b6 b7)
  then show ?thesis
    by (cases b0; cases b1; cases b2; cases b3; cases b4; cases b5; cases b6; cases b7)
      (simp_all add: of_char_def)
qed

lemma c_string_str_of: "\<forall>c \<in> set t. of_char c \<noteq> (0 :: u8) \<Longrightarrow> c_string (str_of t) = Some t"
proof -
  assume t: "\<forall>c \<in> set t. of_char c \<noteq> (0 :: u8)"
  then have "takeWhile (\<lambda>b. b \<noteq> 0) (bytes_of t @ [0]) = bytes_of t"
    by (subst takeWhile_append2) (auto simp: bytes_of_def)
  moreover have "map (\<lambda>b. char_of (unat b)) (bytes_of t) = t"
    by (simp add: bytes_of_def o_def unat_of_char)
  ultimately show ?thesis by (simp add: c_string_def str_of_def)
qed

lemma c_strings [simp]: "c_string str_some = Some ''DHRYSTONE PROGRAM, SOME STRING''"
  "c_string str_first = Some ''DHRYSTONE PROGRAM, 1'ST STRING''"
  "c_string str_second = Some ''DHRYSTONE PROGRAM, 2'ND STRING''"
  by (simp_all add: c_string_str_of)

text \<open>Every line that states an expected value follows a line that prints the same value.\<close>

fun checks_agree :: "(string \<times> vararg list) list \<Rightarrow> bool" where
  "checks_agree ((f, a) # (g, b) # calls) \<longleftrightarrow>
     (take 18 g = ''        should be:'' \<and> b \<noteq> [] \<longrightarrow> a = b) \<and> checks_agree ((g, b) # calls)"
| "checks_agree _ \<longleftrightarrow> True"

lemma final_report:
  assumes "final_values p q n (l, s)"
  shows "\<exists>rep. dhry_report l s = Some rep \<and> checks_agree rep"
proof -
  have "(of_char CHR ''A'' :: u32) = ucast (chr_of CHR ''A'')" "(of_char CHR ''B'' :: u32) = ucast (chr_of CHR ''B'')"
    by (simp_all add: chr_of_def)
  with assms show ?thesis
    by (simp add: dhry_report_def rec_report_def final_values_def square_50_def value_line_def should_be_def)
qed

section \<open>Properties\<close>

text \<open> C19: With room for the two records on the heap, the set-up and every positive number of runs of
  the measured loop return, and the final values are those the report announces: the integers, the
  Boolean, the characters, both arrays' elements (the counter is the number of runs plus 10), the two
  records with their links and strings, and the local variables; the report prints each expected value
  behind an equal one. \<close>

theorem dhrystone_final_values:
  assumes "brk_ok b" and "unat (curbrk b) + 96 \<le> unat (heap_end b)"
    and "length (Str_Comp junk2) = 31" and "length (Str_1_Loc l) = 31" and "length (Str_2_Loc l) = 31"
    and "length (Arr_1_Glob s) = 50" and "square_50 (Arr_2_Glob s)" and "0 < runs"
  shows "\<exists>l1 s1 b1 l2 s2 rep. dhry_setup junk1 junk2 (l, s, b) = Some (l1, s1, b1)
    \<and> dhry_loop runs (l1, s1) = Some (l2, s2)
    \<and> final_values (curbrk b + 48) (curbrk b) runs (l2, s2)
    \<and> dhry_report l2 s2 = Some rep \<and> checks_agree rep"
proof -
  obtain l1 s1 b1 where 1: "dhry_setup junk1 junk2 (l, s, b) = Some (l1, s1, b1)"
    "round_ready (curbrk b + 48) (curbrk b) 0 (l1, s1)"
    using dhry_setup_ready [OF assms(1-7)] by blast
  obtain l2 s2 where 2: "dhry_loop runs (l1, s1) = Some (l2, s2)"
    "final_values (curbrk b + 48) (curbrk b) runs (l2, s2)"
    using dhry_loop_final [OF 1(2) assms(8)] by fastforce
  from final_report [OF 2(2)] 1(1) 2 show ?thesis by blast
qed

definition blank_locals :: dhry_locals where
  "blank_locals = \<lparr>Int_1_Loc = 0, Int_2_Loc = 0, Int_3_Loc = 0, Enum_Loc = 0,
     Str_1_Loc = replicate 31 0, Str_2_Loc = replicate 31 0\<rparr>"

definition blank_globals :: dhry where
  "blank_globals = \<lparr>Ptr_Glob = 0, Next_Ptr_Glob = 0, Int_Glob = 0, Bool_Glob = 0, Ch_1_Glob = 0, Ch_2_Glob = 0,
     Arr_1_Glob = replicate 50 0, Arr_2_Glob = replicate 50 (replicate 50 0), recs = Map.empty\<rparr>"

definition blank_rec :: rec_type where
  "blank_rec = \<lparr>Ptr_Comp = 0, Discr = 0, Enum_Comp = 0, Int_Comp = 0, Str_Comp = replicate 31 0\<rparr>"

lemma dhrystone_final_values_witness:
  "\<exists>l1 s1 b1 l2 s2 rep. dhry_setup blank_rec blank_rec (blank_locals, blank_globals,
      \<lparr>heap_start = 0x80010000, heap_end = 0x80020000, curbrk = 0x80010000\<rparr>) = Some (l1, s1, b1)
    \<and> dhry_loop 100 (l1, s1) = Some (l2, s2)
    \<and> final_values (0x80010000 + 48) 0x80010000 100 (l2, s2)
    \<and> dhry_report l2 s2 = Some rep \<and> checks_agree rep"
  using dhrystone_final_values [of "\<lparr>heap_start = 0x80010000, heap_end = 0x80020000, curbrk = 0x80010000\<rparr>"
      blank_rec blank_locals blank_globals 100 blank_rec]
  by (simp add: brk_ok_def blank_rec_def blank_locals_def blank_globals_def square_50_def)

end
