(* ===== verification/Register_Map.thy ===== *)
theory Register_Map
  imports Uv_Sys
begin

text \<open>
  The rest of \<open>software/driver/include/uv_sys.h\<close>. The header describes every controller twice, by a
  structure of registers at a base address and by one macro per register, and the fields of the
  configuration registers by a mask and an offset. The tables below are the macros; the lemmas compare
  them with the structures, with the decoding of the device blocks and with each other.
\<close>

section \<open>Controllers without driver code\<close>

datatype gpio_sel = Pull_up | Pull_down | In_value | In_enable | Out_value | Out_enable | Gpio_pend | Gpio_enable

definition gpio_type :: "gpio_sel list" where
  "gpio_type = [Pull_up, Pull_down, In_value, In_enable, Out_value, Out_enable, Gpio_pend, Gpio_enable]"

datatype i2c_sel = I_glb_cfg | I_nframes | I_start | I_busy | I_ser ser_sel

definition i2c_type :: "i2c_sel list" where
  "i2c_type = [I_glb_cfg, I_nframes, I_start, I_busy, I_ser Txq_cap, I_ser Txq_len, I_ser Txq_clr,
     I_ser Txq_dat, I_ser Rxq_cap, I_ser Rxq_len, I_ser Rxq_clr, I_ser Rxq_dat, I_ser Irq_en,
     I_ser Irq_pend, I_ser Tx_irq_th, I_ser Rx_irq_th]"

text \<open>The general timer and the watchdog share a structure.\<close>

datatype tmr_sel = T_cfg | T_val | T_cmp | T_clr

definition tmr_type :: "tmr_sel list" where
  "tmr_type = [T_cfg, T_val, T_cmp, T_clr]"

definition REG_GPIO_BASE :: u32 where "REG_GPIO_BASE = 0x70000000"
definition REG_I2C_BASE :: u32 where "REG_I2C_BASE = 0x70002000"
definition REG_TMR_BASE :: u32 where "REG_TMR_BASE = 0x70005000"
definition REG_WDT_BASE :: u32 where "REG_WDT_BASE = 0x70006000"
definition REG_DBG_BASE :: u32 where "REG_DBG_BASE = 0x70007000"

section \<open>The register macros\<close>

definition slc_macros :: "(slc_sel \<times> u32) list" where
  "slc_macros = [
    (Rst_vec, 0x08000000), (Sft_irq, 0x08000004), (Tmr_cfg, 0x08000008), (Tmr_val, 0x0800000C),
    (Tmr_valh, 0x08000010), (Tmr_cmp, 0x08000014), (Tmr_cmph, 0x08000018), (Slc_rst, 0x0800001C),
    (Dev_rst, 0x08000020), (Sys_icg, 0x08000024), (Scratch, 0x08000028), (Gpio_mode, 0x0800002C)]"

definition gpio_macros :: "(gpio_sel \<times> u32) list" where
  "gpio_macros = [
    (Pull_up, 0x70000000), (Pull_down, 0x70000004), (In_value, 0x70000008), (In_enable, 0x7000000C),
    (Out_value, 0x70000010), (Out_enable, 0x70000014), (Gpio_pend, 0x70000018),
    (Gpio_enable, 0x7000001C)]"

definition uart_macros :: "(uart_sel \<times> u32) list" where
  "uart_macros = [
    (U_glb_cfg, 0x70001000), (U_ser Txq_cap, 0x70001004), (U_ser Txq_len, 0x70001008),
    (U_ser Txq_clr, 0x7000100C), (U_ser Txq_dat, 0x70001010), (U_ser Rxq_cap, 0x70001014),
    (U_ser Rxq_len, 0x70001018), (U_ser Rxq_clr, 0x7000101C), (U_ser Rxq_dat, 0x70001020),
    (U_ser Irq_en, 0x70001024), (U_ser Irq_pend, 0x70001028), (U_ser Tx_irq_th, 0x7000102C),
    (U_ser Rx_irq_th, 0x70001030)]"

definition i2c_macros :: "(i2c_sel \<times> u32) list" where
  "i2c_macros = [
    (I_glb_cfg, 0x70002000), (I_nframes, 0x70002004), (I_start, 0x70002008), (I_busy, 0x7000200C),
    (I_ser Txq_cap, 0x70002010), (I_ser Txq_len, 0x70002014), (I_ser Txq_clr, 0x70002018),
    (I_ser Txq_dat, 0x7000201C), (I_ser Rxq_cap, 0x70002020), (I_ser Rxq_len, 0x70002024),
    (I_ser Rxq_clr, 0x70002028), (I_ser Rxq_dat, 0x7000202C), (I_ser Irq_en, 0x70002030),
    (I_ser Irq_pend, 0x70002034), (I_ser Tx_irq_th, 0x70002038), (I_ser Rx_irq_th, 0x7000203C)]"

definition spi0_macros :: "(spi_sel \<times> u32) list" where
  "spi0_macros = [
    (S_glb_cfg, 0x70003000), (S_recv_en, 0x70003004), (S_cs_idle, 0x70003008), (S_cs_mask, 0x7000300C),
    (S_ser Txq_cap, 0x70003010), (S_ser Txq_len, 0x70003014), (S_ser Txq_clr, 0x70003018),
    (S_ser Txq_dat, 0x7000301C), (S_ser Rxq_cap, 0x70003020), (S_ser Rxq_len, 0x70003024),
    (S_ser Rxq_clr, 0x70003028), (S_ser Rxq_dat, 0x7000302C), (S_ser Irq_en, 0x70003030),
    (S_ser Irq_pend, 0x70003034), (S_ser Tx_irq_th, 0x70003038), (S_ser Rx_irq_th, 0x7000303C)]"

definition spi1_macros :: "(spi_sel \<times> u32) list" where
  "spi1_macros = [
    (S_glb_cfg, 0x70004000), (S_recv_en, 0x70004004), (S_cs_idle, 0x70004008), (S_cs_mask, 0x7000400C),
    (S_ser Txq_cap, 0x70004010), (S_ser Txq_len, 0x70004014), (S_ser Txq_clr, 0x70004018),
    (S_ser Txq_dat, 0x7000401C), (S_ser Rxq_cap, 0x70004020), (S_ser Rxq_len, 0x70004024),
    (S_ser Rxq_clr, 0x70004028), (S_ser Rxq_dat, 0x7000402C), (S_ser Irq_en, 0x70004030),
    (S_ser Irq_pend, 0x70004034), (S_ser Tx_irq_th, 0x70004038), (S_ser Rx_irq_th, 0x7000403C)]"

definition tmr_macros :: "(tmr_sel \<times> u32) list" where
  "tmr_macros = [
    (T_cfg, 0x70005000), (T_val, 0x70005004), (T_cmp, 0x70005008), (T_clr, 0x7000500C)]"

definition wdt_macros :: "(tmr_sel \<times> u32) list" where
  "wdt_macros = [
    (T_cfg, 0x70006000), (T_val, 0x70006004), (T_cmp, 0x70006008), (T_clr, 0x7000600C)]"

text \<open>All registers, the memories, and the widths of the latter in bytes.\<close>

definition all_registers :: "u32 list" where
  "all_registers = map snd slc_macros @ map snd gpio_macros @ map snd uart_macros @ map snd i2c_macros
     @ map snd spi0_macros @ map snd spi1_macros @ map snd tmr_macros @ map snd wdt_macros @ [REG_DBG_BASE]"

definition memories :: "(u32 \<times> u32) list" where
  "memories = [(0x04000000, 8), (0x10000000, 65536), (0x20000000, 1048576)]"

definition in_memory :: "u32 \<Rightarrow> u32 \<times> u32 \<Rightarrow> bool" where
  "in_memory a = (\<lambda>(start, len). a - start < len)"

section \<open>Bit fields\<close>

text \<open>Pairs of a mask and an offset, for each configuration register.\<close>

type_synonym bit_field = "u32 \<times> nat"

definition slc_tmr_fields :: "bit_field list" where
  "slc_tmr_fields = [(SLC_TMR_CNT_EN_MASK, 0), (SLC_TMR_CLR_EN_MASK, 1), (SLC_TMR_CLK_DIV_MASK, 16)]"

definition uart_cfg_fields :: "bit_field list" where
  "uart_cfg_fields = [(UART_TX_EN_MASK, 0), (UART_RX_EN_MASK, 1), (UART_NBITS_MASK, 2), (UART_NSTOP_MASK, 4),
     (UART_ENDIAN_MASK, 5), (UART_PARITY_EN_MASK, 7), (UART_PARITY_TYPE_MASK, 8), (UART_CLK_DIV_MASK, 16)]"

definition i2c_cfg_fields :: "bit_field list" where
  "i2c_cfg_fields = [(0xFFFF, 0), (0xFFFF0000, 16)]"

definition SPI_CPOL :: bit_field where "SPI_CPOL = (0x1, 0)"
definition SPI_CPHA :: bit_field where "SPI_CPHA = (0x2, 1)"
definition SPI_ENDIAN :: bit_field where "SPI_ENDIAN = (0x4, 2)"
definition SPI_UNIT_LEN :: bit_field where "SPI_UNIT_LEN = (0xF8, 3)"
definition SPI_SCK_DLY :: bit_field where "SPI_SCK_DLY = (0xFF00, 8)"
definition SPI_CLK_DIV :: bit_field where "SPI_CLK_DIV = (0xFFFF0000, 16)"

definition spi_cfg_fields :: "bit_field list" where
  "spi_cfg_fields = [SPI_CPOL, SPI_CPHA, SPI_ENDIAN, SPI_UNIT_LEN, SPI_SCK_DLY, SPI_CLK_DIV]"

definition tmr_cfg_fields :: "bit_field list" where
  "tmr_cfg_fields = [(0x1, 0), (0x2, 1), (0x4, 2), (0xFFFF0000, 16)]"

text \<open>\<open>r &= ~MASK; r |= (v << OFFSET) & MASK\<close>, and the reading of the field.\<close>

definition put_field :: "bit_field \<Rightarrow> u32 \<Rightarrow> u32 \<Rightarrow> u32" where
  "put_field = (\<lambda>(m, k) v r. (r AND NOT m) OR (push_bit k v AND m))"

definition get_field :: "bit_field \<Rightarrow> u32 \<Rightarrow> u32" where
  "get_field = (\<lambda>(m, k) r. drop_bit k (r AND m))"

text \<open>The widest value of a field, and what the tables have to satisfy.\<close>

definition field_max :: "bit_field \<Rightarrow> u32" where
  "field_max f = get_field f (- 1)"

definition field_ok :: "bit_field \<Rightarrow> bool" where
  "field_ok = (\<lambda>(m, k). list_ex (\<lambda>w. m = push_bit k (mask w)) [1..<33 - k])"

fun fields_ok :: "bit_field list \<Rightarrow> bool" where
  "fields_ok [] = True"
| "fields_ok (f # fs) = (field_ok f \<and> list_all (\<lambda>g. fst f AND fst g = 0) fs \<and> fields_ok fs)"

text \<open>The baud rates the header names.\<close>

definition uart_baud_rates :: "u32 list" where
  "uart_baud_rates = [1200, 2400, 4800, 9600, 19200, 38400, 57600, 115200, 230400, 460800, 921600]"

section \<open>Lemmas\<close>

lemma macros_are_fields:
  "slc_macros = map (\<lambda>x. (x, field_addr REG_SLC_BASE slc_type x)) slc_type"
  "gpio_macros = map (\<lambda>x. (x, field_addr REG_GPIO_BASE gpio_type x)) gpio_type"
  "uart_macros = map (\<lambda>x. (x, field_addr REG_UART_BASE uart_type x)) uart_type"
  "i2c_macros = map (\<lambda>x. (x, field_addr REG_I2C_BASE i2c_type x)) i2c_type"
  "spi0_macros = map (\<lambda>x. (x, field_addr REG_SPI0_BASE spi_type x)) spi_type"
  "spi1_macros = map (\<lambda>x. (x, field_addr REG_SPI1_BASE spi_type x)) spi_type"
  "tmr_macros = map (\<lambda>x. (x, field_addr REG_TMR_BASE tmr_type x)) tmr_type"
  "wdt_macros = map (\<lambda>x. (x, field_addr REG_WDT_BASE tmr_type x)) tmr_type"
  by (simp_all add: slc_macros_def slc_type_def REG_SLC_BASE_def gpio_macros_def gpio_type_def REG_GPIO_BASE_def
      uart_macros_def uart_type_def REG_UART_BASE_def i2c_macros_def i2c_type_def REG_I2C_BASE_def
      spi0_macros_def spi_type_def REG_SPI0_BASE_def spi1_macros_def REG_SPI1_BASE_def
      tmr_macros_def tmr_type_def REG_TMR_BASE_def wdt_macros_def REG_WDT_BASE_def field_addr_def)

lemma macros_decode:
  "list_all (\<lambda>(x, a). decode a = Some (R_slc x)) slc_macros"
  "list_all (\<lambda>(x, a). decode a = Some (R_uart x)) uart_macros"
  "list_all (\<lambda>(x, a). decode a = Some (R_spi 0 x)) spi0_macros"
  "list_all (\<lambda>(x, a). decode a = Some (R_spi 1 x)) spi1_macros"
  by code_simp+

lemma registers_apart: "distinct all_registers" "list_all (\<lambda>a. a AND 3 = 0) all_registers"
    "list_all (\<lambda>a. \<not> list_ex (in_memory a) memories) all_registers"
  by code_simp+

lemma get_put_same: "get_field f (put_field f v r) = v AND field_max f"
  by (cases f) (auto simp: get_field_def put_field_def field_max_def bit_simps intro!: bit_word_eqI)

lemma get_put_other:
  assumes "fst f AND fst g = 0"
  shows "get_field g (put_field f v r) = get_field g r"
proof -
  have "\<not> (bit (fst f) n \<and> bit (fst g) n)" for n
    using assms by (metis bit_0_eq bit_and_iff bot_apply bot_bool_def)
  moreover have big: "bit x n \<longleftrightarrow> n < 32 \<and> bit x n" for x :: u32 and n
    using bit_imp_le_length [of x n] by auto
  ultimately have "bit (get_field g (put_field f v r)) n = bit (get_field g r) n" for n
    by (cases f; cases g; cases "snd g + n < 32")
      (auto simp: get_field_def put_field_def bit_simps dest: iffD1 [OF big])
  then show ?thesis by (intro bit_word_eqI)
qed
lemma and_mask_of_le: "(v :: u32) \<le> mask w \<Longrightarrow> v AND mask w = v"
proof -
  assume "v \<le> mask w"
  then have "uint v \<le> mask (min 32 w)" by (simp add: word_le_def uint_mask_eq)
  then have "uint v < 2 ^ min 32 w" by (simp add: mask_eq_exp_minus_1)
  also have "(2 :: int) ^ min 32 w \<le> 2 ^ w" by (rule power_increasing) simp_all
  finally have "take_bit w (uint v) = uint v" by (simp add: take_bit_int_eq_self)
  then have "uint (take_bit w v) = uint v" by (simp add: unsigned_take_bit_eq)
  then have "take_bit w v = v" by (simp only: word_uint_eq_iff)
  then show ?thesis by (simp add: take_bit_eq_mask)
qed


lemma field_max_fits:
  assumes "field_ok f" and "v \<le> field_max f"
  shows "v AND field_max f = v"
proof -
  obtain m k w where f: "f = (m, k)" "m = push_bit k (mask w)" "w < 33 - k"
    using assms(1) by (cases f) (auto simp: field_ok_def list_ex_iff)
  have "field_max f = mask w"
    using f(3) unfolding field_max_def get_field_def f(1,2)
    by (auto simp: bit_simps intro!: bit_word_eqI)
  with assms(2) show ?thesis
    by (simp add: and_mask_of_le)
qed

lemma tables_ok:
  "fields_ok slc_tmr_fields" "fields_ok uart_cfg_fields" "fields_ok i2c_cfg_fields" "fields_ok spi_cfg_fields"
  "fields_ok tmr_cfg_fields"
  by code_simp+

lemma fields_ok_member: "fields_ok fs \<Longrightarrow> f \<in> set fs \<Longrightarrow> field_ok f"
  by (induction fs) auto

lemma fields_ok_apart:
  "fields_ok fs \<Longrightarrow> f \<in> set fs \<Longrightarrow> g \<in> set fs \<Longrightarrow> f \<noteq> g \<Longrightarrow> fst f AND fst g = 0"
  by (induction fs) (auto simp: list_all_iff and.commute)

lemma get_field_or: "get_field f (a OR b) = get_field f a OR get_field f b"
  by (cases f) (auto simp: get_field_def bit_simps intro!: bit_word_eqI)

lemma get_field_part:
  fixes x :: "'n::len word"
  assumes "if j = k then LENGTH('n) = w \<and> k + w \<le> 32 else j + LENGTH('n) \<le> k \<or> k + w \<le> j"
  shows "get_field (push_bit k (mask w), k) (push_bit j (ucast x)) = (if j = k then ucast x else 0)"
proof (rule bit_word_eqI)
  fix n assume "n < LENGTH(32)"
  have "bit x m \<Longrightarrow> m < LENGTH('n)" for m by (rule bit_imp_le_length)
  from this [of n] this [of "k + n - j"] assms \<open>n < LENGTH(32)\<close>
  show "bit (get_field (push_bit k (mask w), k) (push_bit j (ucast x))) n = bit (if j = k then ucast x else (0 :: u32)) n"
    by (auto simp: get_field_def bit_simps split: if_splits)
qed

lemma spi_masks: "SPI_CPOL = (push_bit 0 (mask 1), 0)" "SPI_CPHA = (push_bit 1 (mask 1), 1)"
    "SPI_ENDIAN = (push_bit 2 (mask 1), 2)" "SPI_UNIT_LEN = (push_bit 3 (mask 5), 3)"
    "SPI_SCK_DLY = (push_bit 8 (mask 8), 8)" "SPI_CLK_DIV = (push_bit 16 (mask 16), 16)"
  by code_simp+

section \<open>Properties\<close>

text \<open>
  C26: The two descriptions of the registers in \<open>uv_sys.h\<close> agree: every macro is the address of the
  structure's field, for all eight controllers; the addresses are distinct, word-aligned and outside the
  memories; and those of the controllers the driver uses select the register of that name in the device
  blocks.
\<close>

theorem register_map_consistent:
  "slc_macros = map (\<lambda>x. (x, field_addr REG_SLC_BASE slc_type x)) slc_type
   \<and> gpio_macros = map (\<lambda>x. (x, field_addr REG_GPIO_BASE gpio_type x)) gpio_type
   \<and> uart_macros = map (\<lambda>x. (x, field_addr REG_UART_BASE uart_type x)) uart_type
   \<and> i2c_macros = map (\<lambda>x. (x, field_addr REG_I2C_BASE i2c_type x)) i2c_type
   \<and> spi0_macros = map (\<lambda>x. (x, field_addr REG_SPI0_BASE spi_type x)) spi_type
   \<and> spi1_macros = map (\<lambda>x. (x, field_addr REG_SPI1_BASE spi_type x)) spi_type
   \<and> tmr_macros = map (\<lambda>x. (x, field_addr REG_TMR_BASE tmr_type x)) tmr_type
   \<and> wdt_macros = map (\<lambda>x. (x, field_addr REG_WDT_BASE tmr_type x)) tmr_type
   \<and> distinct all_registers \<and> list_all (\<lambda>a. a AND 3 = 0) all_registers
   \<and> list_all (\<lambda>a. \<not> list_ex (in_memory a) memories) all_registers
   \<and> list_all (\<lambda>(x, a). decode a = Some (R_slc x)) slc_macros
   \<and> list_all (\<lambda>(x, a). decode a = Some (R_uart x)) uart_macros
   \<and> list_all (\<lambda>(x, a). decode a = Some (R_spi 0 x)) spi0_macros
   \<and> list_all (\<lambda>(x, a). decode a = Some (R_spi 1 x)) spi1_macros"
  using macros_are_fields macros_decode registers_apart by blast

text \<open>The masks and offsets of every configuration register form fields: a value that fits, stored
  with the code's \<open>&= ~MASK, |= (v << OFFSET) & MASK\<close>, is read back unchanged, and every other field
  of the register keeps its value.
\<close>

theorem config_fields_roundtrip:
  assumes "fs \<in> {slc_tmr_fields, uart_cfg_fields, i2c_cfg_fields, spi_cfg_fields, tmr_cfg_fields}"
    and "f \<in> set fs" and "v \<le> field_max f"
  shows "get_field f (put_field f v r) = v
    \<and> (\<forall>g \<in> set fs. g \<noteq> f \<longrightarrow> get_field g (put_field f v r) = get_field g r)"
proof -
  have ok: "fields_ok fs" using assms(1) tables_ok by blast
  show ?thesis
    using get_put_same [of f v r] field_max_fits [OF fields_ok_member [OF ok assms(2)] assms(3)]
      fields_ok_apart [OF ok assms(2)] get_put_other by fastforce
qed

theorem config_fields_roundtrip_witness:
  "get_field (UART_NBITS_MASK, 2) (put_field (UART_NBITS_MASK, 2) 3 0x364001F) = 3
   \<and> get_field (UART_CLK_DIV_MASK, 16) (put_field (UART_NBITS_MASK, 2) 3 0x3640013) = 0x364"
proof -
  have 1: "(UART_NBITS_MASK, 2) \<in> set uart_cfg_fields" "(UART_CLK_DIV_MASK, 16) \<in> set uart_cfg_fields"
    by (simp_all add: uart_cfg_fields_def)
  have 2: "(3 :: u32) \<le> field_max (UART_NBITS_MASK, 2)" by code_simp
  have 3: "get_field (UART_CLK_DIV_MASK, 16) 0x3640013 = 0x364" by code_simp
  show ?thesis
    using config_fields_roundtrip [OF _ 1(1) 2, where r = "0x364001F"] config_fields_roundtrip [OF _ 1(1) 2, where r = "0x3640013"] 1(2) 3
    by fastforce
qed

text \<open>
  The bit-field structure \<open>spi_cfg\<close>, copied to the register as a word, has its members at the masks and
  offsets of the macros.
\<close>

lemma spi_cfg_layout:
  "get_field SPI_CPOL (spi_cfg_word c) = ucast (cpol c) \<and> get_field SPI_CPHA (spi_cfg_word c) = ucast (cpha c)
   \<and> get_field SPI_ENDIAN (spi_cfg_word c) = ucast (endian c)
   \<and> get_field SPI_UNIT_LEN (spi_cfg_word c) = ucast (unit_len c)
   \<and> get_field SPI_SCK_DLY (spi_cfg_word c) = ucast (sck_dly c)
   \<and> get_field SPI_CLK_DIV (spi_cfg_word c) = ucast (clk_div c)"
proof -
  define a b d e f g :: u32 where parts: "a = push_bit 0 (ucast (cpol c))" "b = push_bit 1 (ucast (cpha c))"
    "d = push_bit 2 (ucast (endian c))" "e = push_bit 3 (ucast (unit_len c))"
    "f = push_bit 8 (ucast (sck_dly c))" "g = push_bit 16 (ucast (clk_div c))"
  have w: "spi_cfg_word c = a OR b OR d OR e OR f OR g" by (simp add: spi_cfg_word_def parts or.assoc)
  have 0: "get_field (push_bit k (mask w), k) (a OR b OR d OR e OR f OR g) =
      get_field (push_bit k (mask w), k) a OR get_field (push_bit k (mask w), k) b OR get_field (push_bit k (mask w), k) d
      OR get_field (push_bit k (mask w), k) e OR get_field (push_bit k (mask w), k) f OR get_field (push_bit k (mask w), k) g"
    for k w by (simp only: get_field_or)
  show ?thesis unfolding w spi_masks 0 unfolding parts
    by (simp add: get_field_part del: One_nat_def push_bit_Suc push_bit_0_id)
qed

text \<open>Of the named baud rates, 1200 is the one whose divider does not fit the field.\<close>

lemma baud_rates_fit:
  "filter (\<lambda>b. uart_clk_div b \<le> field_max (UART_CLK_DIV_MASK, 16)) uart_baud_rates = tl uart_baud_rates"
  by code_simp

end
