(* ===== verification/Encoding.thy ===== *)
theory Encoding
  imports Uv_Irq
begin

text \<open>
  The RISC-V constants \<open>software/driver/include/encoding.h\<close>: the fields of the control and status
  registers with the macros that access these registers, the instruction patterns, the register numbers
  and the trap causes. The header is meant for C code that lists its tables with macros of its own
  (\<open>DECLARE_INSN\<close> and others), so the tables are lists here, one per group of the header.
\<close>

section \<open>Fields of the control and status registers\<close>

definition mstatus_fields :: "(string \<times> u64) list" where
  "mstatus_fields = [
    (''UIE'', 0x00000001), (''SIE'', 0x00000002), (''HIE'', 0x00000004), (''MIE'', 0x00000008),
    (''UPIE'', 0x00000010), (''SPIE'', 0x00000020), (''HPIE'', 0x00000040), (''MPIE'', 0x00000080),
    (''SPP'', 0x00000100), (''HPP'', 0x00000600), (''MPP'', 0x00001800), (''FS'', 0x00006000),
    (''XS'', 0x00018000), (''MPRV'', 0x00020000), (''SUM'', 0x00040000), (''MXR'', 0x00080000),
    (''TVM'', 0x00100000), (''TW'', 0x00200000), (''TSR'', 0x00400000)]"

text \<open>\<open>MSTATUS32_SD\<close>, \<open>MSTATUS_UXL\<close>, \<open>MSTATUS_SXL\<close> and \<open>MSTATUS64_SD\<close>: what depends on the register width.\<close>

definition mstatus32_sd :: u64 where "mstatus32_sd = 0x80000000"

definition mstatus64_fields :: "(string \<times> u64) list" where
  "mstatus64_fields = [(''UXL'', 0x0000000300000000), (''SXL'', 0x0000000C00000000), (''SD'', 0x8000000000000000)]"

definition sstatus_fields :: "(string \<times> u64) list" where
  "sstatus_fields = [
    (''UIE'', 0x00000001), (''SIE'', 0x00000002), (''UPIE'', 0x00000010), (''SPIE'', 0x00000020),
    (''SPP'', 0x00000100), (''FS'', 0x00006000), (''XS'', 0x00018000), (''SUM'', 0x00040000),
    (''MXR'', 0x00080000)]"

definition dcsr_fields :: "(string \<times> u64) list" where
  "dcsr_fields = [(''XDEBUGVER'', push_bit 30 3), (''NDRESET'', push_bit 29 1), (''FULLRESET'', push_bit 28 1),
    (''EBREAKM'', push_bit 15 1), (''EBREAKH'', push_bit 14 1), (''EBREAKS'', push_bit 13 1),
    (''EBREAKU'', push_bit 12 1), (''STOPCYCLE'', push_bit 10 1), (''STOPTIME'', push_bit 9 1),
    (''CAUSE'', push_bit 6 7), (''DEBUGINT'', push_bit 5 1), (''HALT'', push_bit 3 1), (''STEP'', push_bit 2 1),
    (''PRV'', push_bit 0 3)]"

text \<open>The trigger control register; its upper fields are placed by the register width.\<close>

definition mcontrol_high :: "nat \<Rightarrow> (string \<times> u64) list" where
  "mcontrol_high xlen = [(''TYPE'', push_bit (xlen - 4) 0xf), (''DMODE'', push_bit (xlen - 5) 1),
    (''MASKMAX'', push_bit (xlen - 11) 0x3f)]"

definition mcontrol_fields :: "(string \<times> u64) list" where
  "mcontrol_fields = [(''SELECT'', push_bit 19 1), (''TIMING'', push_bit 18 1), (''ACTION'', push_bit 12 0x3f),
    (''CHAIN'', push_bit 11 1), (''MATCH'', push_bit 7 0xf), (''M'', push_bit 6 1), (''H'', push_bit 5 1),
    (''S'', push_bit 4 1), (''U'', push_bit 3 1), (''EXECUTE'', push_bit 2 1), (''STORE'', push_bit 1 1),
    (''LOAD'', push_bit 0 1)]"

text \<open>The interrupt numbers, and the pending bits they give.\<close>

definition irq_numbers :: "(string \<times> nat) list" where
  "irq_numbers = [(''S_SOFT'', 1), (''H_SOFT'', 2), (''M_SOFT'', 3), (''S_TIMER'', 5), (''H_TIMER'', 6), (''M_TIMER'', 7),
    (''S_EXT'', 9), (''H_EXT'', 10), (''M_EXT'', 11), (''COP'', 12), (''HOST'', 13)]"

definition mip_bit :: "string \<Rightarrow> u32 option" where
  "mip_bit irq = map_option (\<lambda>n. push_bit n 1) (map_of irq_numbers irq)"

definition satp32_fields :: "(string \<times> u64) list" where
  "satp32_fields = [(''MODE'', 0x80000000), (''ASID'', 0x7FC00000), (''PPN'', 0x003FFFFF)]"

definition satp64_fields :: "(string \<times> u64) list" where
  "satp64_fields = [(''MODE'', 0xF000000000000000), (''ASID'', 0x0FFFF00000000000), (''PPN'', 0x00000FFFFFFFFFFF)]"

definition pmp_fields :: "(string \<times> u64) list" where
  "pmp_fields = [(''R'', 0x01), (''W'', 0x02), (''X'', 0x04), (''A'', 0x18), (''L'', 0x80)]"

definition pmp_modes :: "(string \<times> u64) list" where
  "pmp_modes = [(''TOR'', 0x08), (''NA4'', 0x10), (''NAPOT'', 0x18)]"

definition pte_fields :: "(string \<times> u64) list" where
  "pte_fields = [(''V'', 0x001), (''R'', 0x002), (''W'', 0x004), (''X'', 0x008), (''U'', 0x010), (''G'', 0x020),
    (''A'', 0x040), (''D'', 0x080), (''SOFT'', 0x300)]"

definition PTE_PPN_SHIFT :: nat where "PTE_PPN_SHIFT = 10"

text \<open>A page table entry that points to the next level.\<close>

definition PTE_TABLE :: "u64 \<Rightarrow> bool" where
  "PTE_TABLE pte \<longleftrightarrow> pte AND (0x001 OR 0x002 OR 0x004 OR 0x008) = 0x001"

section \<open>Access to the control and status registers\<close>

type_synonym csr_file = "12 word \<Rightarrow> u32"

definition read_csr :: "12 word \<Rightarrow> csr_file \<Rightarrow> u32" where
  "read_csr reg f = f reg"

definition write_csr :: "12 word \<Rightarrow> u32 \<Rightarrow> csr_file \<Rightarrow> csr_file" where
  "write_csr reg val f = f(reg := val)"

definition swap_csr :: "12 word \<Rightarrow> u32 \<Rightarrow> csr_file \<Rightarrow> u32 \<times> csr_file" where
  "swap_csr reg val f = (f reg, f(reg := val))"

definition set_csr :: "12 word \<Rightarrow> u32 \<Rightarrow> csr_file \<Rightarrow> u32 \<times> csr_file" where
  "set_csr reg b f = (f reg, f(reg := f reg OR b))"

definition clear_csr :: "12 word \<Rightarrow> u32 \<Rightarrow> csr_file \<Rightarrow> u32 \<times> csr_file" where
  "clear_csr reg b f = (f reg, f(reg := f reg AND NOT b))"

section \<open>Instruction patterns\<close>

text \<open>
  Name, match and mask of every instruction: a word is the instruction if its masked bits are the match.
\<close>

definition insns_integer :: "(string \<times> u32 \<times> u32) list" where
  "insns_integer = [
    (''BEQ'', 0x63, 0x707f), (''BNE'', 0x1063, 0x707f), (''BLT'', 0x4063, 0x707f),
    (''BGE'', 0x5063, 0x707f), (''BLTU'', 0x6063, 0x707f), (''BGEU'', 0x7063, 0x707f),
    (''JALR'', 0x67, 0x707f), (''JAL'', 0x6f, 0x7f), (''LUI'', 0x37, 0x7f), (''AUIPC'', 0x17, 0x7f),
    (''ADDI'', 0x13, 0x707f), (''SLLI'', 0x1013, 0xfc00707f), (''SLTI'', 0x2013, 0x707f),
    (''SLTIU'', 0x3013, 0x707f), (''XORI'', 0x4013, 0x707f), (''SRLI'', 0x5013, 0xfc00707f),
    (''SRAI'', 0x40005013, 0xfc00707f), (''ORI'', 0x6013, 0x707f), (''ANDI'', 0x7013, 0x707f),
    (''ADD'', 0x33, 0xfe00707f), (''SUB'', 0x40000033, 0xfe00707f), (''SLL'', 0x1033, 0xfe00707f),
    (''SLT'', 0x2033, 0xfe00707f), (''SLTU'', 0x3033, 0xfe00707f), (''XOR'', 0x4033, 0xfe00707f),
    (''SRL'', 0x5033, 0xfe00707f), (''SRA'', 0x40005033, 0xfe00707f), (''OR'', 0x6033, 0xfe00707f),
    (''AND'', 0x7033, 0xfe00707f), (''ADDIW'', 0x1b, 0x707f), (''SLLIW'', 0x101b, 0xfe00707f),
    (''SRLIW'', 0x501b, 0xfe00707f), (''SRAIW'', 0x4000501b, 0xfe00707f), (''ADDW'', 0x3b, 0xfe00707f),
    (''SUBW'', 0x4000003b, 0xfe00707f), (''SLLW'', 0x103b, 0xfe00707f), (''SRLW'', 0x503b, 0xfe00707f),
    (''SRAW'', 0x4000503b, 0xfe00707f), (''LB'', 0x3, 0x707f), (''LH'', 0x1003, 0x707f),
    (''LW'', 0x2003, 0x707f), (''LD'', 0x3003, 0x707f), (''LBU'', 0x4003, 0x707f),
    (''LHU'', 0x5003, 0x707f), (''LWU'', 0x6003, 0x707f), (''SB'', 0x23, 0x707f),
    (''SH'', 0x1023, 0x707f), (''SW'', 0x2023, 0x707f), (''SD'', 0x3023, 0x707f),
    (''FENCE'', 0xf, 0x707f), (''FENCE_I'', 0x100f, 0x707f)]"

definition insns_muldiv_atomic :: "(string \<times> u32 \<times> u32) list" where
  "insns_muldiv_atomic = [
    (''MUL'', 0x2000033, 0xfe00707f), (''MULH'', 0x2001033, 0xfe00707f),
    (''MULHSU'', 0x2002033, 0xfe00707f), (''MULHU'', 0x2003033, 0xfe00707f),
    (''DIV'', 0x2004033, 0xfe00707f), (''DIVU'', 0x2005033, 0xfe00707f),
    (''REM'', 0x2006033, 0xfe00707f), (''REMU'', 0x2007033, 0xfe00707f),
    (''MULW'', 0x200003b, 0xfe00707f), (''DIVW'', 0x200403b, 0xfe00707f),
    (''DIVUW'', 0x200503b, 0xfe00707f), (''REMW'', 0x200603b, 0xfe00707f),
    (''REMUW'', 0x200703b, 0xfe00707f), (''AMOADD_W'', 0x202f, 0xf800707f),
    (''AMOXOR_W'', 0x2000202f, 0xf800707f), (''AMOOR_W'', 0x4000202f, 0xf800707f),
    (''AMOAND_W'', 0x6000202f, 0xf800707f), (''AMOMIN_W'', 0x8000202f, 0xf800707f),
    (''AMOMAX_W'', 0xa000202f, 0xf800707f), (''AMOMINU_W'', 0xc000202f, 0xf800707f),
    (''AMOMAXU_W'', 0xe000202f, 0xf800707f), (''AMOSWAP_W'', 0x800202f, 0xf800707f),
    (''LR_W'', 0x1000202f, 0xf9f0707f), (''SC_W'', 0x1800202f, 0xf800707f),
    (''AMOADD_D'', 0x302f, 0xf800707f), (''AMOXOR_D'', 0x2000302f, 0xf800707f),
    (''AMOOR_D'', 0x4000302f, 0xf800707f), (''AMOAND_D'', 0x6000302f, 0xf800707f),
    (''AMOMIN_D'', 0x8000302f, 0xf800707f), (''AMOMAX_D'', 0xa000302f, 0xf800707f),
    (''AMOMINU_D'', 0xc000302f, 0xf800707f), (''AMOMAXU_D'', 0xe000302f, 0xf800707f),
    (''AMOSWAP_D'', 0x800302f, 0xf800707f), (''LR_D'', 0x1000302f, 0xf9f0707f),
    (''SC_D'', 0x1800302f, 0xf800707f)]"

definition insns_system :: "(string \<times> u32 \<times> u32) list" where
  "insns_system = [
    (''ECALL'', 0x73, 0xffffffff), (''EBREAK'', 0x100073, 0xffffffff),
    (''URET'', 0x200073, 0xffffffff), (''SRET'', 0x10200073, 0xffffffff),
    (''MRET'', 0x30200073, 0xffffffff), (''DRET'', 0x7b200073, 0xffffffff),
    (''SFENCE_VMA'', 0x12000073, 0xfe007fff), (''WFI'', 0x10500073, 0xffffffff),
    (''CSRRW'', 0x1073, 0x707f), (''CSRRS'', 0x2073, 0x707f), (''CSRRC'', 0x3073, 0x707f),
    (''CSRRWI'', 0x5073, 0x707f), (''CSRRSI'', 0x6073, 0x707f), (''CSRRCI'', 0x7073, 0x707f)]"

definition insns_float :: "(string \<times> u32 \<times> u32) list" where
  "insns_float = [
    (''FADD_S'', 0x53, 0xfe00007f), (''FSUB_S'', 0x8000053, 0xfe00007f),
    (''FMUL_S'', 0x10000053, 0xfe00007f), (''FDIV_S'', 0x18000053, 0xfe00007f),
    (''FSGNJ_S'', 0x20000053, 0xfe00707f), (''FSGNJN_S'', 0x20001053, 0xfe00707f),
    (''FSGNJX_S'', 0x20002053, 0xfe00707f), (''FMIN_S'', 0x28000053, 0xfe00707f),
    (''FMAX_S'', 0x28001053, 0xfe00707f), (''FSQRT_S'', 0x58000053, 0xfff0007f),
    (''FADD_D'', 0x2000053, 0xfe00007f), (''FSUB_D'', 0xa000053, 0xfe00007f),
    (''FMUL_D'', 0x12000053, 0xfe00007f), (''FDIV_D'', 0x1a000053, 0xfe00007f),
    (''FSGNJ_D'', 0x22000053, 0xfe00707f), (''FSGNJN_D'', 0x22001053, 0xfe00707f),
    (''FSGNJX_D'', 0x22002053, 0xfe00707f), (''FMIN_D'', 0x2a000053, 0xfe00707f),
    (''FMAX_D'', 0x2a001053, 0xfe00707f), (''FCVT_S_D'', 0x40100053, 0xfff0007f),
    (''FCVT_D_S'', 0x42000053, 0xfff0007f), (''FSQRT_D'', 0x5a000053, 0xfff0007f),
    (''FADD_Q'', 0x6000053, 0xfe00007f), (''FSUB_Q'', 0xe000053, 0xfe00007f),
    (''FMUL_Q'', 0x16000053, 0xfe00007f), (''FDIV_Q'', 0x1e000053, 0xfe00007f),
    (''FSGNJ_Q'', 0x26000053, 0xfe00707f), (''FSGNJN_Q'', 0x26001053, 0xfe00707f),
    (''FSGNJX_Q'', 0x26002053, 0xfe00707f), (''FMIN_Q'', 0x2e000053, 0xfe00707f),
    (''FMAX_Q'', 0x2e001053, 0xfe00707f), (''FCVT_S_Q'', 0x40300053, 0xfff0007f),
    (''FCVT_Q_S'', 0x46000053, 0xfff0007f), (''FCVT_D_Q'', 0x42300053, 0xfff0007f),
    (''FCVT_Q_D'', 0x46100053, 0xfff0007f), (''FSQRT_Q'', 0x5e000053, 0xfff0007f),
    (''FLE_S'', 0xa0000053, 0xfe00707f), (''FLT_S'', 0xa0001053, 0xfe00707f),
    (''FEQ_S'', 0xa0002053, 0xfe00707f), (''FLE_D'', 0xa2000053, 0xfe00707f),
    (''FLT_D'', 0xa2001053, 0xfe00707f), (''FEQ_D'', 0xa2002053, 0xfe00707f),
    (''FLE_Q'', 0xa6000053, 0xfe00707f), (''FLT_Q'', 0xa6001053, 0xfe00707f),
    (''FEQ_Q'', 0xa6002053, 0xfe00707f), (''FCVT_W_S'', 0xc0000053, 0xfff0007f),
    (''FCVT_WU_S'', 0xc0100053, 0xfff0007f), (''FCVT_L_S'', 0xc0200053, 0xfff0007f),
    (''FCVT_LU_S'', 0xc0300053, 0xfff0007f), (''FMV_X_W'', 0xe0000053, 0xfff0707f)]"

definition insns_float_conv :: "(string \<times> u32 \<times> u32) list" where
  "insns_float_conv = [
    (''FCLASS_S'', 0xe0001053, 0xfff0707f), (''FCVT_W_D'', 0xc2000053, 0xfff0007f),
    (''FCVT_WU_D'', 0xc2100053, 0xfff0007f), (''FCVT_L_D'', 0xc2200053, 0xfff0007f),
    (''FCVT_LU_D'', 0xc2300053, 0xfff0007f), (''FMV_X_D'', 0xe2000053, 0xfff0707f),
    (''FCLASS_D'', 0xe2001053, 0xfff0707f), (''FCVT_W_Q'', 0xc6000053, 0xfff0007f),
    (''FCVT_WU_Q'', 0xc6100053, 0xfff0007f), (''FCVT_L_Q'', 0xc6200053, 0xfff0007f),
    (''FCVT_LU_Q'', 0xc6300053, 0xfff0007f), (''FMV_X_Q'', 0xe6000053, 0xfff0707f),
    (''FCLASS_Q'', 0xe6001053, 0xfff0707f), (''FCVT_S_W'', 0xd0000053, 0xfff0007f),
    (''FCVT_S_WU'', 0xd0100053, 0xfff0007f), (''FCVT_S_L'', 0xd0200053, 0xfff0007f),
    (''FCVT_S_LU'', 0xd0300053, 0xfff0007f), (''FMV_W_X'', 0xf0000053, 0xfff0707f),
    (''FCVT_D_W'', 0xd2000053, 0xfff0007f), (''FCVT_D_WU'', 0xd2100053, 0xfff0007f),
    (''FCVT_D_L'', 0xd2200053, 0xfff0007f), (''FCVT_D_LU'', 0xd2300053, 0xfff0007f),
    (''FMV_D_X'', 0xf2000053, 0xfff0707f), (''FCVT_Q_W'', 0xd6000053, 0xfff0007f),
    (''FCVT_Q_WU'', 0xd6100053, 0xfff0007f), (''FCVT_Q_L'', 0xd6200053, 0xfff0007f),
    (''FCVT_Q_LU'', 0xd6300053, 0xfff0007f), (''FMV_Q_X'', 0xf6000053, 0xfff0707f),
    (''FLW'', 0x2007, 0x707f), (''FLD'', 0x3007, 0x707f), (''FLQ'', 0x4007, 0x707f),
    (''FSW'', 0x2027, 0x707f), (''FSD'', 0x3027, 0x707f), (''FSQ'', 0x4027, 0x707f),
    (''FMADD_S'', 0x43, 0x600007f), (''FMSUB_S'', 0x47, 0x600007f), (''FNMSUB_S'', 0x4b, 0x600007f),
    (''FNMADD_S'', 0x4f, 0x600007f), (''FMADD_D'', 0x2000043, 0x600007f),
    (''FMSUB_D'', 0x2000047, 0x600007f), (''FNMSUB_D'', 0x200004b, 0x600007f),
    (''FNMADD_D'', 0x200004f, 0x600007f), (''FMADD_Q'', 0x6000043, 0x600007f),
    (''FMSUB_Q'', 0x6000047, 0x600007f), (''FNMSUB_Q'', 0x600004b, 0x600007f),
    (''FNMADD_Q'', 0x600004f, 0x600007f)]"

definition insns_compressed :: "(string \<times> u32 \<times> u32) list" where
  "insns_compressed = [
    (''C_NOP'', 0x1, 0xffff), (''C_ADDI16SP'', 0x6101, 0xef83), (''C_JR'', 0x8002, 0xf07f),
    (''C_JALR'', 0x9002, 0xf07f), (''C_EBREAK'', 0x9002, 0xffff), (''C_LD'', 0x6000, 0xe003),
    (''C_SD'', 0xe000, 0xe003), (''C_ADDIW'', 0x2001, 0xe003), (''C_LDSP'', 0x6002, 0xe003),
    (''C_SDSP'', 0xe002, 0xe003), (''C_ADDI4SPN'', 0x0, 0xe003), (''C_FLD'', 0x2000, 0xe003),
    (''C_LW'', 0x4000, 0xe003), (''C_FLW'', 0x6000, 0xe003), (''C_FSD'', 0xa000, 0xe003),
    (''C_SW'', 0xc000, 0xe003), (''C_FSW'', 0xe000, 0xe003), (''C_ADDI'', 0x1, 0xe003),
    (''C_JAL'', 0x2001, 0xe003), (''C_LI'', 0x4001, 0xe003), (''C_LUI'', 0x6001, 0xe003),
    (''C_SRLI'', 0x8001, 0xec03), (''C_SRAI'', 0x8401, 0xec03), (''C_ANDI'', 0x8801, 0xec03),
    (''C_SUB'', 0x8c01, 0xfc63), (''C_XOR'', 0x8c21, 0xfc63), (''C_OR'', 0x8c41, 0xfc63),
    (''C_AND'', 0x8c61, 0xfc63), (''C_SUBW'', 0x9c01, 0xfc63), (''C_ADDW'', 0x9c21, 0xfc63),
    (''C_J'', 0xa001, 0xe003), (''C_BEQZ'', 0xc001, 0xe003), (''C_BNEZ'', 0xe001, 0xe003),
    (''C_SLLI'', 0x2, 0xe003), (''C_FLDSP'', 0x2002, 0xe003), (''C_LWSP'', 0x4002, 0xe003),
    (''C_FLWSP'', 0x6002, 0xe003), (''C_MV'', 0x8002, 0xf003), (''C_ADD'', 0x9002, 0xf003),
    (''C_FSDSP'', 0xa002, 0xe003), (''C_SWSP'', 0xc002, 0xe003), (''C_FSWSP'', 0xe002, 0xe003)]"

definition insns_custom :: "(string \<times> u32 \<times> u32) list" where
  "insns_custom = [
    (''CUSTOM0'', 0xb, 0x707f), (''CUSTOM0_RS1'', 0x200b, 0x707f),
    (''CUSTOM0_RS1_RS2'', 0x300b, 0x707f), (''CUSTOM0_RD'', 0x400b, 0x707f),
    (''CUSTOM0_RD_RS1'', 0x600b, 0x707f), (''CUSTOM0_RD_RS1_RS2'', 0x700b, 0x707f),
    (''CUSTOM1'', 0x2b, 0x707f), (''CUSTOM1_RS1'', 0x202b, 0x707f),
    (''CUSTOM1_RS1_RS2'', 0x302b, 0x707f), (''CUSTOM1_RD'', 0x402b, 0x707f),
    (''CUSTOM1_RD_RS1'', 0x602b, 0x707f), (''CUSTOM1_RD_RS1_RS2'', 0x702b, 0x707f),
    (''CUSTOM2'', 0x5b, 0x707f), (''CUSTOM2_RS1'', 0x205b, 0x707f),
    (''CUSTOM2_RS1_RS2'', 0x305b, 0x707f), (''CUSTOM2_RD'', 0x405b, 0x707f),
    (''CUSTOM2_RD_RS1'', 0x605b, 0x707f), (''CUSTOM2_RD_RS1_RS2'', 0x705b, 0x707f),
    (''CUSTOM3'', 0x7b, 0x707f), (''CUSTOM3_RS1'', 0x207b, 0x707f),
    (''CUSTOM3_RS1_RS2'', 0x307b, 0x707f), (''CUSTOM3_RD'', 0x407b, 0x707f),
    (''CUSTOM3_RD_RS1'', 0x607b, 0x707f), (''CUSTOM3_RD_RS1_RS2'', 0x707b, 0x707f)]"

definition insn_table :: "(string \<times> u32 \<times> u32) list" where
  "insn_table = insns_integer @ insns_muldiv_atomic @ insns_system @ insns_float @ insns_float_conv
     @ insns_compressed @ insns_custom"

text \<open>The names the header hands to \<open>DECLARE_INSN\<close>.\<close>

definition declared_insns_1 :: "string list" where
  "declared_insns_1 = [
    ''beq'', ''bne'', ''blt'', ''bge'', ''bltu'', ''bgeu'', ''jalr'', ''jal'', ''lui'', ''auipc'',
    ''addi'', ''slli'', ''slti'', ''sltiu'', ''xori'', ''srli'', ''srai'', ''ori'', ''andi'', ''add'',
    ''sub'', ''sll'', ''slt'', ''sltu'', ''xor'', ''srl'', ''sra'', ''or'', ''and'', ''addiw'',
    ''slliw'', ''srliw'', ''sraiw'', ''addw'', ''subw'', ''sllw'', ''srlw'', ''sraw'', ''lb'', ''lh'',
    ''lw'', ''ld'', ''lbu'', ''lhu'', ''lwu'', ''sb'', ''sh'', ''sw'', ''sd'', ''fence'', ''fence_i'',
    ''mul'', ''mulh'', ''mulhsu'', ''mulhu'', ''div'', ''divu'', ''rem'', ''remu'', ''mulw'', ''divw'',
    ''divuw'', ''remw'', ''remuw'', ''amoadd_w'', ''amoxor_w'', ''amoor_w'', ''amoand_w'',
    ''amomin_w'', ''amomax_w'', ''amominu_w'', ''amomaxu_w'', ''amoswap_w'', ''lr_w'', ''sc_w'',
    ''amoadd_d'', ''amoxor_d'', ''amoor_d'', ''amoand_d'', ''amomin_d'', ''amomax_d'', ''amominu_d'',
    ''amomaxu_d'', ''amoswap_d'', ''lr_d'', ''sc_d'', ''ecall'', ''ebreak'', ''uret'', ''sret'',
    ''mret'', ''dret'', ''sfence_vma'', ''wfi'', ''csrrw'', ''csrrs'', ''csrrc'', ''csrrwi'',
    ''csrrsi'', ''csrrci'', ''fadd_s'', ''fsub_s'', ''fmul_s'', ''fdiv_s'', ''fsgnj_s'', ''fsgnjn_s'',
    ''fsgnjx_s'', ''fmin_s'', ''fmax_s'', ''fsqrt_s'', ''fadd_d'', ''fsub_d'', ''fmul_d'', ''fdiv_d'',
    ''fsgnj_d'', ''fsgnjn_d'', ''fsgnjx_d'', ''fmin_d'', ''fmax_d'', ''fcvt_s_d'', ''fcvt_d_s'',
    ''fsqrt_d'', ''fadd_q'', ''fsub_q'', ''fmul_q'', ''fdiv_q'', ''fsgnj_q'', ''fsgnjn_q'',
    ''fsgnjx_q'', ''fmin_q'', ''fmax_q'', ''fcvt_s_q'']"

definition declared_insns_2 :: "string list" where
  "declared_insns_2 = [
    ''fcvt_q_s'', ''fcvt_d_q'', ''fcvt_q_d'', ''fsqrt_q'', ''fle_s'', ''flt_s'', ''feq_s'', ''fle_d'',
    ''flt_d'', ''feq_d'', ''fle_q'', ''flt_q'', ''feq_q'', ''fcvt_w_s'', ''fcvt_wu_s'', ''fcvt_l_s'',
    ''fcvt_lu_s'', ''fmv_x_w'', ''fclass_s'', ''fcvt_w_d'', ''fcvt_wu_d'', ''fcvt_l_d'', ''fcvt_lu_d'',
    ''fmv_x_d'', ''fclass_d'', ''fcvt_w_q'', ''fcvt_wu_q'', ''fcvt_l_q'', ''fcvt_lu_q'', ''fmv_x_q'',
    ''fclass_q'', ''fcvt_s_w'', ''fcvt_s_wu'', ''fcvt_s_l'', ''fcvt_s_lu'', ''fmv_w_x'', ''fcvt_d_w'',
    ''fcvt_d_wu'', ''fcvt_d_l'', ''fcvt_d_lu'', ''fmv_d_x'', ''fcvt_q_w'', ''fcvt_q_wu'', ''fcvt_q_l'',
    ''fcvt_q_lu'', ''fmv_q_x'', ''flw'', ''fld'', ''flq'', ''fsw'', ''fsd'', ''fsq'', ''fmadd_s'',
    ''fmsub_s'', ''fnmsub_s'', ''fnmadd_s'', ''fmadd_d'', ''fmsub_d'', ''fnmsub_d'', ''fnmadd_d'',
    ''fmadd_q'', ''fmsub_q'', ''fnmsub_q'', ''fnmadd_q'', ''c_nop'', ''c_addi16sp'', ''c_jr'',
    ''c_jalr'', ''c_ebreak'', ''c_ld'', ''c_sd'', ''c_addiw'', ''c_ldsp'', ''c_sdsp'', ''c_addi4spn'',
    ''c_fld'', ''c_lw'', ''c_flw'', ''c_fsd'', ''c_sw'', ''c_fsw'', ''c_addi'', ''c_jal'', ''c_li'',
    ''c_lui'', ''c_srli'', ''c_srai'', ''c_andi'', ''c_sub'', ''c_xor'', ''c_or'', ''c_and'',
    ''c_subw'', ''c_addw'', ''c_j'', ''c_beqz'', ''c_bnez'', ''c_slli'', ''c_fldsp'', ''c_lwsp'',
    ''c_flwsp'', ''c_mv'', ''c_add'', ''c_fsdsp'', ''c_swsp'', ''c_fswsp'', ''custom0'',
    ''custom0_rs1'', ''custom0_rs1_rs2'', ''custom0_rd'', ''custom0_rd_rs1'', ''custom0_rd_rs1_rs2'',
    ''custom1'', ''custom1_rs1'', ''custom1_rs1_rs2'', ''custom1_rd'', ''custom1_rd_rs1'',
    ''custom1_rd_rs1_rs2'', ''custom2'', ''custom2_rs1'', ''custom2_rs1_rs2'', ''custom2_rd'',
    ''custom2_rd_rs1'', ''custom2_rd_rs1_rs2'', ''custom3'', ''custom3_rs1'', ''custom3_rs1_rs2'',
    ''custom3_rd'', ''custom3_rd_rs1'', ''custom3_rd_rs1_rs2'']"

definition insn_matches :: "u32 \<Rightarrow> string \<times> u32 \<times> u32 \<Rightarrow> bool" where
  "insn_matches w = (\<lambda>(n, m, c). w AND c = m)"

text \<open>An instruction with the operand bits of \<open>w\<close>.\<close>

definition insn_word :: "string \<times> u32 \<times> u32 \<Rightarrow> u32 \<Rightarrow> u32" where
  "insn_word = (\<lambda>(n, m, c) w. m OR (w AND NOT c))"

section \<open>Numbers of the control and status registers\<close>

definition csrs_user :: "(string \<times> 12 word) list" where
  "csrs_user = [
    (''FFLAGS'', 0x1), (''FRM'', 0x2), (''FCSR'', 0x3), (''CYCLE'', 0xc00), (''TIME'', 0xc01),
    (''INSTRET'', 0xc02), (''HPMCOUNTER3'', 0xc03), (''HPMCOUNTER4'', 0xc04), (''HPMCOUNTER5'', 0xc05),
    (''HPMCOUNTER6'', 0xc06), (''HPMCOUNTER7'', 0xc07), (''HPMCOUNTER8'', 0xc08),
    (''HPMCOUNTER9'', 0xc09), (''HPMCOUNTER10'', 0xc0a), (''HPMCOUNTER11'', 0xc0b),
    (''HPMCOUNTER12'', 0xc0c), (''HPMCOUNTER13'', 0xc0d), (''HPMCOUNTER14'', 0xc0e),
    (''HPMCOUNTER15'', 0xc0f), (''HPMCOUNTER16'', 0xc10), (''HPMCOUNTER17'', 0xc11),
    (''HPMCOUNTER18'', 0xc12), (''HPMCOUNTER19'', 0xc13), (''HPMCOUNTER20'', 0xc14),
    (''HPMCOUNTER21'', 0xc15), (''HPMCOUNTER22'', 0xc16), (''HPMCOUNTER23'', 0xc17),
    (''HPMCOUNTER24'', 0xc18), (''HPMCOUNTER25'', 0xc19), (''HPMCOUNTER26'', 0xc1a),
    (''HPMCOUNTER27'', 0xc1b), (''HPMCOUNTER28'', 0xc1c), (''HPMCOUNTER29'', 0xc1d),
    (''HPMCOUNTER30'', 0xc1e), (''HPMCOUNTER31'', 0xc1f)]"

definition csrs_supervisor :: "(string \<times> 12 word) list" where
  "csrs_supervisor = [
    (''SSTATUS'', 0x100), (''SIE'', 0x104), (''STVEC'', 0x105), (''SCOUNTEREN'', 0x106),
    (''SSCRATCH'', 0x140), (''SEPC'', 0x141), (''SCAUSE'', 0x142), (''STVAL'', 0x143),
    (''SIP'', 0x144), (''SATP'', 0x180)]"

definition csrs_machine :: "(string \<times> 12 word) list" where
  "csrs_machine = [
    (''MSTATUS'', 0x300), (''MISA'', 0x301), (''MEDELEG'', 0x302), (''MIDELEG'', 0x303),
    (''MIE'', 0x304), (''MTVEC'', 0x305), (''MCOUNTEREN'', 0x306), (''MSCRATCH'', 0x340),
    (''MEPC'', 0x341), (''MCAUSE'', 0x342), (''MTVAL'', 0x343), (''MIP'', 0x344), (''PMPCFG0'', 0x3a0),
    (''PMPCFG1'', 0x3a1), (''PMPCFG2'', 0x3a2), (''PMPCFG3'', 0x3a3), (''PMPADDR0'', 0x3b0),
    (''PMPADDR1'', 0x3b1), (''PMPADDR2'', 0x3b2), (''PMPADDR3'', 0x3b3), (''PMPADDR4'', 0x3b4),
    (''PMPADDR5'', 0x3b5), (''PMPADDR6'', 0x3b6), (''PMPADDR7'', 0x3b7), (''PMPADDR8'', 0x3b8),
    (''PMPADDR9'', 0x3b9), (''PMPADDR10'', 0x3ba), (''PMPADDR11'', 0x3bb), (''PMPADDR12'', 0x3bc),
    (''PMPADDR13'', 0x3bd), (''PMPADDR14'', 0x3be), (''PMPADDR15'', 0x3bf), (''TSELECT'', 0x7a0),
    (''TDATA1'', 0x7a1), (''TDATA2'', 0x7a2), (''TDATA3'', 0x7a3), (''DCSR'', 0x7b0), (''DPC'', 0x7b1),
    (''DSCRATCH'', 0x7b2), (''MCYCLE'', 0xb00), (''MINSTRET'', 0xb02), (''MHPMCOUNTER3'', 0xb03),
    (''MHPMCOUNTER4'', 0xb04), (''MHPMCOUNTER5'', 0xb05), (''MHPMCOUNTER6'', 0xb06),
    (''MHPMCOUNTER7'', 0xb07), (''MHPMCOUNTER8'', 0xb08), (''MHPMCOUNTER9'', 0xb09),
    (''MHPMCOUNTER10'', 0xb0a), (''MHPMCOUNTER11'', 0xb0b), (''MHPMCOUNTER12'', 0xb0c),
    (''MHPMCOUNTER13'', 0xb0d), (''MHPMCOUNTER14'', 0xb0e), (''MHPMCOUNTER15'', 0xb0f),
    (''MHPMCOUNTER16'', 0xb10), (''MHPMCOUNTER17'', 0xb11), (''MHPMCOUNTER18'', 0xb12),
    (''MHPMCOUNTER19'', 0xb13), (''MHPMCOUNTER20'', 0xb14), (''MHPMCOUNTER21'', 0xb15),
    (''MHPMCOUNTER22'', 0xb16), (''MHPMCOUNTER23'', 0xb17), (''MHPMCOUNTER24'', 0xb18),
    (''MHPMCOUNTER25'', 0xb19), (''MHPMCOUNTER26'', 0xb1a), (''MHPMCOUNTER27'', 0xb1b),
    (''MHPMCOUNTER28'', 0xb1c), (''MHPMCOUNTER29'', 0xb1d), (''MHPMCOUNTER30'', 0xb1e),
    (''MHPMCOUNTER31'', 0xb1f), (''MHPMEVENT3'', 0x323), (''MHPMEVENT4'', 0x324),
    (''MHPMEVENT5'', 0x325), (''MHPMEVENT6'', 0x326), (''MHPMEVENT7'', 0x327), (''MHPMEVENT8'', 0x328),
    (''MHPMEVENT9'', 0x329), (''MHPMEVENT10'', 0x32a), (''MHPMEVENT11'', 0x32b),
    (''MHPMEVENT12'', 0x32c), (''MHPMEVENT13'', 0x32d), (''MHPMEVENT14'', 0x32e),
    (''MHPMEVENT15'', 0x32f), (''MHPMEVENT16'', 0x330), (''MHPMEVENT17'', 0x331),
    (''MHPMEVENT18'', 0x332), (''MHPMEVENT19'', 0x333), (''MHPMEVENT20'', 0x334),
    (''MHPMEVENT21'', 0x335), (''MHPMEVENT22'', 0x336), (''MHPMEVENT23'', 0x337),
    (''MHPMEVENT24'', 0x338), (''MHPMEVENT25'', 0x339), (''MHPMEVENT26'', 0x33a),
    (''MHPMEVENT27'', 0x33b), (''MHPMEVENT28'', 0x33c), (''MHPMEVENT29'', 0x33d),
    (''MHPMEVENT30'', 0x33e), (''MHPMEVENT31'', 0x33f), (''MVENDORID'', 0xf11), (''MARCHID'', 0xf12),
    (''MIMPID'', 0xf13), (''MHARTID'', 0xf14)]"

definition csrs_high :: "(string \<times> 12 word) list" where
  "csrs_high = [
    (''CYCLEH'', 0xc80), (''TIMEH'', 0xc81), (''INSTRETH'', 0xc82), (''HPMCOUNTER3H'', 0xc83),
    (''HPMCOUNTER4H'', 0xc84), (''HPMCOUNTER5H'', 0xc85), (''HPMCOUNTER6H'', 0xc86),
    (''HPMCOUNTER7H'', 0xc87), (''HPMCOUNTER8H'', 0xc88), (''HPMCOUNTER9H'', 0xc89),
    (''HPMCOUNTER10H'', 0xc8a), (''HPMCOUNTER11H'', 0xc8b), (''HPMCOUNTER12H'', 0xc8c),
    (''HPMCOUNTER13H'', 0xc8d), (''HPMCOUNTER14H'', 0xc8e), (''HPMCOUNTER15H'', 0xc8f),
    (''HPMCOUNTER16H'', 0xc90), (''HPMCOUNTER17H'', 0xc91), (''HPMCOUNTER18H'', 0xc92),
    (''HPMCOUNTER19H'', 0xc93), (''HPMCOUNTER20H'', 0xc94), (''HPMCOUNTER21H'', 0xc95),
    (''HPMCOUNTER22H'', 0xc96), (''HPMCOUNTER23H'', 0xc97), (''HPMCOUNTER24H'', 0xc98),
    (''HPMCOUNTER25H'', 0xc99), (''HPMCOUNTER26H'', 0xc9a), (''HPMCOUNTER27H'', 0xc9b),
    (''HPMCOUNTER28H'', 0xc9c), (''HPMCOUNTER29H'', 0xc9d), (''HPMCOUNTER30H'', 0xc9e),
    (''HPMCOUNTER31H'', 0xc9f), (''MCYCLEH'', 0xb80), (''MINSTRETH'', 0xb82),
    (''MHPMCOUNTER3H'', 0xb83), (''MHPMCOUNTER4H'', 0xb84), (''MHPMCOUNTER5H'', 0xb85),
    (''MHPMCOUNTER6H'', 0xb86), (''MHPMCOUNTER7H'', 0xb87), (''MHPMCOUNTER8H'', 0xb88),
    (''MHPMCOUNTER9H'', 0xb89), (''MHPMCOUNTER10H'', 0xb8a), (''MHPMCOUNTER11H'', 0xb8b),
    (''MHPMCOUNTER12H'', 0xb8c), (''MHPMCOUNTER13H'', 0xb8d), (''MHPMCOUNTER14H'', 0xb8e),
    (''MHPMCOUNTER15H'', 0xb8f), (''MHPMCOUNTER16H'', 0xb90), (''MHPMCOUNTER17H'', 0xb91),
    (''MHPMCOUNTER18H'', 0xb92), (''MHPMCOUNTER19H'', 0xb93), (''MHPMCOUNTER20H'', 0xb94),
    (''MHPMCOUNTER21H'', 0xb95), (''MHPMCOUNTER22H'', 0xb96), (''MHPMCOUNTER23H'', 0xb97),
    (''MHPMCOUNTER24H'', 0xb98), (''MHPMCOUNTER25H'', 0xb99), (''MHPMCOUNTER26H'', 0xb9a),
    (''MHPMCOUNTER27H'', 0xb9b), (''MHPMCOUNTER28H'', 0xb9c), (''MHPMCOUNTER29H'', 0xb9d),
    (''MHPMCOUNTER30H'', 0xb9e), (''MHPMCOUNTER31H'', 0xb9f)]"

definition csr_table :: "(string \<times> 12 word) list" where
  "csr_table = csrs_user @ csrs_supervisor @ csrs_machine @ csrs_high"

definition declared_csrs_1 :: "string list" where
  "declared_csrs_1 = [
    ''fflags'', ''frm'', ''fcsr'', ''cycle'', ''time'', ''instret'', ''hpmcounter3'', ''hpmcounter4'',
    ''hpmcounter5'', ''hpmcounter6'', ''hpmcounter7'', ''hpmcounter8'', ''hpmcounter9'',
    ''hpmcounter10'', ''hpmcounter11'', ''hpmcounter12'', ''hpmcounter13'', ''hpmcounter14'',
    ''hpmcounter15'', ''hpmcounter16'', ''hpmcounter17'', ''hpmcounter18'', ''hpmcounter19'',
    ''hpmcounter20'', ''hpmcounter21'', ''hpmcounter22'', ''hpmcounter23'', ''hpmcounter24'',
    ''hpmcounter25'', ''hpmcounter26'', ''hpmcounter27'', ''hpmcounter28'', ''hpmcounter29'',
    ''hpmcounter30'', ''hpmcounter31'', ''sstatus'', ''sie'', ''stvec'', ''scounteren'', ''sscratch'',
    ''sepc'', ''scause'', ''stval'', ''sip'', ''satp'', ''mstatus'', ''misa'', ''medeleg'',
    ''mideleg'', ''mie'', ''mtvec'', ''mcounteren'', ''mscratch'', ''mepc'', ''mcause'', ''mtval'',
    ''mip'', ''pmpcfg0'', ''pmpcfg1'', ''pmpcfg2'', ''pmpcfg3'', ''pmpaddr0'', ''pmpaddr1'',
    ''pmpaddr2'', ''pmpaddr3'', ''pmpaddr4'', ''pmpaddr5'', ''pmpaddr6'', ''pmpaddr7'', ''pmpaddr8'',
    ''pmpaddr9'', ''pmpaddr10'', ''pmpaddr11'', ''pmpaddr12'', ''pmpaddr13'', ''pmpaddr14'',
    ''pmpaddr15'', ''tselect'', ''tdata1'', ''tdata2'', ''tdata3'', ''dcsr'', ''dpc'', ''dscratch'',
    ''mcycle'', ''minstret'', ''mhpmcounter3'', ''mhpmcounter4'', ''mhpmcounter5'', ''mhpmcounter6'',
    ''mhpmcounter7'', ''mhpmcounter8'', ''mhpmcounter9'', ''mhpmcounter10'', ''mhpmcounter11'',
    ''mhpmcounter12'', ''mhpmcounter13'', ''mhpmcounter14'', ''mhpmcounter15'', ''mhpmcounter16'',
    ''mhpmcounter17'', ''mhpmcounter18'', ''mhpmcounter19'', ''mhpmcounter20'', ''mhpmcounter21'',
    ''mhpmcounter22'', ''mhpmcounter23'', ''mhpmcounter24'', ''mhpmcounter25'', ''mhpmcounter26'',
    ''mhpmcounter27'', ''mhpmcounter28'', ''mhpmcounter29'', ''mhpmcounter30'', ''mhpmcounter31'',
    ''mhpmevent3'', ''mhpmevent4'', ''mhpmevent5'', ''mhpmevent6'', ''mhpmevent7'', ''mhpmevent8'',
    ''mhpmevent9'', ''mhpmevent10'', ''mhpmevent11'', ''mhpmevent12'', ''mhpmevent13'',
    ''mhpmevent14'', ''mhpmevent15'', ''mhpmevent16'', ''mhpmevent17'', ''mhpmevent18'',
    ''mhpmevent19'', ''mhpmevent20'', ''mhpmevent21'', ''mhpmevent22'', ''mhpmevent23'',
    ''mhpmevent24'', ''mhpmevent25'', ''mhpmevent26'', ''mhpmevent27'', ''mhpmevent28'',
    ''mhpmevent29'', ''mhpmevent30'', ''mhpmevent31'', ''mvendorid'', ''marchid'', ''mimpid'',
    ''mhartid'']"

definition declared_csrs_2 :: "string list" where
  "declared_csrs_2 = [
    ''cycleh'', ''timeh'', ''instreth'', ''hpmcounter3h'', ''hpmcounter4h'', ''hpmcounter5h'',
    ''hpmcounter6h'', ''hpmcounter7h'', ''hpmcounter8h'', ''hpmcounter9h'', ''hpmcounter10h'',
    ''hpmcounter11h'', ''hpmcounter12h'', ''hpmcounter13h'', ''hpmcounter14h'', ''hpmcounter15h'',
    ''hpmcounter16h'', ''hpmcounter17h'', ''hpmcounter18h'', ''hpmcounter19h'', ''hpmcounter20h'',
    ''hpmcounter21h'', ''hpmcounter22h'', ''hpmcounter23h'', ''hpmcounter24h'', ''hpmcounter25h'',
    ''hpmcounter26h'', ''hpmcounter27h'', ''hpmcounter28h'', ''hpmcounter29h'', ''hpmcounter30h'',
    ''hpmcounter31h'', ''mcycleh'', ''minstreth'', ''mhpmcounter3h'', ''mhpmcounter4h'',
    ''mhpmcounter5h'', ''mhpmcounter6h'', ''mhpmcounter7h'', ''mhpmcounter8h'', ''mhpmcounter9h'',
    ''mhpmcounter10h'', ''mhpmcounter11h'', ''mhpmcounter12h'', ''mhpmcounter13h'', ''mhpmcounter14h'',
    ''mhpmcounter15h'', ''mhpmcounter16h'', ''mhpmcounter17h'', ''mhpmcounter18h'', ''mhpmcounter19h'',
    ''mhpmcounter20h'', ''mhpmcounter21h'', ''mhpmcounter22h'', ''mhpmcounter23h'', ''mhpmcounter24h'',
    ''mhpmcounter25h'', ''mhpmcounter26h'', ''mhpmcounter27h'', ''mhpmcounter28h'', ''mhpmcounter29h'',
    ''mhpmcounter30h'', ''mhpmcounter31h'']"

section \<open>Trap causes\<close>

definition causes :: "(string \<times> u32) list" where
  "causes = [
    (''MISALIGNED_FETCH'', 0x0), (''FETCH_ACCESS'', 0x1), (''ILLEGAL_INSTRUCTION'', 0x2),
    (''BREAKPOINT'', 0x3), (''MISALIGNED_LOAD'', 0x4), (''LOAD_ACCESS'', 0x5),
    (''MISALIGNED_STORE'', 0x6), (''STORE_ACCESS'', 0x7), (''USER_ECALL'', 0x8),
    (''SUPERVISOR_ECALL'', 0x9), (''HYPERVISOR_ECALL'', 0xa), (''MACHINE_ECALL'', 0xb),
    (''FETCH_PAGE_FAULT'', 0xc), (''LOAD_PAGE_FAULT'', 0xd), (''STORE_PAGE_FAULT'', 0xf)]"

definition declared_causes :: "(string \<times> string) list" where
  "declared_causes = [
    (''misaligned fetch'', ''MISALIGNED_FETCH''), (''fetch access'', ''FETCH_ACCESS''),
    (''illegal instruction'', ''ILLEGAL_INSTRUCTION''), (''breakpoint'', ''BREAKPOINT''),
    (''misaligned load'', ''MISALIGNED_LOAD''), (''load access'', ''LOAD_ACCESS''),
    (''misaligned store'', ''MISALIGNED_STORE''), (''store access'', ''STORE_ACCESS''),
    (''user_ecall'', ''USER_ECALL''), (''supervisor_ecall'', ''SUPERVISOR_ECALL''),
    (''hypervisor_ecall'', ''HYPERVISOR_ECALL''), (''machine_ecall'', ''MACHINE_ECALL''),
    (''fetch page fault'', ''FETCH_PAGE_FAULT''), (''load page fault'', ''LOAD_PAGE_FAULT''),
    (''store page fault'', ''STORE_PAGE_FAULT'')]"

end
