(* ===== verification/Encoding_Correct.thy ===== *)
theory Encoding_Correct
  imports Encoding
begin

text \<open>
  The tables of \<open>encoding.h\<close> are consistent. The main result is that no word is two instructions at once
  (16-bit encodings, which overlap between register widths, aside). It rests on a decision tree over the
  instruction bits, \<open>separated\<close>, that is proved sound here and then evaluated on the table.
\<close>

section \<open>Decision trees\<close>

text \<open>
  \<open>separated ks ts\<close>: branching on the bits \<open>ks\<close> in turn leaves at most one pattern in every leaf. A
  pattern that ignores the bit goes into both branches; a bit that all ignore is skipped.
\<close>

fun separated :: "nat list \<Rightarrow> (u32 \<times> u32) list \<Rightarrow> bool" where
  "separated [] ts = (length ts \<le> 1)"
| "separated (k # ks) ts = (case ts of [] \<Rightarrow> True | [_] \<Rightarrow> True | _ \<Rightarrow>
     (if list_all (\<lambda>(m, c). \<not> bit c k) ts then separated ks ts
      else separated ks (filter (\<lambda>(m, c). bit c k \<longrightarrow> bit m k) ts)
        \<and> separated ks (filter (\<lambda>(m, c). bit c k \<longrightarrow> \<not> bit m k) ts)))"

definition pattern_matches :: "u32 \<Rightarrow> u32 \<times> u32 \<Rightarrow> bool" where
  "pattern_matches w = (\<lambda>(m, c). w AND c = m)"

lemma pattern_bit: "pattern_matches w (m, c) \<Longrightarrow> bit c k \<Longrightarrow> bit m k = bit w k"
  by (auto simp: pattern_matches_def bit_and_iff)

lemma filter_keeps_matching:
  assumes "\<And>t. t \<in> set ts \<Longrightarrow> pattern_matches w t \<Longrightarrow> Q t"
  shows "filter (pattern_matches w) (filter Q ts) = filter (pattern_matches w) ts"
  using assms by (induction ts) auto

lemma separated_sound: "separated ks ts \<Longrightarrow> length (filter (pattern_matches w) ts) \<le> 1"
proof (induction ks ts rule: separated.induct)
  case (1 ts)
  then show ?case using order_trans [OF length_filter_le [of "pattern_matches w" ts]] by simp
next
  case (2 k ks ts)
  let ?one = "\<lambda>(m, c). bit c k \<longrightarrow> bit m k" and ?zero = "\<lambda>(m, c). bit c k \<longrightarrow> \<not> bit m k"
  consider "length ts \<le> 1" | "list_all (\<lambda>(m, c). \<not> bit c k) ts" "separated ks ts" "1 < length ts"
    | "\<not> list_all (\<lambda>(m, c). \<not> bit c k) ts" "separated ks (filter ?one ts)" "separated ks (filter ?zero ts)"
      "1 < length ts"
    using 2(4) by (auto split: list.splits if_splits)
  then show ?case
  proof cases
    case 1
    then show ?thesis using length_filter_le [of "pattern_matches w" ts] by linarith
  next
    case 2
    then obtain a b us where "ts = a # b # us" by (cases ts; cases "tl ts") auto
    with 2 "2.IH"(1) show ?thesis by blast
  next
    case 3
    then obtain a b us where ts: "ts = a # b # us" by (cases ts; cases "tl ts") auto
    show ?thesis
    proof (cases "bit w k")
      case True
      have "filter (pattern_matches w) (filter ?one ts) = filter (pattern_matches w) ts"
        by (rule filter_keeps_matching) (use True pattern_bit in auto)
      with "2.IH"(2) [OF ts refl 3(1,2)] show ?thesis by (simp only:)
    next
      case False
      have "filter (pattern_matches w) (filter ?zero ts) = filter (pattern_matches w) ts"
        by (rule filter_keeps_matching) (use False pattern_bit in auto)
      with "2.IH"(3) [OF ts refl 3(1,3)] show ?thesis by (simp only:)
    qed
  qed
qed

section \<open>The instruction table\<close>

definition wide_insns :: "(string \<times> u32 \<times> u32) list" where
  "wide_insns = insns_integer @ insns_muldiv_atomic @ insns_system @ insns_float @ insns_float_conv @ insns_custom"

text \<open>Operation code, the function fields, then the register fields.\<close>

definition insn_bits :: "nat list" where
  "insn_bits = [2, 3, 4, 5, 6, 25, 26, 27, 28, 29, 30, 31, 12, 13, 14, 20, 21, 22, 23, 24, 15, 16, 17, 18, 19,
     7, 8, 9, 10, 11]"

lemma wide_insns_separated: "separated insn_bits (map snd wide_insns)"
  by code_simp

lemma wide_insns_shape: "list_all (\<lambda>(n, m, c). m AND c = m \<and> m AND 3 = 3 \<and> c AND 3 = 3) wide_insns"
  by code_simp

lemma compressed_shape: "list_all (\<lambda>(n, m, c). m AND c = m \<and> m AND 3 \<noteq> 3 \<and> c AND 3 = 3) insns_compressed"
  by code_simp

text \<open>Every word matches at most one wide instruction, and a wide word no compressed one.\<close>

lemma wide_insns_unique: "length (filter (insn_matches w) wide_insns) \<le> 1"
proof -
  have "insn_matches w = pattern_matches w \<circ> snd"
    by (auto simp: insn_matches_def pattern_matches_def fun_eq_iff)
  then have "map snd (filter (insn_matches w) wide_insns) = filter (pattern_matches w) (map snd wide_insns)"
    by (simp add: filter_map)
  then show ?thesis
    using separated_sound [OF wide_insns_separated, of w] by (metis length_map)
qed

lemma compressed_not_wide:
  assumes "w AND 3 = 3"
  shows "filter (insn_matches w) insns_compressed = []"
proof -
  have "\<not> insn_matches w t" if "t \<in> set insns_compressed" for t
  proof
    assume "insn_matches w t"
    obtain n m c where t: "t = (n, m, c)" by (cases t)
    have "m AND 3 \<noteq> 3" "c AND 3 = 3" using compressed_shape that unfolding list_all_iff t by auto
    moreover have "w AND c = m" using \<open>insn_matches w t\<close> t by (simp add: insn_matches_def)
    ultimately show False using assms by (metis and.assoc and.commute)
  qed
  then show ?thesis by (simp add: filter_empty_conv)
qed

lemma filter_insn_table:
  assumes "w AND 3 = 3"
  shows "filter (insn_matches w) insn_table = filter (insn_matches w) wide_insns"
  using compressed_not_wide [OF assms] by (simp add: insn_table_def wide_insns_def)

lemma insn_word_matches:
  assumes "e \<in> set wide_insns"
  shows "insn_matches (insn_word e w) e" and "insn_word e w AND 3 = 3"
proof -
  obtain n m c where e: "e = (n, m, c)" by (cases e)
  have s: "m AND c = m" "m AND 3 = 3" "c AND 3 = 3" using wide_insns_shape assms unfolding list_all_iff e by auto
  have c: "(m OR (w AND NOT c)) AND c = m AND c" by (rule bit_word_eqI) (auto simp: bit_simps)
  then show "insn_matches (insn_word e w) e" using s by (simp add: e insn_matches_def insn_word_def)
  have "(m OR (w AND NOT c)) AND 3 = (m OR (w AND NOT c)) AND (c AND 3)" using s(3) by simp
  also have "\<dots> = (m AND c) AND 3" using c by (simp only: and.assoc [symmetric])
  also have "\<dots> = 3" using s(1,2) by simp
  finally show "insn_word e w AND 3 = 3" by (simp add: e insn_word_def)
qed

lemma filter_singleton: "x \<in> set xs \<Longrightarrow> P x \<Longrightarrow> length (filter P xs) \<le> 1 \<Longrightarrow> filter P xs = [x]"
proof -
  assume "x \<in> set xs" and "P x" and l: "length (filter P xs) \<le> 1"
  then have "x \<in> set (filter P xs)" by simp
  with l show ?thesis by (cases "filter P xs"; cases "tl (filter P xs)") (simp_all del: filter_empty_conv)
qed

section \<open>Names\<close>

text \<open>The lists handed to the declaring macros are those of the definitions, in the same order.\<close>

fun lower :: "char \<Rightarrow> char" where
  "lower (Char b0 b1 b2 b3 b4 b5 b6 b7) =
     Char b0 b1 b2 b3 b4 (b5 \<or> b6 \<and> \<not> (b0 \<and> b1 \<and> b2 \<and> b3 \<and> b4)) b6 b7"

lemma declared_insns: "map (map lower \<circ> fst) insn_table = declared_insns_1 @ declared_insns_2"
  by code_simp

lemma declared_csrs: "map (map lower \<circ> fst) csr_table = declared_csrs_1 @ declared_csrs_2"
  by code_simp

lemma declared_causes: "map snd declared_causes = map fst causes"
  by code_simp

lemma csr_numbers_distinct: "distinct (map snd csr_table)"
  by code_simp

section \<open>Fields\<close>

fun disjoint_masks :: "u64 list \<Rightarrow> bool" where
  "disjoint_masks [] = True"
| "disjoint_masks (m # ms) = (m \<noteq> 0 \<and> list_all (\<lambda>k. m AND k = 0) ms \<and> disjoint_masks ms)"

lemma fields_disjoint:
  "disjoint_masks (mstatus32_sd # map snd mstatus_fields)"
  "disjoint_masks (map snd (mstatus_fields @ mstatus64_fields))"
  "disjoint_masks (map snd dcsr_fields)" "disjoint_masks (map snd (mcontrol_high 32 @ mcontrol_fields))"
  "disjoint_masks (map snd (mcontrol_high 64 @ mcontrol_fields))"
  "disjoint_masks (map snd pmp_fields)" "disjoint_masks (map snd pte_fields)"
  "disjoint_masks (map snd satp32_fields)" "disjoint_masks (map snd satp64_fields)"
  by code_simp+

lemma satp_covers: "fold (OR) (map snd satp32_fields) 0 = 0xFFFFFFFF" "fold (OR) (map snd satp64_fields) 0 = - 1"
  by code_simp+

lemma sstatus_is_mstatus: "list_all (\<lambda>(n, m). map_of mstatus_fields n = Some m) sstatus_fields"
  by code_simp

section \<open>Properties\<close>

text \<open>
  C25: Every uncompressed instruction of the table, with whatever operand bits, is recognised as itself
  and as no other entry of the table.
\<close>

theorem insn_roundtrip:
  assumes "e \<in> set wide_insns"
  shows "filter (insn_matches (insn_word e w)) insn_table = [e]"
  unfolding filter_insn_table [OF insn_word_matches(2) [OF assms]]
  by (rule filter_singleton [OF assms insn_word_matches(1) [OF assms] wide_insns_unique])

theorem insn_roundtrip_witness:
  "filter (insn_matches (insn_word (''JAL'', 0x6f, 0x7f) 0xFFDFF0EF)) insn_table = [(''JAL'', 0x6f, 0x7f)]"
proof (rule insn_roundtrip)
  show "(''JAL'', 0x6f, 0x7f) \<in> set wide_insns" by (simp add: wide_insns_def insns_integer_def)
qed

text \<open>
  The functions of \<open>uv_irq.h\<close> are the set and clear macros on the register numbers of \<open>mstatus\<close> and
  \<open>mie\<close>, with the bits of this header.
\<close>

definition core_csr_of :: "csr_file \<Rightarrow> core_csr" where
  "core_csr_of f = \<lparr>mstatus = read_csr 0x300 f, mie = read_csr 0x304 f\<rparr>"

lemma csr_bits:
  "map_of csr_table ''MSTATUS'' = Some 0x300" "map_of csr_table ''MIE'' = Some 0x304"
  "map_of mstatus_fields ''MIE'' = Some (ucast MSTATUS_MIE)"
  "mip_bit ''M_SOFT'' = Some MIP_MSIP" "mip_bit ''M_TIMER'' = Some MIP_MTIP" "mip_bit ''M_EXT'' = Some MIP_MEIP"
  by code_simp+

lemma irq_functions_are_csr:
  "core_csr_of (snd (set_csr 0x300 MSTATUS_MIE f)) = uv_enable_glb_irq (core_csr_of f)
   \<and> core_csr_of (snd (clear_csr 0x300 MSTATUS_MIE f)) = uv_disable_glb_irq (core_csr_of f)
   \<and> core_csr_of (snd (set_csr 0x304 MIP_MTIP f)) = uv_enable_tmr_irq (core_csr_of f)
   \<and> core_csr_of (snd (clear_csr 0x304 MIP_MTIP f)) = uv_disable_tmr_irq (core_csr_of f)
   \<and> core_csr_of (snd (set_csr 0x304 MIP_MSIP f)) = uv_enable_sft_irq (core_csr_of f)
   \<and> core_csr_of (snd (clear_csr 0x304 MIP_MSIP f)) = uv_disable_sft_irq (core_csr_of f)
   \<and> core_csr_of (snd (set_csr 0x304 MIP_MEIP f)) = uv_enable_ext_irq (core_csr_of f)
   \<and> core_csr_of (snd (clear_csr 0x304 MIP_MEIP f)) = uv_disable_ext_irq (core_csr_of f)"
  by (simp add: core_csr_of_def read_csr_def set_csr_def clear_csr_def uv_enable_glb_irq_def uv_disable_glb_irq_def
      uv_enable_tmr_irq_def uv_disable_tmr_irq_def uv_enable_sft_irq_def uv_disable_sft_irq_def
      uv_enable_ext_irq_def uv_disable_ext_irq_def)

end
