(* ===== verification/Test_Apps.thy ===== *)
theory Test_Apps
  imports Arrays Libc_Stubs
begin

text \<open>
  The small applications under \<open>software/app\<close>: \<open>HelloWorld\<close>, \<open>TestTimer\<close>, \<open>TestUART\<close> and \<open>TestSPI\<close>.
  A test consists of a main program and an interrupt handler that share variables. Both are given as
  state transformers of the machine; a step relation interleaves them: an interrupt is taken between two
  statements of the main program, while its waiting loop lets the hardware move on. A transformer without
  a value (a write past the buffer) has no step.
\<close>

section \<open>HelloWorld\<close>

text \<open>\<open>2.35f\<close> is converted to \<open>double\<close> when it is passed; its bits.\<close>

definition hello_main :: "fp_ops \<Rightarrow> soc \<Rightarrow> soc option" where
  "hello_main fp m = do {
     let ival = 0x235;
     let fval = 0x4002CCCCC0000000;
     run_prints fp [(''Hello, U%x!'' @ [CHR 0x0A], [VInt ival]), (''Hello, U%.2f!'' @ [CHR 0x0A], [VDouble fval])] m }"

section \<open>TestTimer\<close>

definition LOOP_CYC :: u64 where "LOOP_CYC = 10000"
definition LOOP_NUM :: nat where "LOOP_NUM = 10"

definition timer_setup :: "fp_ops \<Rightarrow> core_csr \<times> soc \<Rightarrow> (core_csr \<times> soc) option" where
  "timer_setup fp = (\<lambda>(c, m). do {
     let auto_clr = True;
     let clk_div = 0;
     let tmr_cmp = LOOP_CYC;
     let c = uv_enable_glb_irq c;
     let c = uv_enable_tmr_irq c;
     m \<leftarrow> uv_tmr_init auto_clr clk_div tmr_cmp m;
     m \<leftarrow> run_prints fp [(''Timer started with auto clearing.'' @ [CHR 0x0A], [])] m;
     m \<leftarrow> uv_tmr_start m;
     Some (c, m) })"

definition timer_finish :: "fp_ops \<Rightarrow> soc \<Rightarrow> soc option" where
  "timer_finish fp m = do {
     m \<leftarrow> uv_tmr_stop m;
     (tmr_val, m) \<leftarrow> uv_tmr_get_val m;
     run_prints fp [(''Timer stopped at %d.'' @ [CHR 0x0A], [VInt (ucast tmr_val)])] m }"

text \<open>Where the main program is: before, inside or behind the waiting loop of round \<open>i\<close>, or at the end.\<close>

datatype timer_pc = Clearing nat | Spinning nat | Printing nat | Stopped

text \<open>\<open>taken\<close> counts the interrupts, for the statements about the test.\<close>

record timer_test =
  tmr_irq_trig :: bool
  taken :: nat

definition timer_irq :: "timer_test \<Rightarrow> timer_test" where
  "timer_irq t = t\<lparr>tmr_irq_trig := True, taken := Suc (taken t)\<rparr>"

inductive timer_step ::
  "fp_ops \<Rightarrow> timer_pc \<times> timer_test \<times> soc \<Rightarrow> timer_pc \<times> timer_test \<times> soc \<Rightarrow> bool" for fp where
  clear: "i < LOOP_NUM \<Longrightarrow> timer_step fp (Clearing i, t, m) (Spinning i, t\<lparr>tmr_irq_trig := False\<rparr>, m)"
| spin: "\<not> tmr_irq_trig t \<Longrightarrow> timer_step fp (Spinning i, t, m) (Spinning i, t, sync m)"
| leave: "tmr_irq_trig t \<Longrightarrow> timer_step fp (Spinning i, t, m) (Printing i, t, m)"
| report: "run_prints fp [(''> Loop %d...'' @ [CHR 0x0A], [VInt (of_nat i)])] m = Some m'
    \<Longrightarrow> timer_step fp (Printing i, t, m) (Clearing (Suc i), t, m')"
| finish: "\<not> i < LOOP_NUM \<Longrightarrow> timer_finish fp m = Some m' \<Longrightarrow> timer_step fp (Clearing i, t, m) (Stopped, t, m')"
| irq: "pc \<noteq> Stopped \<Longrightarrow> timer_step fp (pc, t, m) (pc, timer_irq t, m)"

section \<open>The echo tests\<close>

text \<open>
  \<open>TestUART\<close> and \<open>TestSPI\<close> send numbered units and compare what the handler received. \<open>data_buf\<close> holds
  the sent units in its first half and the received ones in its second half.
\<close>

definition TEST_NUM :: nat where "TEST_NUM = 16"

record 'a echo_test =
  data_buf :: "'a list"
  recv_cnt :: u32
  data_unit :: 'a

definition send_buf :: "'a echo_test \<Rightarrow> 'a list" where
  "send_buf t = take TEST_NUM (data_buf t)"

definition recv_buf :: "'a echo_test \<Rightarrow> 'a list" where
  "recv_buf t = drop TEST_NUM (data_buf t)"

text \<open>
  The body both handlers share: claim the interrupt, read the pending bits, receive as many units as the
  queue holds behind the ones received before, complete the interrupt.
\<close>

definition echo_irq :: "(ser_sel \<Rightarrow> soc \<Rightarrow> (u32 \<times> soc) option) \<Rightarrow> ('a list \<Rightarrow> nat \<Rightarrow> soc \<Rightarrow> ('a list \<times> soc) option)
    \<Rightarrow> u32 \<Rightarrow> fp_ops \<Rightarrow> 'a echo_test \<times> soc \<Rightarrow> ('a echo_test \<times> soc) option" where
  "echo_irq ld recv irq fp = (\<lambda>(t, m). do {
     (ext_irq, m) \<leftarrow> load_word REG_IRQ_CLAIM m;
     (ip, m) \<leftarrow> ld Irq_pend m;
     (t, m) \<leftarrow>
       (if ext_irq = irq \<and> ip AND UART_RX_IRQ_MASK \<noteq> 0 then do {
          (rx_len, m) \<leftarrow> ld Rxq_len m;
          (buf, m) \<leftarrow> recv (drop (unat (recv_cnt t)) (recv_buf t)) (unat rx_len) m;
          Some (t\<lparr>data_buf := take (TEST_NUM + unat (recv_cnt t)) (data_buf t) @ buf, recv_cnt := recv_cnt t + rx_len\<rparr>, m) }
        else do {
          m \<leftarrow> run_prints fp [(''Unexpected EXT IRQ: %d'' @ [CHR 0x0A], [VInt ext_irq])] m;
          Some (t, m) });
     m \<leftarrow> store_word REG_IRQ_CLAIM ext_irq m;
     Some (t, m) })"

definition uart_handle_ext_irq :: "fp_ops \<Rightarrow> u8 echo_test \<times> soc \<Rightarrow> (u8 echo_test \<times> soc) option" where
  "uart_handle_ext_irq = echo_irq ld_uart uv_uart_recv_data UART_IRQ"

definition spi_handle_ext_irq :: "fp_ops \<Rightarrow> u32 echo_test \<times> soc \<Rightarrow> (u32 echo_test \<times> soc) option" where
  "spi_handle_ext_irq = echo_irq (ld_port 0) (uv_spi_recv_words 0) SPI0_IRQ"

text \<open>One round of the sending loops.\<close>

definition uart_send_round :: "nat \<Rightarrow> u8 echo_test \<times> soc \<Rightarrow> (u8 echo_test \<times> soc) option" where
  "uart_send_round i = (\<lambda>(t, m). do {
     let data_byte = data_unit t + 1;
     m \<leftarrow> uv_uart_send_data [data_byte] 1 m;
     buf \<leftarrow> wr (data_buf t) i data_byte;
     Some (t\<lparr>data_buf := buf, data_unit := data_byte\<rparr>, m) })"

definition spi_send_round :: "nat \<Rightarrow> u32 echo_test \<times> soc \<Rightarrow> (u32 echo_test \<times> soc) option" where
  "spi_send_round i = (\<lambda>(t, m). do {
     let data_word = data_unit t;
     m \<leftarrow> uv_spi_send_words 0 [data_word] 1 m;
     buf \<leftarrow> wr (data_buf t) i data_word;
     let data_word = push_bit 1 data_word;
     Some (t\<lparr>data_buf := buf, data_unit := (if data_word = 0 then 1 else data_word)\<rparr>, m) })"

definition uart_setup :: "fp_ops \<Rightarrow> core_csr \<times> soc \<Rightarrow> (core_csr \<times> soc) option" where
  "uart_setup fp = (\<lambda>(c, m). do {
     let irq_priority = 7;
     let irq_trigger = 0;
     m \<leftarrow> uv_uart_init True True 115200 m;
     m \<leftarrow> run_prints fp [(''UART config done!'' @ [CHR 0x0A], [])] m;
     let c = uv_enable_glb_irq c;
     let c = uv_enable_ext_irq c;
     m \<leftarrow> uv_config_ext_irq UART_IRQ irq_priority irq_trigger m;
     m \<leftarrow> uv_set_target_threshold 0 m;
     m \<leftarrow> SET_EXT_IE UART_IRQ m;
     m \<leftarrow> st_uart Rx_irq_th 4 m;
     m \<leftarrow> st_uart Irq_en 0x2 m;
     m \<leftarrow> run_prints fp [(''IRQs config done!'' @ [CHR 0x0A], [])] m;
     Some (c, m) })"

definition spi_setup :: "fp_ops \<Rightarrow> core_csr \<times> soc \<Rightarrow> (core_csr \<times> soc) option" where
  "spi_setup fp = (\<lambda>(c, m). do {
     let irq_priority = 7;
     let irq_trigger = 0;
     let cfg = \<lparr>cpol = 0, cpha = 0, endian = 0, unit_len = 31, sck_dly = 4, clk_div = 4\<rparr>;
     m \<leftarrow> uv_spi_init 0 0x1 True cfg m;
     m \<leftarrow> run_prints fp [(''SPI0 config done!'' @ [CHR 0x0A], [])] m;
     let c = uv_enable_glb_irq c;
     let c = uv_enable_ext_irq c;
     m \<leftarrow> uv_config_ext_irq SPI0_IRQ irq_priority irq_trigger m;
     m \<leftarrow> uv_set_target_threshold 0 m;
     m \<leftarrow> SET_EXT_IE SPI0_IRQ m;
     m \<leftarrow> uv_spi_set_rx_irq 0 True 4 m;
     m \<leftarrow> run_prints fp [(''IRQs config done!'' @ [CHR 0x0A], [])] m;
     Some (c, m) })"

text \<open>The comparison: the lines and the number of failures; the two tests print the units differently.\<close>

definition check_unit :: "string \<Rightarrow> 'n::len word echo_test \<Rightarrow> nat \<Rightarrow> (string \<times> vararg list) list" where
  "check_unit hex t i =
     (let s = VInt (ucast (send_buf t ! i)); r = VInt (ucast (recv_buf t ! i)) in
      [(''Data %d: '', [VInt (of_nat i)]),
       if send_buf t ! i = recv_buf t ! i then (''PASS, '' @ hex @ [CHR 0x0A], [r])
       else (''FAIL, '' @ hex @ '' vs. '' @ hex @ [CHR 0x0A], [s, r])])"

definition fail_cnt :: "'a echo_test \<Rightarrow> nat" where
  "fail_cnt t = length (filter (\<lambda>i. send_buf t ! i \<noteq> recv_buf t ! i) [0..<TEST_NUM])"

definition check_data :: "string \<Rightarrow> 'n::len word echo_test \<Rightarrow> (string \<times> vararg list) list" where
  "check_data hex t = concat (map (check_unit hex t) [0..<TEST_NUM])
     @ [(if fail_cnt t > 0 then ''Data check failed!'' @ [CHR 0x0A] else ''Data check passed!'' @ [CHR 0x0A], [])]"

definition echo_line :: "string \<Rightarrow> 'a echo_test \<Rightarrow> string \<times> vararg list" where
  "echo_line what t = (''Data '' @ what @ '' done (TN = %d, RN = %d)!'' @ [CHR 0x0A],
     [VInt (of_nat TEST_NUM), VInt (recv_cnt t)])"

text \<open>The main programs after the set-up, interleaved with the handler.\<close>

datatype echo_pc = Sending nat | Waiting | Checked nat

inductive echo_step ::
  "(nat \<Rightarrow> 'n::len word echo_test \<times> soc \<Rightarrow> ('n word echo_test \<times> soc) option)
   \<Rightarrow> ('n word echo_test \<times> soc \<Rightarrow> ('n word echo_test \<times> soc) option) \<Rightarrow> fp_ops \<Rightarrow> string
   \<Rightarrow> echo_pc \<times> 'n word echo_test \<times> soc \<Rightarrow> echo_pc \<times> 'n word echo_test \<times> soc \<Rightarrow> bool"
  for round handler fp hex where
  send: "i < TEST_NUM \<Longrightarrow> round i (t, m) = Some (t', m')
    \<Longrightarrow> echo_step round handler fp hex (Sending i, t, m) (Sending (Suc i), t', m')"
| sent: "\<not> i < TEST_NUM \<Longrightarrow> run_prints fp [echo_line ''sent'' t] m = Some m'
    \<Longrightarrow> echo_step round handler fp hex (Sending i, t, m) (Waiting, t, m')"
| spin: "unat (recv_cnt t) < TEST_NUM \<Longrightarrow> echo_step round handler fp hex (Waiting, t, m) (Waiting, t, sync m)"
| finished: "\<not> unat (recv_cnt t) < TEST_NUM \<Longrightarrow> run_prints fp (echo_line ''recv'' t # check_data hex t) m = Some m'
    \<Longrightarrow> echo_step round handler fp hex (Waiting, t, m) (Checked (fail_cnt t), t, m')"
| irq: "pc = Sending i \<or> pc = Waiting \<Longrightarrow> handler (t, m) = Some (t', m')
    \<Longrightarrow> echo_step round handler fp hex (pc, t, m) (pc, t', m')"

inductive_cases echo_step_cases: "echo_step round handler fp hex (pc, t, m) st'"
inductive_cases timer_step_cases: "timer_step fp (pc, t, m) st'"

definition uart_step where
  "uart_step fp = echo_step uart_send_round (uart_handle_ext_irq fp) fp ''0x%02x''"

definition spi_step where
  "spi_step fp = echo_step spi_send_round (spi_handle_ext_irq fp) fp ''0x%x''"

text \<open>The shared variables at the start.\<close>

definition uart_start :: "u8 echo_test" where
  "uart_start = \<lparr>data_buf = replicate 32 0, recv_cnt = 0, data_unit = 0\<rparr>"

definition spi_start :: "u32 echo_test" where
  "spi_start = \<lparr>data_buf = replicate 32 0, recv_cnt = 0, data_unit = 1\<rparr>"

end
