(* ===== verification/Test_Apps_Correct.thy ===== *)
theory Test_Apps_Correct
  imports Test_Apps
begin

text \<open>
  The tests as interleavings of main program and interrupt handler. \<open>port_rel sent got p\<close> says that the
  units \<open>sent\<close> were handed to the transmitter and the units \<open>got\<close> were taken out of the receiver, in
  order. The first part shows what every access does to it, for accesses that need not return; the
  second proves the invariant of the echo tests once, in a locale, for every device with these laws, and
  interprets it on the UART and the SPI controller.
\<close>

section \<open>Units sent and received\<close>

definition port_rel :: "'a list \<Rightarrow> 'a list \<Rightarrow> 'a serial \<Rightarrow> bool" where
  "port_rel sent got p \<longleftrightarrow> ser_ok p \<and> ser_sent p = sent \<and> p_rx_log p = got @ q_items (p_rxq p)"

lemma port_rel_run: "port_rel sent got p \<Longrightarrow> port_rel sent got (port_run es p)"
  using port_run_ok [of p es] port_run_sent [of p es] port_run_log [of p got es] by (simp add: port_rel_def)

lemma ser_read_same: "x \<noteq> Rxq_dat \<Longrightarrow> snd (ser_read x p) = p"
  by (cases x) (simp_all add: ser_read_def)

context serial_port
begin

lemma ld_rel:
  assumes "ld x s = Some (v, s')" and "x \<noteq> Rxq_dat" and "port_rel sent got (port s)"
  shows "port_rel sent got (port s')"
proof -
  have "snd (ser_read x p) = p" for p :: "'n word serial" by (rule ser_read_same [OF assms(2)])
  then show ?thesis using ld_law [of x s] assms(1) port_rel_run [OF assms(3)] by auto
qed

lemma tx_ready_rel:
  assumes "tx_ready ld s = Some (b, s')" and "port_rel sent got (port s)"
  shows "port_rel sent got (port s') \<and> (b \<longrightarrow> tx_count (port s') < que_depth)"
proof -
  obtain len s1 cap where "ld Txq_len s = Some (len, s1)" "ld Txq_cap s1 = Some (cap, s')"
    using assms(1) by (auto simp: tx_ready_def bind_eq_Some_conv)
  then have "port_rel sent got (port s')" using ld_rel assms(2) by (meson ser_sel.distinct)
  moreover have "ser_ok (port s)" using assms(2) by (simp add: port_rel_def)
  from tx_ready_law [OF this] assms(1) have "b \<longrightarrow> tx_count (port s') < que_depth" by auto
  ultimately show ?thesis by blast
qed

lemma rx_ready_rel:
  assumes "rx_ready ld s = Some (b, s')" and "port_rel sent got (port s)"
  shows "port_rel sent got (port s') \<and> (b \<longrightarrow> 0 < rx_count (port s'))"
proof -
  have "ser_ok (port s)" using assms(2) by (simp add: port_rel_def)
  from rx_ready_law [OF this] assms(1) have "port s' = port_run (evs s (time s)) (port s)"
    "b \<longrightarrow> 0 < rx_count (port s')" by auto
  then show ?thesis using port_rel_run [OF assms(2)] by simp
qed

lemma poll_rel:
  assumes ready: "\<And>s b s'. ready s = Some (b, s') \<Longrightarrow> port_rel sent got (port s)
      \<Longrightarrow> port_rel sent got (port s') \<and> (b \<longrightarrow> Q (port s'))"
    and "poll ready s = Some s'" and "port_rel sent got (port s)"
  shows "port_rel sent got (port s') \<and> Q (port s')"
proof -
  have "port_rel sent got (port s) \<longrightarrow> port_rel sent got (port s') \<and> Q (port s')"
  proof (rule poll.raw_induct [where P = "\<lambda>r s s'. (\<forall>s b s'. r s = Some (b, s') \<longrightarrow> port_rel sent got (port s)
      \<longrightarrow> port_rel sent got (port s') \<and> (b \<longrightarrow> Q (port s'))) \<longrightarrow> port_rel sent got (port s)
      \<longrightarrow> port_rel sent got (port s') \<and> Q (port s')", OF _ assms(2), THEN mp])
    fix f r s y
    assume IH: "\<And>r s y. f r s = Some y \<Longrightarrow> (\<forall>s b s'. r s = Some (b, s') \<longrightarrow> port_rel sent got (port s)
        \<longrightarrow> port_rel sent got (port s') \<and> (b \<longrightarrow> Q (port s'))) \<longrightarrow> port_rel sent got (port s)
        \<longrightarrow> port_rel sent got (port y) \<and> Q (port y)"
      and eq: "Option.bind (r s) (\<lambda>(b, s). if b then Some s else f r s) = Some y"
    show "(\<forall>s b s'. r s = Some (b, s') \<longrightarrow> port_rel sent got (port s)
        \<longrightarrow> port_rel sent got (port s') \<and> (b \<longrightarrow> Q (port s'))) \<longrightarrow> port_rel sent got (port s)
        \<longrightarrow> port_rel sent got (port y) \<and> Q (port y)"
      using eq IH by (fastforce simp: bind_eq_Some_conv split: if_splits)
  qed (use ready in blast)
  with assms(3) show ?thesis by blast
qed

lemma send_loop_rel:
  fixes xs :: "'n word list"
  assumes "send_loop (tx_ready ld) (tx_put st) xs s = Some s'" and "port_rel sent got (port s)"
  shows "port_rel (sent @ map (\<lambda>x. ucast (ucast x :: u32)) xs) got (port s')"
  using assms
proof (induction xs arbitrary: s sent)
  case (Cons x xs)
  obtain s1 s2 where p: "poll (tx_ready ld) s = Some s1" "tx_put st x s1 = Some s2"
    and l: "send_loop (tx_ready ld) (tx_put st) xs s2 = Some s'"
    using Cons.prems(1) by (auto simp: bind_eq_Some_conv)
  have 1: "port_rel sent got (port s1) \<and> tx_count (port s1) < que_depth"
    by (rule poll_rel [OF tx_ready_rel p(1) Cons.prems(2)])
  then have ok: "ser_ok (port s1)" by (simp add: port_rel_def)
  let ?p = "port_run (evs s1 (time s1)) (port s1)"
  have "port s2 = ser_write Txq_dat (- 1) (ucast x) ?p"
    using st_law [of Txq_dat "ucast x" s1] p(2) by (auto simp: tx_put_def)
  then have "p_rx_log (port s2) = p_rx_log ?p" "p_rxq (port s2) = p_rxq ?p" by (simp_all add: ser_write_def)
  moreover have "ser_ok (port s2)" "ser_sent (port s2) = ser_sent (port s1) @ [ucast (ucast x :: u32)]"
    using tx_put_law [OF ok, of x] 1 p(2) by auto
  ultimately have "port_rel (sent @ [ucast (ucast x :: u32)]) got (port s2)"
    using port_rel_run [OF conjunct1 [OF 1], of "evs s1 (time s1)"] 1 by (simp add: port_rel_def)
  from Cons.IH [OF l this] show ?case by simp
qed simp

lemma recv_loop_rel:
  fixes buf :: "'n word list"
  assumes "recv_loop (rx_ready ld) (rx_get ld) n i buf s = Some (buf', s')" and "port_rel sent got (port s)"
    and "i + n \<le> length buf"
  shows "\<exists>vs. buf' = take i buf @ map (\<lambda>v. ucast (ucast v :: u32)) vs @ drop (i + n) buf \<and> length vs = n
    \<and> port_rel sent (got @ vs) (port s')"
  using assms
proof (induction n arbitrary: s i buf got)
  case 0
  then show ?case by (intro exI [of _ "[]"]) auto
next
  case (Suc n)
  obtain s1 w s2 where p: "poll (rx_ready ld) s = Some s1" "rx_get ld s1 = Some (w, s2)"
    and l: "recv_loop (rx_ready ld) (rx_get ld) n (Suc i) (buf[i := w]) s2 = Some (buf', s')"
    using Suc.prems(1) by (auto simp: bind_eq_Some_conv)
  have 1: "port_rel sent got (port s1) \<and> 0 < rx_count (port s1)"
    by (rule poll_rel [OF rx_ready_rel p(1) Suc.prems(2)])
  then have ok: "ser_ok (port s1)" "p_rx_log (port s1) = got @ q_items (p_rxq (port s1))"
    "ser_sent (port s1) = sent" "0 < rx_count (port s1)"
    by (simp_all add: port_rel_def)
  obtain v s3 where "rx_get ld s1 = Some (ucast (ucast v :: u32) :: 'n word, s3)" "ser_ok (port s3)"
    "p_rx_log (port s3) = (got @ [v]) @ q_items (p_rxq (port s3))" "ser_sent (port s3) = ser_sent (port s1)"
    using rx_get_law [OF ok(1,2,4)] by blast
  then have v: "w = ucast (ucast v :: u32)" "port_rel sent (got @ [v]) (port s2)"
    using p(2) ok(3) by (simp_all add: port_rel_def)
  obtain vs where vs: "buf' = take (Suc i) (buf[i := w]) @ map (\<lambda>v. ucast (ucast v :: u32)) vs @ drop (Suc i + n) (buf[i := w])"
    "length vs = n" "port_rel sent ((got @ [v]) @ vs) (port s')"
    using Suc.IH [OF l v(2)] Suc.prems(3) by auto
  have "take (Suc i) (buf[i := w]) = take i buf @ [w]" using Suc.prems(3) by (simp add: take_Suc_conv_app_nth)
  with vs v(1) show ?case by (intro exI [of _ "v # vs"]) simp
qed

lemma recv_buffer_rel:
  fixes buf :: "'n word list"
  assumes "recv_buffer (rx_ready ld) (rx_get ld) buf n s = Some (buf', s')" and "port_rel sent got (port s)"
    and roundtrip: "\<And>v :: 'n word. ucast (ucast v :: u32) = v"
  shows "n \<le> length buf \<and> (\<exists>vs. buf' = vs @ drop n buf \<and> length vs = n \<and> port_rel sent (got @ vs) (port s'))"
proof -
  have "n \<le> length buf" "recv_loop (rx_ready ld) (rx_get ld) n 0 buf s = Some (buf', s')"
    using assms(1) by (simp_all add: recv_buffer_def split: if_splits)
  from recv_loop_rel [OF this(2) assms(2)] this(1) roundtrip show ?thesis by simp
qed

lemma send_unit_rel:
  fixes x :: "'n word"
  assumes "send_buffer (tx_ready ld) (tx_put st) [x] 1 s = Some s'" and "port_rel sent got (port s)"
    and roundtrip: "\<And>v :: 'n word. ucast (ucast v :: u32) = v"
  shows "port_rel (sent @ [x]) got (port s')"
  using send_loop_rel [of "[x]" s s', OF _ assms(2)] assms(1) roundtrip by (simp add: send_buffer_def)

end

section \<open>What printing does to the machine\<close>

text \<open>Printing is a sequence of byte writes to the scratch register.\<close>

lemma fold_putchar_None: "fold putchar_cb cs None = None"
  by (induction cs) (simp_all add: putchar_cb_def)

lemma fold_putchar_invariant:
  assumes step: "\<And>c m m'. store_byte REG_SLC_SCRATCH c m = Some m' \<Longrightarrow> P m \<Longrightarrow> P m'"
  shows "fold putchar_cb cs (Some m) = Some m' \<Longrightarrow> P m \<Longrightarrow> P m'"
proof (induction cs arbitrary: m)
  case (Cons c cs)
  have "putchar_cb c (Some m) = map_option (\<lambda>m. m) (store_byte REG_SLC_SCRATCH (ucast c) m)"
    by (simp add: putchar_cb_def putchar_def c_write_def isatty_def STDOUT_FILENO_def split: option.splits)
      (cases "store_byte REG_SLC_SCRATCH (ucast c) m"; simp)
  with Cons.prems obtain m1 where "store_byte REG_SLC_SCRATCH (ucast c) m = Some m1"
    "fold putchar_cb cs (Some m1) = Some m'"
    by (cases "store_byte REG_SLC_SCRATCH (ucast c) m") (simp_all add: fold_putchar_None)
  with Cons.IH step Cons.prems(2) show ?case by blast
qed simp

lemma run_prints_invariant:
  assumes step: "\<And>c m m'. store_byte REG_SLC_SCRATCH c m = Some m' \<Longrightarrow> P m \<Longrightarrow> P m'"
  shows "run_prints fp calls m = Some m' \<Longrightarrow> P m \<Longrightarrow> P m'"
proof (induction fp calls m rule: run_prints.induct)
  case (2 fp fmt args calls m)
  then obtain r m1 where 1: "printf fp fmt args m = Some (r, m1)" "run_prints fp calls m1 = Some m'"
    by (auto simp: bind_eq_Some_conv)
  then obtain cs where "fold putchar_cb cs (Some m) = Some m1"
    by (auto simp: printf_def wrap_printf_def vprintfmt_formatted bind_eq_Some_conv)
  then have "P m1" using fold_putchar_invariant [of P cs m m1] step "2.prems"(2) by blast
  with "2.IH" 1 show ?case by blast
qed simp

section \<open>The echo tests on a device\<close>

text \<open>The rounds of the sending loop that are complete.\<close>

definition rounds :: "echo_pc \<Rightarrow> nat" where
  "rounds pc = (case pc of Sending i \<Rightarrow> i | _ \<Rightarrow> TEST_NUM)"

text \<open>
  The interface: the device's port moves with the hardware and not with the system-level controller, the
  status registers can be read, \<open>recv\<close> takes the next units out of the receiver, and round \<open>i\<close> sends and
  records the unit \<open>unit_at i\<close>, turning the variable \<open>data_at i\<close> into \<open>data_at (i + 1)\<close>.
\<close>

locale echo_device =
  fixes port :: "soc \<Rightarrow> 'n::len word serial"
    and ld :: "ser_sel \<Rightarrow> soc \<Rightarrow> (u32 \<times> soc) option"
    and recv :: "'n word list \<Rightarrow> nat \<Rightarrow> soc \<Rightarrow> ('n word list \<times> soc) option"
    and round :: "nat \<Rightarrow> 'n word echo_test \<times> soc \<Rightarrow> ('n word echo_test \<times> soc) option"
    and unit_at :: "nat \<Rightarrow> 'n word" and data_at :: "nat \<Rightarrow> 'n word"
  assumes sync_law: "port_rel sent got (port m) \<Longrightarrow> port_rel sent got (port (sync m))"
    and slc_law: "port (m\<lparr>slc := c\<rparr>) = port m"
    and log_law: "port (m\<lparr>scratch_log := l\<rparr>) = port m"
    and ld_status: "x \<noteq> Rxq_dat \<Longrightarrow> ld x m = Some (v, m') \<Longrightarrow> port_rel sent got (port m) \<Longrightarrow> port_rel sent got (port m')"
    and recv_law: "recv buf n m = Some (buf', m') \<Longrightarrow> port_rel sent got (port m)
      \<Longrightarrow> n \<le> length buf \<and> (\<exists>vs. buf' = vs @ drop n buf \<and> length vs = n \<and> port_rel sent (got @ vs) (port m'))"
    and round_law: "round i (t, m) = Some (t', m') \<Longrightarrow> port_rel sent got (port m) \<Longrightarrow> data_unit t = data_at i
      \<Longrightarrow> i < length (data_buf t) \<and> t' = t\<lparr>data_buf := (data_buf t)[i := unit_at i], data_unit := data_at (Suc i)\<rparr>
        \<and> port_rel (sent @ [unit_at i]) got (port m')"
begin

lemma reg_slc_read: "port_rel sent got (port m) \<Longrightarrow> reg_read (R_slc x) m = (v, m') \<Longrightarrow> port_rel sent got (port m')"
  by (auto simp: reg_read_def slc_law split: prod.splits)

lemma reg_slc_write: "port (reg_write (R_slc x) strb d m) = port m"
proof -
  have "reg_write (R_slc x) strb d m = (m\<lparr>slc := slc_write x strb d (slc m)\<rparr>)\<lparr>scratch_log :=
      (if x = Scratch then scratch_log m @ [(strb, d)] else scratch_log m)\<rparr>"
    by (simp add: reg_write_def)
  then show ?thesis by (simp only: log_law slc_law)
qed

lemma load_slc:
  assumes "load_word a m = Some (v, m')" and "decode a = Some (R_slc x)" and "port_rel sent got (port m)"
  shows "port_rel sent got (port m')"
  using assms(1,2) reg_slc_read [OF sync_law [OF assms(3)]] by (simp add: load_word_def)

lemma store_slc:
  assumes "store_word a d m = Some m'" and "decode a = Some (R_slc x)" and "port_rel sent got (port m)"
  shows "port_rel sent got (port m')"
  using assms(1,2) sync_law [OF assms(3)] reg_slc_write by (auto simp: store_word_def)

lemma prints_rel:
  assumes "run_prints fp calls m = Some m'" and "port_rel sent got (port m)"
  shows "port_rel sent got (port m')"
proof (rule run_prints_invariant [of "\<lambda>m. port_rel sent got (port m)", OF _ assms])
  fix c m m' assume "store_byte REG_SLC_SCRATCH c m = Some m'" and r: "port_rel sent got (port m)"
  then show "port_rel sent got (port m')"
    using sync_law [OF r] reg_slc_write by (auto simp: store_byte_def decode_scratch Let_def)
qed

text \<open>The handler appends to the received units what it takes out of the receiver.\<close>

lemma echo_irq_rel:
  assumes "echo_irq ld recv irq fp (t, m) = Some (t', m')"
    and len: "length (data_buf t) = 2 * TEST_NUM" and cnt: "unat (recv_cnt t) \<le> TEST_NUM"
    and r: "port_rel sent (take (unat (recv_cnt t)) (recv_buf t)) (port m)"
  shows "port_rel sent (take (unat (recv_cnt t')) (recv_buf t')) (port m') \<and> length (data_buf t') = 2 * TEST_NUM
    \<and> unat (recv_cnt t') \<le> TEST_NUM \<and> send_buf t' = send_buf t \<and> data_unit t' = data_unit t
    \<and> (\<exists>n \<le> TEST_NUM. take n (recv_buf t) = take n (recv_buf t') \<and> n = unat (recv_cnt t) \<and> n \<le> unat (recv_cnt t'))"
proof -
  let ?n = "unat (recv_cnt t)"
  obtain ext m1 ip m2 t3 m3 where l: "load_word REG_IRQ_CLAIM m = Some (ext, m1)" "ld Irq_pend m1 = Some (ip, m2)"
    and b: "(if ext = irq \<and> ip AND UART_RX_IRQ_MASK \<noteq> 0 then do {
          (rx_len, m) \<leftarrow> ld Rxq_len m2;
          (buf, m) \<leftarrow> recv (drop ?n (recv_buf t)) (unat rx_len) m;
          Some (t\<lparr>data_buf := take (TEST_NUM + ?n) (data_buf t) @ buf, recv_cnt := recv_cnt t + rx_len\<rparr>, m) }
        else do {
          m \<leftarrow> run_prints fp [(''Unexpected EXT IRQ: %d'' @ [CHR 0x0A], [VInt ext])] m2;
          Some (t, m) }) = Some (t3, m3)"
    and c: "store_word REG_IRQ_CLAIM ext m3 = Some m'" "t' = t3"
    using assms(1) unfolding echo_irq_def prod.case by (auto simp: bind_eq_Some_conv)
  let ?got = "take ?n (recv_buf t)"
  have 1: "port_rel sent ?got (port m1)" by (rule load_slc [OF l(1) decode_irq_claim r])
  have 2: "port_rel sent ?got (port m2)" by (rule ld_status [OF _ l(2) 1]) simp
  show ?thesis
  proof (cases "ext = irq \<and> ip AND UART_RX_IRQ_MASK \<noteq> 0")
    case True
    obtain rx_len m4 buf m5 where d: "ld Rxq_len m2 = Some (rx_len, m4)"
      "recv (drop ?n (recv_buf t)) (unat rx_len) m4 = Some (buf, m5)"
      "t3 = t\<lparr>data_buf := take (TEST_NUM + ?n) (data_buf t) @ buf, recv_cnt := recv_cnt t + rx_len\<rparr>" "m3 = m5"
      using b True by (auto simp: bind_eq_Some_conv)
    have 4: "port_rel sent ?got (port m4)" by (rule ld_status [OF _ d(1) 2]) simp
    from recv_law [OF d(2) 4] obtain vs where k: "unat rx_len \<le> length (drop ?n (recv_buf t))"
      "buf = vs @ drop (unat rx_len) (drop ?n (recv_buf t))" "length vs = unat rx_len" "port_rel sent (?got @ vs) (port m5)"
      by blast
    have u: "unat (recv_cnt t + rx_len) = ?n + unat rx_len"
      using k(1) len cnt by (simp add: unat_word_ariths recv_buf_def TEST_NUM_def)
    have "recv_buf t' = ?got @ vs @ drop (unat rx_len + ?n) (recv_buf t)"
      using c(2) d(3) k(2) len cnt by (simp add: recv_buf_def TEST_NUM_def take_drop ac_simps)
    moreover have "length (?got @ vs) = ?n + unat rx_len"
      using k(3) len cnt by (simp add: recv_buf_def TEST_NUM_def)
    ultimately have t: "take (unat (recv_cnt t')) (recv_buf t') = ?got @ vs" "take ?n (recv_buf t') = ?got"
      using c(2) d(3) u k(3) len cnt by (simp_all add: recv_buf_def TEST_NUM_def)
    have "port_rel sent (take (unat (recv_cnt t')) (recv_buf t')) (port m')"
      unfolding t(1) by (rule store_slc [OF c(1) decode_irq_claim]) (use k(4) d(4) in simp)
    moreover have "length (data_buf t') = 2 * TEST_NUM" "unat (recv_cnt t') \<le> TEST_NUM"
      "send_buf t' = send_buf t" "data_unit t' = data_unit t"
      using c(2) d(3) k(1-3) u len cnt by (simp_all add: recv_buf_def send_buf_def TEST_NUM_def)
    ultimately show ?thesis using t(2) cnt c(2) d(3) u by auto
  next
    case False
    then have p: "run_prints fp [(''Unexpected EXT IRQ: %d'' @ [CHR 0x0A], [VInt ext])] m2 = Some m3" "t3 = t"
      using b by (auto simp: bind_eq_Some_conv split: if_splits)
    have "port_rel sent ?got (port m')"
      by (rule store_slc [OF c(1) decode_irq_claim prints_rel [OF p(1) 2]])
    with p(2) c(2) len cnt show ?thesis by auto
  qed
qed

text \<open>
  The invariant of a test. After \<open>k\<close> rounds the first \<open>k\<close> units were handed to the transmitter and are
  recorded, and the second half of the buffer holds the received units, in order.
\<close>

definition echo_inv :: "echo_pc \<times> 'n word echo_test \<times> soc \<Rightarrow> bool" where
  "echo_inv = (\<lambda>(pc, t, m). length (data_buf t) = 2 * TEST_NUM \<and> unat (recv_cnt t) \<le> TEST_NUM
     \<and> rounds pc \<le> TEST_NUM \<and> take (rounds pc) (send_buf t) = map unit_at [0..<rounds pc]
     \<and> port_rel (map unit_at [0..<rounds pc]) (take (unat (recv_cnt t)) (recv_buf t)) (port m)
     \<and> (\<forall>i. pc = Sending i \<longrightarrow> data_unit t = data_at i)
     \<and> (\<forall>f. pc = Checked f \<longrightarrow> unat (recv_cnt t) = TEST_NUM \<and> f = fail_cnt t))"

lemma echo_send_inv:
  assumes inv: "echo_inv (Sending i, t, m)" and i: "i < TEST_NUM" and s: "round i (t, m) = Some (t', m')"
  shows "echo_inv (Sending (Suc i), t', m')"
proof -
  have r: "port_rel (map unit_at [0..<i]) (take (unat (recv_cnt t)) (recv_buf t)) (port m)" "data_unit t = data_at i"
    and l: "length (data_buf t) = 2 * TEST_NUM" "unat (recv_cnt t) \<le> TEST_NUM" "take i (send_buf t) = map unit_at [0..<i]"
    using inv by (simp_all add: echo_inv_def rounds_def)
  from round_law [OF s r]
  have t: "t' = t\<lparr>data_buf := (data_buf t)[i := unit_at i], data_unit := data_at (Suc i)\<rparr>"
    "port_rel (map unit_at [0..<i] @ [unit_at i]) (take (unat (recv_cnt t)) (recv_buf t)) (port m')"
    by auto
  have "send_buf t' = (send_buf t)[i := unit_at i]" "recv_buf t' = recv_buf t"
    using t(1) i by (simp_all add: send_buf_def recv_buf_def take_update_swap)
  moreover have "take (Suc i) ((send_buf t)[i := unit_at i]) = take i (send_buf t) @ [unit_at i]"
    using i l(1) by (simp add: take_Suc_conv_app_nth send_buf_def)
  ultimately show ?thesis using t l i by (simp add: echo_inv_def rounds_def)
qed

lemma echo_step_inv:
  assumes "echo_step round (echo_irq ld recv irq fp) fp hex st st'" and "echo_inv st"
  shows "echo_inv st'"
  using assms
proof (induction rule: echo_step.induct)
  case (send i t m t' m')
  then show ?case by (blast intro: echo_send_inv)
next
  case (sent i t m m')
  then have "i = TEST_NUM" by (simp add: echo_inv_def rounds_def)
  then show ?case using sent prints_rel [OF sent(2)] by (auto simp: echo_inv_def rounds_def)
next
  case (spin t m)
  then show ?case using sync_law by (auto simp: echo_inv_def rounds_def)
next
  case (finished t m m')
  then show ?case using prints_rel [OF finished(2)] by (auto simp: echo_inv_def rounds_def)
next
  case (irq pc i t m t' m')
  from irq.prems have "length (data_buf t) = 2 * TEST_NUM" "unat (recv_cnt t) \<le> TEST_NUM"
    "port_rel (map unit_at [0..<rounds pc]) (take (unat (recv_cnt t)) (recv_buf t)) (port m)"
    by (simp_all add: echo_inv_def)
  from echo_irq_rel [OF irq(2) this] irq show ?case by (auto simp: echo_inv_def)
qed

lemma echo_reachable:
  assumes "(echo_step round (echo_irq ld recv irq fp) fp hex)\<^sup>*\<^sup>* (Sending 0, t, m) st"
    and "length (data_buf t) = 2 * TEST_NUM" and "recv_cnt t = 0" and "data_unit t = data_at 0"
    and "port_rel [] [] (port m)"
  shows "echo_inv st"
  using assms(1)
proof (induction rule: rtranclp_induct)
  case base
  show ?case using assms(2-5) by (simp add: echo_inv_def rounds_def)
next
  case (step st st')
  from echo_step_inv [OF step.hyps(2) step.IH] show ?case .
qed

text \<open>The failures are counted against the units that were sent.\<close>

lemma fail_cnt_zero:
  "length (data_buf t) = 2 * TEST_NUM \<Longrightarrow> fail_cnt t = 0 \<longleftrightarrow> recv_buf t = send_buf t"
proof -
  assume "length (data_buf t) = 2 * TEST_NUM"
  then have l: "length (send_buf t) = TEST_NUM" "length (recv_buf t) = TEST_NUM"
    by (simp_all add: send_buf_def recv_buf_def TEST_NUM_def)
  have "fail_cnt t = 0 \<longleftrightarrow> (\<forall>i \<in> set [0..<TEST_NUM]. send_buf t ! i = recv_buf t ! i)"
    by (simp only: fail_cnt_def length_0_conv filter_empty_conv not_not)
  also have "\<dots> \<longleftrightarrow> recv_buf t = send_buf t" unfolding list_eq_iff_nth_eq l by auto
  finally show ?thesis .
qed

lemma echo_verdict:
  assumes "echo_inv (pc, t, m)"
  shows "ser_sent (port m) = map unit_at [0..<rounds pc]"
    and "p_rx_log (port m) = take (unat (recv_cnt t)) (recv_buf t) @ q_items (p_rxq (port m))"
    and "pc = Checked f \<Longrightarrow> f = 0 \<longleftrightarrow> take TEST_NUM (p_rx_log (port m)) = ser_sent (port m)"
proof -
  show s: "ser_sent (port m) = map unit_at [0..<rounds pc]"
    and r: "p_rx_log (port m) = take (unat (recv_cnt t)) (recv_buf t) @ q_items (p_rxq (port m))"
    using assms by (simp_all add: echo_inv_def port_rel_def)
  assume pc: "pc = Checked f"
  have l: "length (data_buf t) = 2 * TEST_NUM" "f = fail_cnt t" "unat (recv_cnt t) = TEST_NUM"
    "take TEST_NUM (send_buf t) = map unit_at [0..<TEST_NUM]"
    using assms pc by (auto simp: echo_inv_def rounds_def)
  then have "take TEST_NUM (p_rx_log (port m)) = recv_buf t" "send_buf t = map unit_at [0..<TEST_NUM]"
    using r by (simp_all add: recv_buf_def send_buf_def TEST_NUM_def)
  then show "f = 0 \<longleftrightarrow> take TEST_NUM (p_rx_log (port m)) = ser_sent (port m)"
    using fail_cnt_zero [OF l(1)] l(2) s pc by (simp add: rounds_def)
qed

end

section \<open>The UART and SPI tests\<close>

fun spi_data :: "nat \<Rightarrow> u32" where
  "spi_data 0 = 1"
| "spi_data (Suc i) = (if push_bit 1 (spi_data i) = 0 then 1 else push_bit 1 (spi_data i))"

lemma byte_roundtrip: "ucast (ucast (v :: u8) :: u32) = v"
  by (rule bit_word_eqI) (auto simp: bit_unsigned_iff)

interpretation uart_echo: echo_device uart_port_of ld_uart uv_uart_recv_data uart_send_round
  "\<lambda>i. of_nat (Suc i)" of_nat
proof unfold_locales
  show "port_rel sent got (uart_port_of (sync m))" if "port_rel sent got (uart_port_of m)" for sent got m
    using that by (simp add: sync_uart port_rel_run)
  show "uart_port_of (m\<lparr>slc := c\<rparr>) = uart_port_of m" for m c by (simp add: uart_port_of_def)
  show "uart_port_of (m\<lparr>scratch_log := l\<rparr>) = uart_port_of m" for m l by (simp add: uart_port_of_def)
  show "port_rel sent got (uart_port_of m')"
    if "x \<noteq> Rxq_dat" "ld_uart x m = Some (v, m')" "port_rel sent got (uart_port_of m)" for x m v m' sent got
    using uart_if.ld_rel that by blast
  show "n \<le> length buf \<and> (\<exists>vs. buf' = vs @ drop n buf \<and> length vs = n \<and> port_rel sent (got @ vs) (uart_port_of m'))"
    if "uv_uart_recv_data buf n m = Some (buf', m')" "port_rel sent got (uart_port_of m)" for buf n m buf' m' sent got
    using uart_if.recv_buffer_rel that byte_roundtrip unfolding uv_uart_recv_data_def by blast
  show "i < length (data_buf t) \<and> t' = t\<lparr>data_buf := (data_buf t)[i := of_nat (Suc i)], data_unit := of_nat (Suc i)\<rparr>
      \<and> port_rel (sent @ [of_nat (Suc i)]) got (uart_port_of m')"
    if r: "uart_send_round i (t, m) = Some (t', m')" "port_rel sent got (uart_port_of m)" "data_unit t = of_nat i"
    for i t m t' m' sent got
  proof -
    have "uv_uart_send_data [of_nat (Suc i)] 1 m = Some m'"
      and t: "i < length (data_buf t)" "t' = t\<lparr>data_buf := (data_buf t)[i := of_nat (Suc i)], data_unit := of_nat (Suc i)\<rparr>"
      using r(1,3) by (auto simp: uart_send_round_def Let_def bind_eq_Some_conv wr_def add.commute split: if_splits)
    then show ?thesis
      using uart_if.send_unit_rel [OF _ r(2) byte_roundtrip] unfolding uv_uart_send_data_def by blast
  qed
qed

interpretation spi_echo: echo_device "spi_port_of 0" "ld_port 0" "uv_spi_recv_words 0" spi_send_round
  spi_data spi_data
proof unfold_locales
  show "port_rel sent got (spi_port_of 0 (sync m))" if "port_rel sent got (spi_port_of 0 m)" for sent got m
    using that by (simp add: sync_spi port_rel_run)
  show "spi_port_of 0 (m\<lparr>slc := c\<rparr>) = spi_port_of 0 m" for m c by (simp add: spi_port_of_def)
  show "spi_port_of 0 (m\<lparr>scratch_log := l\<rparr>) = spi_port_of 0 m" for m l by (simp add: spi_port_of_def)
  show "port_rel sent got (spi_port_of 0 m')"
    if "x \<noteq> Rxq_dat" "ld_port 0 x m = Some (v, m')" "port_rel sent got (spi_port_of 0 m)" for x m v m' sent got
    using spi0_if.ld_rel that by blast
  show "n \<le> length buf \<and> (\<exists>vs. buf' = vs @ drop n buf \<and> length vs = n \<and> port_rel sent (got @ vs) (spi_port_of 0 m'))"
    if "uv_spi_recv_words 0 buf n m = Some (buf', m')" "port_rel sent got (spi_port_of 0 m)" for buf n m buf' m' sent got
    using spi0_if.recv_buffer_rel that unfolding uv_spi_recv_words_def by simp
  show "i < length (data_buf t) \<and> t' = t\<lparr>data_buf := (data_buf t)[i := spi_data i], data_unit := spi_data (Suc i)\<rparr>
      \<and> port_rel (sent @ [spi_data i]) got (spi_port_of 0 m')"
    if r: "spi_send_round i (t, m) = Some (t', m')" "port_rel sent got (spi_port_of 0 m)" "data_unit t = spi_data i"
    for i t m t' m' sent got
  proof -
    have "uv_spi_send_words 0 [spi_data i] 1 m = Some m'"
      and t: "i < length (data_buf t)" "t' = t\<lparr>data_buf := (data_buf t)[i := spi_data i], data_unit := spi_data (Suc i)\<rparr>"
      using r(1,3) by (auto simp: spi_send_round_def Let_def bind_eq_Some_conv wr_def split: if_splits)
    then show ?thesis
      using spi0_if.send_unit_rel [OF _ r(2)] unfolding uv_spi_send_words_def by simp
  qed
qed

section \<open>Properties\<close>


text \<open>All sixteen rounds, when the transmitter keeps taking bytes.\<close>

lemma uart_rounds:
  assumes "ser_ok (uart_port_of m)" and "\<forall>t. \<exists>t' \<ge> t. Uart_take \<in> set (env m t')" and "n \<le> TEST_NUM"
  shows "\<exists>t m'. (uart_step fp)\<^sup>*\<^sup>* (Sending 0, uart_start, m) (Sending n, t, m') \<and> ser_ok (uart_port_of m')
    \<and> soc_keep m' = soc_keep m \<and> length (data_buf t) = 2 * TEST_NUM"
  using assms(3)
proof (induction n)
  case 0
  then show ?case using assms(1) by (intro exI [of _ uart_start] exI [of _ m]) (simp add: uart_start_def TEST_NUM_def)
next
  case (Suc n)
  then obtain t m1 where 1: "(uart_step fp)\<^sup>*\<^sup>* (Sending 0, uart_start, m) (Sending n, t, m1)" "ser_ok (uart_port_of m1)"
    "soc_keep m1 = soc_keep m" "length (data_buf t) = 2 * TEST_NUM"
    by auto
  have "\<forall>t. \<exists>t' \<ge> t. P_take \<in> set (uart_evs m1 t')"
    using assms(2) keep_env [OF 1(3)] by (force simp: uart_evs_def)
  from uart_if.send_loop_total [OF 1(2) this, of "[data_unit t + 1]"] obtain m2 where
    2: "send_loop (tx_ready ld_uart) (tx_put st_uart) [data_unit t + 1] m1 = Some m2" "ser_ok (uart_port_of m2)"
    "soc_keep m2 = soc_keep m1"
    by blast
  let ?t = "t\<lparr>data_buf := (data_buf t)[n := data_unit t + 1], data_unit := data_unit t + 1\<rparr>"
  have "uv_uart_send_data [data_unit t + 1] 1 m1 = Some m2"
    using 2(1) by (simp add: uv_uart_send_data_def send_buffer_def)
  then have "uart_send_round n (t, m1) = Some (?t, m2)"
    using Suc.prems 1(4) by (simp add: uart_send_round_def Let_def TEST_NUM_def)
  then have "uart_step fp (Sending n, t, m1) (Sending (Suc n), ?t, m2)"
    using Suc.prems unfolding uart_step_def by (intro echo_step.send) simp_all
  with 1(1) have "(uart_step fp)\<^sup>*\<^sup>* (Sending 0, uart_start, m) (Sending (Suc n), ?t, m2)" by (rule rtranclp.intros)
  with 1(3,4) 2(2,3) show ?case by (intro exI [of _ ?t] exI [of _ m2]) simp
qed


lemma spi_data_pow: "i < 32 \<Longrightarrow> spi_data i = 2 ^ i"
proof (induction i)
  case (Suc i)
  have "bit ((2 :: u32) ^ Suc i) (Suc i)" using Suc.prems by (simp add: bit_exp_iff del: power_Suc)
  then have "(2 :: u32) ^ Suc i \<noteq> 0" by (metis bit_0_eq bot_apply bot_bool_def)
  with Suc show ?case by (simp add: push_bit_eq_mult mult.commute)
qed simp

lemma spi_rounds:
  assumes "ser_ok (spi_port_of 0 m)" and "\<forall>t. \<exists>t' \<ge> t. Spi_take 0 \<in> set (env m t')" and "n \<le> TEST_NUM"
  shows "\<exists>t m'. (spi_step fp)\<^sup>*\<^sup>* (Sending 0, spi_start, m) (Sending n, t, m') \<and> ser_ok (spi_port_of 0 m')
    \<and> soc_keep m' = soc_keep m \<and> length (data_buf t) = 2 * TEST_NUM"
  using assms(3)
proof (induction n)
  case 0
  then show ?case using assms(1) by (intro exI [of _ spi_start] exI [of _ m]) (simp add: spi_start_def TEST_NUM_def)
next
  case (Suc n)
  then obtain t m1 where 1: "(spi_step fp)\<^sup>*\<^sup>* (Sending 0, spi_start, m) (Sending n, t, m1)" "ser_ok (spi_port_of 0 m1)"
    "soc_keep m1 = soc_keep m" "length (data_buf t) = 2 * TEST_NUM"
    by auto
  have "\<forall>t. \<exists>t' \<ge> t. P_take \<in> set (spi_evs 0 m1 t')"
    using assms(2) keep_env [OF 1(3)] by (force simp: spi_evs_def)
  from spi0_if.send_loop_total [OF 1(2) this, of "[data_unit t]"] obtain m2 where
    2: "send_loop (tx_ready (ld_port 0)) (tx_put (st_port 0)) [data_unit t] m1 = Some m2" "ser_ok (spi_port_of 0 m2)"
    "soc_keep m2 = soc_keep m1"
    by blast
  let ?t = "t\<lparr>data_buf := (data_buf t)[n := data_unit t], data_unit := (if push_bit 1 (data_unit t) = 0 then 1 else push_bit 1 (data_unit t))\<rparr>"
  have "uv_spi_send_words 0 [data_unit t] 1 m1 = Some m2"
    using 2(1) by (simp add: uv_spi_send_words_def send_buffer_def)
  then have "spi_send_round n (t, m1) = Some (?t, m2)"
    using Suc.prems 1(4) by (simp add: spi_send_round_def Let_def TEST_NUM_def)
  then have "spi_step fp (Sending n, t, m1) (Sending (Suc n), ?t, m2)"
    using Suc.prems unfolding spi_step_def by (intro echo_step.send) simp_all
  with 1(1) have "(spi_step fp)\<^sup>*\<^sup>* (Sending 0, spi_start, m) (Sending (Suc n), ?t, m2)" by (rule rtranclp.intros)
  with 1(3,4) 2(2,3) show ?case by (intro exI [of _ ?t] exI [of _ m2]) simp
qed

text \<open>
  In every interleaving of the main program with the handler of \<open>TestSPI\<close>, the words handed to the
  controller are the powers of two in turn, the words it received are in the second half of the buffer in
  order, and the program reports no failure exactly if the first sixteen received are the sixteen sent.
\<close>

theorem spi_test_verdict:
  assumes "(spi_step fp)\<^sup>*\<^sup>* (Sending 0, spi_start, m) (pc, t, m')" and "port_rel [] [] (spi_port_of 0 m)"
  shows "ser_sent (spi_port_of 0 m') = map (\<lambda>i. 2 ^ i) [0..<rounds pc]
    \<and> p_rx_log (spi_port_of 0 m') = take (unat (recv_cnt t)) (recv_buf t) @ q_items (p_rxq (spi_port_of 0 m'))
    \<and> (\<forall>f. pc = Checked f \<longrightarrow>
      (f = 0 \<longleftrightarrow> take TEST_NUM (p_rx_log (spi_port_of 0 m')) = ser_sent (spi_port_of 0 m')))"
proof -
  have inv: "spi_echo.echo_inv (pc, t, m')"
    by (rule spi_echo.echo_reachable [OF assms(1) [unfolded spi_step_def spi_handle_ext_irq_def]])
      (simp_all add: spi_start_def TEST_NUM_def assms(2))
  then have "rounds pc \<le> 16" by (simp add: spi_echo.echo_inv_def TEST_NUM_def)
  moreover have "spi_data i = 2 ^ i" if "i < 16" for i
    using that by (simp add: spi_data_pow)
  ultimately have "map spi_data [0..<rounds pc] = map (\<lambda>i. 2 ^ i) [0..<rounds pc]" by simp
  with spi_echo.echo_verdict [OF inv] show ?thesis by (simp only:) blast
qed

theorem spi_test_verdict_witness:
  "\<exists>t m'. (spi_step \<lparr>fp_mul10 = id, fp_to_ulong = ucast\<rparr>)\<^sup>*\<^sup>*
      (Sending 0, spi_start, soc_reset (\<lambda>_. [Spi_take 0])) (Sending 16, t, m')
    \<and> ser_sent (spi_port_of 0 m') = map (\<lambda>i. 2 ^ i) [0..<16]"
proof -
  let ?m = "soc_reset (\<lambda>_. [Spi_take 0])"
  let ?fp = "\<lparr>fp_mul10 = id, fp_to_ulong = ucast\<rparr>"
  have 0: "port_rel [] [] (spi_port_of 0 ?m)"
    by (simp add: port_rel_def soc_reset_def spi_port_of_def serial_reset_ok serial_reset_empty)
  then obtain t m' where r: "(spi_step ?fp)\<^sup>*\<^sup>* (Sending 0, spi_start, ?m) (Sending 16, t, m')"
    using spi_rounds [of ?m 16 ?fp] by (auto simp: port_rel_def soc_reset_def TEST_NUM_def)
  with spi_test_verdict [OF r 0] show ?thesis
    by (intro exI [of _ t] exI [of _ m']) (simp add: rounds_def)
qed

section \<open>The timer test\<close>

text \<open>Every finished round has consumed an interrupt of its own.\<close>

fun timer_inv :: "timer_pc \<times> timer_test \<times> soc \<Rightarrow> bool" where
  "timer_inv (Clearing i, t, m) \<longleftrightarrow> i \<le> LOOP_NUM \<and> i \<le> taken t"
| "timer_inv (Spinning i, t, m) \<longleftrightarrow> i < LOOP_NUM \<and> i + (if tmr_irq_trig t then 1 else 0) \<le> taken t"
| "timer_inv (Printing i, t, m) \<longleftrightarrow> i < LOOP_NUM \<and> Suc i \<le> taken t"
| "timer_inv (Stopped, t, m) \<longleftrightarrow> LOOP_NUM \<le> taken t"

lemma timer_step_inv: "timer_step fp st st' \<Longrightarrow> timer_inv st \<Longrightarrow> timer_inv st'"
proof (induction rule: timer_step.induct)
  case (irq pc t m)
  then show ?case by (cases pc) (auto simp: timer_irq_def)
qed (auto split: if_splits)

lemma timer_reachable_inv:
  assumes "(timer_step fp)\<^sup>*\<^sup>* st st'" and "timer_inv st"
  shows "timer_inv st'"
  using assms by (induction rule: rtranclp_induct) (auto intro: timer_step_inv)

text \<open>
  C23: Whenever the interrupts of \<open>TestTimer\<close> arrive, the line of round \<open>i\<close> is printed only after \<open>i + 1\<close>
  of them, no interrupt lets two rounds pass, and the timer is stopped only after ten.
\<close>

theorem timer_test_waits:
  assumes "(timer_step fp)\<^sup>*\<^sup>* (Clearing 0, t, m) (pc, t', m')" and "taken t = 0"
  shows "(\<forall>i. pc = Printing i \<longrightarrow> i < LOOP_NUM \<and> i < taken t') \<and> (pc = Stopped \<longrightarrow> LOOP_NUM \<le> taken t')"
proof -
  have "timer_inv (Clearing 0, t, m)" by simp
  from timer_reachable_inv [OF assms(1) this] show ?thesis by (cases pc) auto
qed

text \<open>One round: the interrupt comes while the program waits.\<close>

lemma timer_round:
  assumes "i < LOOP_NUM"
  shows "\<exists>t'. (timer_step fp)\<^sup>*\<^sup>* (Clearing i, t, m) (Printing i, t', m) \<and> taken t' = Suc (taken t)"
proof -
  let ?t = "t\<lparr>tmr_irq_trig := False\<rparr>"
  have 1: "timer_step fp (Clearing i, t, m) (Spinning i, ?t, m)" by (rule timer_step.clear [OF assms])
  have 2: "timer_step fp (Spinning i, ?t, m) (Spinning i, timer_irq ?t, m)" by (rule timer_step.irq) simp
  have 3: "timer_step fp (Spinning i, timer_irq ?t, m) (Printing i, timer_irq ?t, m)"
    by (rule timer_step.leave) (simp add: timer_irq_def)
  have "(timer_step fp)\<^sup>*\<^sup>* (Clearing i, t, m) (Printing i, timer_irq ?t, m)"
    using 1 2 3 by (blast intro: converse_rtranclp_into_rtranclp)
  moreover have "taken (timer_irq ?t) = Suc (taken t)" by (simp add: timer_irq_def)
  ultimately show ?thesis by blast
qed

theorem timer_test_waits_witness:
  "\<exists>t' m'. (timer_step \<lparr>fp_mul10 = id, fp_to_ulong = ucast\<rparr>)\<^sup>*\<^sup>*
      (Clearing 0, \<lparr>tmr_irq_trig = True, taken = 0\<rparr>, soc_reset (\<lambda>_. [])) (Printing 0, t', m') \<and> 0 < taken t'"
proof -
  obtain t' where "(timer_step \<lparr>fp_mul10 = id, fp_to_ulong = ucast\<rparr>)\<^sup>*\<^sup>*
      (Clearing 0, \<lparr>tmr_irq_trig = True, taken = 0\<rparr>, soc_reset (\<lambda>_. [])) (Printing 0, t', soc_reset (\<lambda>_. []))"
    using timer_round [of 0 "\<lparr>fp_mul10 = id, fp_to_ulong = ucast\<rparr>" "\<lparr>tmr_irq_trig = True, taken = 0\<rparr>"
        "soc_reset (\<lambda>_. [])"] by (auto simp: LOOP_NUM_def)
  from timer_test_waits [OF this] this show ?thesis by auto
qed

end
