(* ===== verification/Core_Divider.thy ===== *)
theory Core_Divider
  imports Core_Units
begin

text \<open>
  The divider \<open>uv_div.v\<close> divides. Its algorithm is non-restoring division: the partial remainder may be
  negative, and the next step then adds the divisor where it would otherwise subtract it. The invariant
  \<open>div_inv N D k\<close> says that after \<open>k\<close> of the thirty-three rounds the quotient register holds the bits of
  the dividend still to come above the quotient of those already seen, and that the partial remainder,
  the divisor added when it is negative, is the remainder of those already seen.
\<close>

section \<open>Arithmetic of one round\<close>

lemma split_shifted:
  fixes N Q :: int
  assumes "m + k = 32" and "0 \<le> Q" and "Q < 2 ^ k"
  shows "((N mod 2 ^ Suc m) * 2 ^ k + Q) div 2 ^ 32 = N div 2 ^ m mod 2"
    and "((N mod 2 ^ Suc m) * 2 ^ k + Q) mod 2 ^ 32 = (N mod 2 ^ m) * 2 ^ k + Q"
proof -
  have "N mod 2 ^ Suc m = 2 ^ m * (N div 2 ^ m mod 2) + N mod 2 ^ m"
    using zmod_zmult2_eq [of 2 N "2 ^ m"] by (simp add: mult.commute)
  moreover have "(2 :: int) ^ m * 2 ^ k = 2 ^ 32"
    using assms(1) by (metis power_add)
  ultimately have eq: "(N mod 2 ^ Suc m) * 2 ^ k + Q = (N div 2 ^ m mod 2) * 2 ^ 32 + ((N mod 2 ^ m) * 2 ^ k + Q)"
    by (metis distrib_right mult.assoc mult.commute add.assoc)
  have "(N mod 2 ^ m) * 2 ^ k \<le> (2 ^ m - 1) * 2 ^ k"
    by (intro mult_right_mono) (simp_all add: zle_diff1_eq)
  also have "\<dots> = 2 ^ 32 - 2 ^ k"
    using \<open>2 ^ m * 2 ^ k = 2 ^ 32\<close> by (simp only: left_diff_distrib mult_1)
  finally have small: "(N mod 2 ^ m) * 2 ^ k + Q < 2 ^ 32" and "0 \<le> (N mod 2 ^ m) * 2 ^ k + Q"
    using assms(2,3) by (linarith, simp)
  then show "((N mod 2 ^ Suc m) * 2 ^ k + Q) div 2 ^ 32 = N div 2 ^ m mod 2"
    and "((N mod 2 ^ Suc m) * 2 ^ k + Q) mod 2 ^ 32 = (N mod 2 ^ m) * 2 ^ k + Q"
    unfolding eq by simp_all
qed

lemma next_digit:
  fixes P D b :: int
  assumes "0 < D" and "0 \<le> b" and "b \<le> 1"
  shows "(2 * P + b) div D = 2 * (P div D) + of_bool (D \<le> 2 * (P mod D) + b)"
    and "(2 * P + b) mod D = 2 * (P mod D) + b - of_bool (D \<le> 2 * (P mod D) + b) * D"
proof -
  define t where "t = 2 * (P mod D) + b"
  have "P mod D < D" and "0 \<le> P mod D"
    using assms(1) by simp_all
  then have "0 \<le> t" and "t < 2 * D"
    using assms unfolding t_def by linarith+
  moreover have "2 * P + b = D * (2 * (P div D)) + t"
    using mult_div_mod_eq [of D P] mult.left_commute [of D 2 "P div D"] unfolding t_def by linarith
  ultimately have "2 * P + b = D * (2 * (P div D) + of_bool (D \<le> t)) + (t - of_bool (D \<le> t) * D)"
    and "0 \<le> t - of_bool (D \<le> t) * D" and "t - of_bool (D \<le> t) * D < D"
    using assms by (auto simp: algebra_simps)
  then show "(2 * P + b) div D = 2 * (P div D) + of_bool (D \<le> t)"
    and "(2 * P + b) mod D = t - of_bool (D \<le> t) * D"
    by (rule int_div_pos_eq, rule int_mod_pos_eq)
qed


section \<open>The words of one round\<close>

definition dvs_of :: "div_regs \<Rightarrow> int" where
  "dvs_of d = uint (div_dvs_r d)"

text \<open>The true remainder behind the register.\<close>

definition rem_of :: "div_regs \<Rightarrow> int" where
  "rem_of d = sint (div_rem_r d) + (if rem_sgn_r d then dvs_of d else 0)"

definition div_inv :: "int \<Rightarrow> int \<Rightarrow> nat \<Rightarrow> div_regs \<Rightarrow> bool" where
  "div_inv N D k d \<longleftrightarrow>
     dvs_of d = D \<and> 0 < D \<and> D < 2 ^ 32
     \<and> uint (div_quo_r d) = (N mod 2 ^ (33 - k)) * 2 ^ k + (N div 2 ^ (33 - k)) div D
     \<and> rem_of d = (N div 2 ^ (33 - k)) mod D
     \<and> rem_sgn_r d = (sint (div_rem_r d) < 0)"

lemma uint_ucast_up: "uint (ucast (v :: 'a::len word) :: 'b::len word) = uint v" if "LENGTH('a) \<le> LENGTH('b)"
  using that by (simp add: unsigned_ucast_eq take_bit_int_eq_self_iff)
    (metis less_le_trans order_refl one_le_numeral power_increasing uint_lt2p)

lemma sint_34: "sint (x :: 34 word) = (if bit x 33 then uint x - 2 ^ 34 else uint x)"
proof -
  have "take_bit 34 (uint x) = uint x"
    using uint_lt2p [of x] by (simp add: take_bit_int_eq_self)
  then show ?thesis
    by (simp add: sint_uint signed_take_bit_eq_take_bit_minus bit_uint_iff)
qed

lemma uint_shift_in: "uint (word_cat (r :: 33 word) (of_bool b :: 1 word) :: 34 word) = 2 * uint r + of_bool b"
  using uint_lt2p [of r]
  by (cases b) (simp_all add: word_cat_eq uint_word_ariths push_bit_eq_mult uint_ucast_up)

lemma sint_shift_in: "sint (word_cat (r :: 33 word) (of_bool b :: 1 word) :: 34 word) = 2 * sint r + of_bool b"
  by (simp add: sint_34 sint_33 uint_shift_in bit_word_cat_iff)

lemma sint_dvs: "uint (v :: 33 word) < 2 ^ 32 \<Longrightarrow>
    sint (word_cat (of_bool (bit v 32) :: 1 word) v :: 34 word) = uint v \<and> \<not> bit v 32"
proof -
  assume "uint v < 2 ^ 32"
  then have "\<not> bit (uint v) 32"
    by (simp add: bit_iff_odd div_pos_pos_trivial)
  then have "\<not> bit v 32"
    by (simp add: bit_uint_iff)
  then show ?thesis
    by (auto simp: sint_34 word_cat_eq uint_ucast_up bit_ucast_iff dest: bit_imp_le_length)
qed

lemma uint_quo_in: "uint (word_cat (slice 0 (q :: 33 word) :: 32 word) (of_bool b :: 1 word) :: 33 word)
    = 2 * (uint q mod 2 ^ 32) + of_bool b"
proof -
  have "uint (slice 0 q :: u32) = uint q mod 2 ^ 32"
    by (simp add: ucast_slice [symmetric] unsigned_ucast_eq take_bit_eq_mod)
  then show ?thesis
    by (cases b) (simp_all add: word_cat_eq uint_word_ariths push_bit_eq_mult uint_ucast_up)
qed

lemma div_rem_nxt_value:
  assumes "div_inv N D k d"
  shows "sint (div_rem_nxt d) = 2 * rem_of d + of_bool (bit (div_quo_r d) 32) - D"
proof -
  define b :: int where "b = of_bool (bit (div_quo_r d) 32)"
  define s where "s = (word_cat (div_rem_r d) (of_bool (bit (div_quo_r d) 32) :: 1 word) :: 34 word)"
  define v where "v = (word_cat (of_bool (bit (div_dvs_r d) 32) :: 1 word) (div_dvs_r d) :: 34 word)"
  have D: "0 < D" "D < 2 ^ 32" "uint (div_dvs_r d) = D" and sgn: "rem_sgn_r d = (sint (div_rem_r d) < 0)"
    and r: "0 \<le> rem_of d" "rem_of d < D"
    using assms by (simp_all add: div_inv_def dvs_of_def)
  have s: "sint s = 2 * sint (div_rem_r d) + b"
    by (simp add: s_def b_def sint_shift_in)
  have v: "sint v = D" and top: "\<not> bit (div_dvs_r d) 32"
    unfolding v_def using sint_dvs [of "div_dvs_r d"] D by metis+
  have b: "0 \<le> b" "b \<le> 1"
    by (simp_all add: b_def)
  have nxt: "div_rem_nxt d = (if rem_sgn_r d \<noteq> bit (div_dvs_r d) 32 then s + v else s - v)"
    by (simp only: div_rem_nxt_def Let_def s_def v_def)
  show ?thesis
  proof (cases "rem_sgn_r d")
    case True
    then have "rem_of d = sint (div_rem_r d) + D"
      by (simp add: rem_of_def dvs_of_def D)
    moreover from this have "sint (s + v) = sint s + sint v"
      using s v b r D sgn True by (simp add: sint_word_ariths signed_take_bit_int_eq_self)
    ultimately show ?thesis
      using True top by (simp add: nxt s v b_def)
  next
    case False
    then have "rem_of d = sint (div_rem_r d)"
      by (simp add: rem_of_def)
    moreover from this have "sint (s - v) = sint s - sint v"
      using s v b r D sgn False by (simp add: sint_word_ariths signed_take_bit_int_eq_self)
    ultimately show ?thesis
      using False top by (simp add: nxt s v b_def)
  qed
qed

lemma sint_narrow:
  assumes "- (2 ^ 32) \<le> sint (x :: 34 word)" and "sint x < 2 ^ 32"
  shows "sint (slice 0 x :: 33 word) = sint x"
proof -
  have "slice 0 (word_of_int k :: 34 word) = (word_of_int k :: 33 word)" for k
    by (rule bit_word_eqI) (auto simp: bit_simps)
  from this [of "sint x"] have "slice 0 x = (word_of_int (sint x) :: 33 word)"
    by simp
  then show ?thesis
    using assms by (simp only: sint_sbintrunc') (simp add: signed_take_bit_int_eq_self)
qed

lemma div_round:
  assumes "div_inv N D k d" and "k < 33" and "0 \<le> N" and "N < 2 ^ 33" and "busy_r d" and "\<not> div_vld i"
  shows "div_inv N D (Suc k) (div_step i d)"
proof -
  define m where "m = 32 - k"
  have m: "m + k = 32" "33 - k = Suc m" "33 - Suc k = m"
    using assms(2) by (simp_all add: m_def)
  define P where "P = N div 2 ^ Suc m"
  define b :: int where "b = of_bool (bit (div_quo_r d) 32)"
  define ge where "ge \<longleftrightarrow> D \<le> 2 * (P mod D) + b"
  have D: "0 < D" "D < 2 ^ 32" "dvs_of d = D" and rem: "rem_of d = P mod D"
    and quo: "uint (div_quo_r d) = (N mod 2 ^ Suc m) * 2 ^ k + P div D"
    using assms(1) by (simp_all add: div_inv_def P_def m)
  have "N < 2 ^ Suc m * 2 ^ k"
    using assms(4) m(1) by (simp add: flip: power_add power_Suc)
  moreover have "P * 2 ^ Suc m \<le> N"
    unfolding P_def minus_mod_eq_div_mult [symmetric] by simp
  ultimately have "P * 2 ^ Suc m < 2 ^ k * 2 ^ Suc m"
    by (metis le_less_trans mult.commute)
  then have "P < 2 ^ k"
    by (simp only: mult_less_cancel_right_pos zero_less_power zero_less_numeral)
  moreover have "0 \<le> P"
    unfolding P_def using assms(3) by (simp only: pos_imp_zdiv_nonneg_iff zero_less_power zero_less_numeral)
  ultimately have "0 \<le> P div D" and "P div D < 2 ^ k"
    using D(1) by (simp_all add: pos_imp_zdiv_nonneg_iff) (metis le_less_trans zdiv_mono2 div_by_1 zero_less_one int_one_le_iff_zero_less)
  note split = split_shifted [OF m(1) this, of N, folded quo]
  have "bit (div_quo_r d) 32 \<longleftrightarrow> odd (uint (div_quo_r d) div 2 ^ 32)"
    using bit_iff_odd [of "uint (div_quo_r d)" 32] by (simp add: bit_uint_iff)
  then have b: "b = N div 2 ^ m mod 2"
    unfolding split(1) b_def by (simp add: odd_iff_mod_2_eq_one)
  have Pn: "N div 2 ^ m = 2 * P + b"
  proof -
    have "P = N div 2 ^ m div 2"
      using zdiv_zmult2_eq [of 2 N "2 ^ m"] by (simp add: P_def mult.commute)
    then show ?thesis
      using b by simp
  qed
  have "0 \<le> b" "b \<le> 1"
    by (simp_all add: b_def)
  note digit = next_digit [OF D(1) this, of P, folded ge_def Pn]
  have nxt: "sint (div_rem_nxt d) = 2 * (P mod D) + b - D"
    using div_rem_nxt_value [OF assms(1)] by (simp add: rem b_def)
  have "bit (div_rem_nxt d) 33 \<longleftrightarrow> \<not> ge"
    using bit_last_iff [of "div_rem_nxt d"] nxt by (simp add: ge_def not_le)
  moreover have "sint (slice 0 (div_rem_nxt d) :: 33 word) = sint (div_rem_nxt d)"
    using nxt D(1,2) rem \<open>0 \<le> b\<close> \<open>b \<le> 1\<close> pos_mod_bound [OF D(1), of P] pos_mod_sign [OF D(1), of P]
    by (intro sint_narrow) linarith+
  ultimately show ?thesis
    using D assms(5,6) nxt split(2) digit
    by (auto simp: div_inv_def div_step_def Let_def div_start_def dvs_of_def rem_of_def uint_quo_in m m_def [symmetric] ge_def)
qed


section \<open>A division\<close>

text \<open>The quotient and remainder of the instruction set, rounded towards zero.\<close>

definition quotient :: "bool \<Rightarrow> u32 \<Rightarrow> u32 \<Rightarrow> u32" where
  "quotient sg a b =
     (if b = 0 then - 1 else if sg then word_of_int (sint a sdiv sint b) else a div b)"

definition remainder :: "bool \<Rightarrow> u32 \<Rightarrow> u32 \<Rightarrow> u32" where
  "remainder sg a b =
     (if b = 0 then a else if sg then word_of_int (sint a smod sint b) else a mod b)"

text \<open>The operands, read as the request asks for.\<close>

definition val :: "bool \<Rightarrow> u32 \<Rightarrow> int" where
  "val sg a = (if sg then sint a else uint a)"

lemma magnitude:
  "uint (if sg \<and> bit a 31 then NOT (with_top (sg \<and> bit a 31) a) + 1 else with_top (sg \<and> bit a 31) a) = \<bar>val sg a\<bar>"
proof (cases "sg \<and> bit a 31")
  case True
  have neg: "NOT x + 1 = - x" for x :: "33 word"
    by (simp add: minus_eq_not_plus_1)
  have "uint (- with_top True a) = (- (2 ^ 32 + uint a)) mod 2 ^ 33"
    by (simp add: uint_word_ariths with_top_uint)
  also have "\<dots> = 2 ^ 32 - uint a"
    by (intro int_mod_pos_eq [where q = "- 1"]) (use uint_lt2p [of a] uint_ge_0 [of a] in \<open>simp_all, linarith\<close>)
  finally show ?thesis
    using True uint_lt2p [of a] by (simp add: val_def sint_32 neg)
next
  case False
  then show ?thesis
    by (auto simp: val_def with_top_uint sint_32)
qed

lemma ext_dvd_value: "uint (ext_dvd i) = \<bar>val (div_sgn i) (div_opa i)\<bar>"
  unfolding ext_dvd_def Let_def opa_sgn_def by (rule magnitude)

lemma ext_dvs_value: "uint (ext_dvs i) = \<bar>val (div_sgn i) (div_opb i)\<bar>"
  unfolding ext_dvs_def Let_def opb_sgn_def by (rule magnitude)

lemma val_bounds: "\<bar>val sg a\<bar> < 2 ^ 32" "val sg a = 0 \<longleftrightarrow> a = 0" "val sg a < 0 \<longleftrightarrow> sg \<and> bit a 31"
proof -
  have "0 \<le> uint a" "uint a < 2 ^ 32" "- (2 ^ 31) \<le> sint a" "sint a < 2 ^ 31"
    using uint_lt2p [of a] sint_ge [of a] sint_lt [of a] by simp_all
  then show "\<bar>val sg a\<bar> < 2 ^ 32"
    by (cases sg) (simp_all add: val_def abs_less_iff)
  show "val sg a = 0 \<longleftrightarrow> a = 0"
    by (simp add: val_def signed_eq_0_iff unsigned_eq_0_iff)
  show "val sg a < 0 \<longleftrightarrow> sg \<and> bit a 31"
    using bit_last_iff [of a] by (simp add: val_def)
qed

lemma div_accepts:
  assumes "\<not> busy_r d" and "div_vld i" and "div_opb i \<noteq> 0"
  shows "div_inv \<bar>val (div_sgn i) (div_opa i)\<bar> \<bar>val (div_sgn i) (div_opb i)\<bar> 0 (div_step i d)"
    and "busy_r (div_step i d)" and "div_cnt_r (div_step i d) = 0"
    and "opa_sgn_r (div_step i d) = (val (div_sgn i) (div_opa i) < 0)"
    and "res_sgn_r (div_step i d) = ((val (div_sgn i) (div_opa i) < 0) \<noteq> (val (div_sgn i) (div_opb i) < 0))"
    and "req_rem_r (div_step i d) = div_rem i"
proof -
  let ?N = "\<bar>val (div_sgn i) (div_opa i)\<bar>" and ?D = "\<bar>val (div_sgn i) (div_opb i)\<bar>"
  have start: "div_start i" "opa_sgn i = (val (div_sgn i) (div_opa i) < 0)"
    "opb_sgn i = (val (div_sgn i) (div_opb i) < 0)"
    using assms by (simp_all add: div_start_def opa_sgn_def opb_sgn_def val_bounds)
  have small: "?N < 2 ^ 33" "?D < 2 ^ 32" "0 < ?D"
    using val_bounds(1) [of "div_sgn i" "div_opa i"] val_bounds(1,2) [of "div_sgn i" "div_opb i"] assms(3) by auto
  have "\<not> bit (ext_dvd i) 32"
    using val_bounds(1) [of "div_sgn i" "div_opa i"] sint_dvs [of "ext_dvd i"] by (simp add: ext_dvd_value)
  then show "div_inv ?N ?D 0 (div_step i d)"
    using assms small start
    by (simp add: div_inv_def div_step_def Let_def dvs_of_def rem_of_def ext_dvd_value ext_dvs_value
        mod_pos_pos_trivial div_pos_pos_trivial)
qed (use assms in \<open>simp_all add: div_step_def Let_def div_start_def opa_sgn_def opb_sgn_def val_bounds\<close>)


text \<open>What stays during the rounds, and the counter.\<close>

definition div_tags :: "div_regs \<Rightarrow> bool \<times> bool \<times> bool" where
  "div_tags d = (res_sgn_r d, opa_sgn_r d, req_rem_r d)"

lemma div_busy_step:
  assumes "busy_r d" and "\<not> div_vld i" and "div_cnt_r d = of_nat k" and "k < 33"
  shows "busy_r (div_step i d) = (k < 32)" and "busy_p (div_step i d)"
    and "div_cnt_r (div_step i d) = of_nat (Suc k)" and "div_tags (div_step i d) = div_tags d"
proof -
  have "of_nat k = (32 :: 6 word) \<longleftrightarrow> k = 32"
  proof -
    have "unat (of_nat k :: 6 word) = k"
      using assms(4) by (simp add: unat_of_nat)
    moreover have "unat (32 :: 6 word) = 32"
      by simp
    ultimately show ?thesis
      by (metis of_nat_numeral)
  qed
  then show "busy_r (div_step i d) = (k < 32)"
    using assms by (auto simp: div_step_def Let_def div_start_def div_end_def)
qed (use assms in \<open>simp_all add: div_step_def Let_def div_start_def div_tags_def\<close>)

lemma div_rounds:
  assumes "div_inv N D 0 d" and "busy_r d" and "div_cnt_r d = 0" and "0 \<le> N" and "N < 2 ^ 33"
    and "\<forall>i \<in> set is. \<not> div_vld i" and "length is = k" and "k \<le> 33"
  shows "div_inv N D k (fold div_step is d) \<and> busy_r (fold div_step is d) = (k < 33)
    \<and> (0 < k \<longrightarrow> busy_p (fold div_step is d)) \<and> div_cnt_r (fold div_step is d) = of_nat k
    \<and> div_tags (fold div_step is d) = div_tags d"
  using assms(6-8)
proof (induction "is" arbitrary: k rule: rev_induct)
  case Nil
  then show ?case using assms by simp
next
  case (snoc i "is")
  let ?d = "fold div_step is d"
  obtain n where n: "k = Suc n" "length is = n" "n < 33"
    using snoc.prems by (cases k) auto
  then have IH: "div_inv N D n ?d" "busy_r ?d" "div_cnt_r ?d = of_nat n" "div_tags ?d = div_tags d"
    using snoc.IH [of n] snoc.prems by auto
  have "\<not> div_vld i"
    using snoc.prems by simp
  then show ?case
    using div_round [OF IH(1) n(3) assms(4,5) IH(2)] div_busy_step [OF IH(2) _ IH(3) n(3)] IH(4) n
    by auto
qed

lemma div_result:
  assumes "div_inv \<bar>A\<bar> \<bar>B\<bar> 33 d" and "div_tags d = ((A < 0) \<noteq> (B < 0), A < 0, r)" and "\<bar>A\<bar> < 2 ^ 33"
  shows "slice 0 (quo_res d) = (word_of_int (A sdiv B) :: u32)"
    and "slice 0 (rem_res d) = (word_of_int (A smod B) :: u32)"
proof -
  have narrow: "slice 0 (word_of_int k :: 33 word) = (word_of_int k :: u32)" for k
    by (rule bit_word_eqI) (auto simp: bit_simps)
  have neg: "NOT x + 1 = - x" for x :: "33 word"
    by (simp add: minus_eq_not_plus_1)
  have B: "0 < \<bar>B\<bar>" "\<bar>B\<bar> < 2 ^ 32" and quo: "uint (div_quo_r d) = \<bar>A\<bar> div \<bar>B\<bar>" and rem: "rem_of d = \<bar>A\<bar> mod \<bar>B\<bar>"
    using assms(1) by (simp_all add: div_inv_def)
  have tags: "res_sgn_r d = ((A < 0) \<noteq> (B < 0))" "opa_sgn_r d = (A < 0)"
    using assms(2) by (simp_all add: div_tags_def)
  have "div_quo_r d = word_of_int (\<bar>A\<bar> div \<bar>B\<bar>)"
    using quo by (metis word_of_int_uint)
  then have "quo_res d = word_of_int (A sdiv B)"
    using B by (auto simp: quo_res_def neg tags signed_divide_int_def sgn_if)
  then show "slice 0 (quo_res d) = (word_of_int (A sdiv B) :: u32)"
    by (simp add: narrow)
  define r where "r = (if rem_sgn_r d then div_rem_r d + div_dvs_r d else div_rem_r d)"
  have "r = word_of_int (rem_of d)"
    by (simp add: r_def rem_of_def dvs_of_def)
  moreover have "0 \<le> rem_of d" "rem_of d < 2 ^ 32"
    unfolding rem using B(1) less_trans [OF pos_mod_bound [OF B(1)] B(2)] by simp_all
  ultimately have "uint r = rem_of d"
    by (simp add: uint_word_of_int)
  then have "\<not> bit r 32"
    using sint_dvs [of r] \<open>rem_of d < 2 ^ 32\<close> by simp
  then have "rem_res d = word_of_int (A smod B)"
    using B by (auto simp: rem_res_def Let_def r_def [symmetric] neg tags \<open>r = word_of_int (rem_of d)\<close> rem signed_modulo_int_def sgn_if)
  then show "slice 0 (rem_res d) = (word_of_int (A smod B) :: u32)"
    by (simp add: narrow)
qed

lemma division_answers:
  assumes "\<not> busy_r d" and "div_vld i" and "div_opb i \<noteq> 0" and "\<forall>j \<in> set is. \<not> div_vld j" and "\<not> div_vld j"
  shows "length is < 33 \<Longrightarrow> \<not> fst (div_rsp j (fold div_step (i # is) d))"
    and "length is = 33 \<Longrightarrow> div_rsp j (fold div_step (i # is) d)
      = (True, (if div_rem i then remainder else quotient) (div_sgn i) (div_opa i) (div_opb i))"
proof -
  let ?A = "val (div_sgn i) (div_opa i)" and ?B = "val (div_sgn i) (div_opb i)"
  let ?d = "div_step i d"
  note acc = div_accepts [OF assms(1-3)]
  have N: "0 \<le> \<bar>?A\<bar>" "\<bar>?A\<bar> < 2 ^ 33"
    using val_bounds(1) [of "div_sgn i" "div_opa i"] by simp_all
  note run = div_rounds [OF acc(1-3) N assms(4) refl]
  have "\<not> dvs_zero j"
    using assms(5) by (simp add: dvs_zero_def)
  show "\<not> fst (div_rsp j (fold div_step (i # is) d))" if "length is < 33"
    using run that \<open>\<not> dvs_zero j\<close> by (simp add: div_rsp_def)
  show "div_rsp j (fold div_step (i # is) d)
      = (True, (if div_rem i then remainder else quotient) (div_sgn i) (div_opa i) (div_opb i))" if "length is = 33"
  proof -
    let ?e = "fold div_step is ?d"
    have e: "div_inv \<bar>?A\<bar> \<bar>?B\<bar> 33 ?e" "\<not> busy_r ?e" "busy_p ?e" "div_tags ?e = div_tags ?d"
      using run that by simp_all
    moreover have "div_tags ?d = ((?A < 0) \<noteq> (?B < 0), ?A < 0, div_rem i)"
      using acc(4-6) by (simp add: div_tags_def)
    ultimately have "slice 0 (quo_res ?e) = (word_of_int (?A sdiv ?B) :: u32)"
      and "slice 0 (rem_res ?e) = (word_of_int (?A smod ?B) :: u32)" and "req_rem_r ?e = div_rem i"
      using div_result [OF e(1) _ N(2)] by (auto simp: div_tags_def)
    moreover have "word_of_int (uint a sdiv uint b) = a div b" and "word_of_int (uint a smod uint b) = a mod b" for a b :: u32
      using uint_ge_0 [of a] uint_ge_0 [of b]
      by (auto simp: signed_divide_int_def signed_modulo_int_def word_div_def word_mod_def sgn_if order.order_iff_strict)
    ultimately show ?thesis
      using e(2,3) \<open>\<not> dvs_zero j\<close> assms(3)
      by (simp add: div_rsp_def quotient_def remainder_def val_def)
  qed
qed


definition div_answer :: "div_in \<Rightarrow> u32" where
  "div_answer i = (if div_rem i then remainder else quotient) (div_sgn i) (div_opa i) (div_opb i)"

lemma division_by_zero:
  "div_vld i \<Longrightarrow> div_opb i = 0 \<Longrightarrow> div_rsp i d = (True, div_answer i)"
  by (simp add: div_rsp_def dvs_zero_def div_answer_def quotient_def remainder_def)

text \<open>C7: The divider answers every request it accepts with the quotient or remainder of the instruction
  set: a zero divisor at once, any other division at the end of the thirty-third round and not
  before, with signed and unsigned operands and in the case of overflow.\<close>

theorem uv_div_correct:
  assumes "\<not> busy_r d" and "div_vld i" and "length is = 33" and "\<forall>j \<in> set is. \<not> div_vld j" and "\<not> div_vld j"
  shows "if div_opb i = 0 then div_rsp i d = (True, div_answer i)
    else (\<forall>n < 33. \<not> fst (div_rsp j (fold div_step (i # take n is) d)))
      \<and> div_rsp j (fold div_step (i # is) d) = (True, div_answer i)"
proof (cases "div_opb i = 0")
  case True
  with assms(2) show ?thesis by (simp add: division_by_zero)
next
  case False
  have "\<not> fst (div_rsp j (fold div_step (i # take n is) d))" if "n < 33" for n
    using division_answers(1) [OF assms(1,2) False _ assms(5), of "take n is"] assms(3,4) that
    by (auto dest: in_set_takeD)
  then show ?thesis
    using division_answers(2) [OF assms(1,2) False assms(4,5,3)] False by (simp add: div_answer_def)
qed

definition div_idle :: div_in where
  "div_idle = \<lparr>div_vld = False, div_sgn = False, div_rem = False, div_opa = 0, div_opb = 0\<rparr>"

theorem uv_div_correct_witness:
  "div_rsp div_idle (fold div_step (\<lparr>div_vld = True, div_sgn = True, div_rem = False, div_opa = - 7, div_opb = 2\<rparr>
     # replicate 33 div_idle) div_reset) = (True, - 3)"
  using uv_div_correct [of div_reset "\<lparr>div_vld = True, div_sgn = True, div_rem = False, div_opa = - 7, div_opb = 2\<rparr>"
      "replicate 33 div_idle" div_idle]
  by (simp add: div_reset_def div_idle_def div_answer_def quotient_def del: fold_Cons)

text \<open>
  The port \<open>req_rdy\<close> is left open where the execution unit instantiates the divider, and a flush by a
  trap forgets that a division runs. A request that comes while the divider is busy replaces the
  divisor of the running division and is answered by what comes of it: twelve divided by three gives
  one, if it is asked while a hundred divided by seven is under way.
\<close>

definition div_asks :: "u32 \<Rightarrow> u32 \<Rightarrow> div_in" where
  "div_asks a b = \<lparr>div_vld = True, div_sgn = False, div_rem = False, div_opa = a, div_opb = b\<rparr>"

lemma div_request_lost:
  "div_rsp div_idle (fold div_step (div_asks 100 7 # div_asks 12 3 # replicate 32 div_idle) div_reset) = (True, 1)"
  by code_simp

end
