(* ===== verification/Core_Decode.thy ===== *)
theory Core_Decode
  imports Core_Units
begin

text \<open>
  The combinational part of the decoding unit \<open>design/core/uv_idu.v\<close>: the fields of the instruction, the
  operation wires, and the record of control signals and operands that is handed to the execution unit.
  The handshakes, the buffers that hold an instruction back, and the early branch (\<open>BR_FLUSH_AT_DEC\<close>,
  which nothing defines) are left out. An instruction reads its registers through the bypass
  multiplexers \<open>rs1_data\<close> and \<open>rs2_data\<close>.
\<close>

section \<open>Fields\<close>

definition inst_opcode_lo :: "u32 \<Rightarrow> 2 word" where "inst_opcode_lo inst = slice 0 inst"
definition inst_opcode_me :: "u32 \<Rightarrow> 3 word" where "inst_opcode_me inst = slice 2 inst"
definition inst_opcode_hi :: "u32 \<Rightarrow> 2 word" where "inst_opcode_hi inst = slice 5 inst"
definition inst_rd_idx :: "u32 \<Rightarrow> 5 word" where "inst_rd_idx inst = slice 7 inst"
definition inst_funct3 :: "u32 \<Rightarrow> 3 word" where "inst_funct3 inst = slice 12 inst"
definition inst_rs1_idx :: "u32 \<Rightarrow> 5 word" where "inst_rs1_idx inst = slice 15 inst"
definition inst_rs2_idx :: "u32 \<Rightarrow> 5 word" where "inst_rs2_idx inst = slice 20 inst"
definition inst_funct7 :: "u32 \<Rightarrow> 7 word" where "inst_funct7 inst = slice 25 inst"
definition inst_i_imm :: "u32 \<Rightarrow> 12 word" where "inst_i_imm inst = slice 20 inst"

definition inst_s_imm :: "u32 \<Rightarrow> 12 word" where
  "inst_s_imm inst = word_cat (slice 25 inst :: 7 word) (slice 7 inst :: 5 word)"

definition inst_b_imm :: "u32 \<Rightarrow> 12 word" where
  "inst_b_imm inst = word_cat (slice 31 inst :: 1 word) (word_cat (slice 7 inst :: 1 word)
     (word_cat (slice 25 inst :: 6 word) (slice 8 inst :: 4 word) :: 10 word) :: 11 word)"

definition inst_u_imm :: "u32 \<Rightarrow> 20 word" where "inst_u_imm inst = slice 12 inst"

definition inst_j_imm :: "u32 \<Rightarrow> 20 word" where
  "inst_j_imm inst = word_cat (slice 31 inst :: 1 word) (word_cat (slice 12 inst :: 8 word)
     (word_cat (slice 20 inst :: 1 word) (slice 21 inst :: 10 word) :: 11 word) :: 19 word)"

text \<open>The immediates extended to the register width.\<close>

definition inst_i_imm_ext :: "u32 \<Rightarrow> u32" where
  "inst_i_imm_ext inst = word_cat (if bit inst 31 then - 1 else 0 :: 20 word) (inst_i_imm inst)"

definition inst_s_imm_ext :: "u32 \<Rightarrow> u32" where
  "inst_s_imm_ext inst = word_cat (if bit inst 31 then - 1 else 0 :: 20 word) (inst_s_imm inst)"

definition inst_b_imm_ext :: "u32 \<Rightarrow> u32" where
  "inst_b_imm_ext inst = word_cat (if bit inst 31 then - 1 else 0 :: 19 word)
     (word_cat (inst_b_imm inst) (0 :: 1 word) :: 13 word)"

definition inst_u_imm_ext :: "u32 \<Rightarrow> u32" where
  "inst_u_imm_ext inst = word_cat (inst_u_imm inst) (0 :: 12 word)"

definition inst_j_imm_ext :: "u32 \<Rightarrow> u32" where
  "inst_j_imm_ext inst = word_cat (if bit inst 31 then - 1 else 0 :: 11 word)
     (word_cat (inst_j_imm inst) (0 :: 1 word) :: 21 word)"

section \<open>Operations\<close>

definition inst_op_lui :: "u32 \<Rightarrow> bool" where
  "inst_op_lui i \<longleftrightarrow> inst_opcode_lo i = 3 \<and> inst_opcode_me i = 5 \<and> inst_opcode_hi i = 1"
definition inst_op_auipc :: "u32 \<Rightarrow> bool" where
  "inst_op_auipc i \<longleftrightarrow> inst_opcode_lo i = 3 \<and> inst_opcode_me i = 5 \<and> inst_opcode_hi i = 0"
definition inst_op_jal :: "u32 \<Rightarrow> bool" where
  "inst_op_jal i \<longleftrightarrow> inst_opcode_lo i = 3 \<and> inst_opcode_me i = 3 \<and> inst_opcode_hi i = 3"
definition inst_op_jalr :: "u32 \<Rightarrow> bool" where
  "inst_op_jalr i \<longleftrightarrow> inst_opcode_lo i = 3 \<and> inst_opcode_me i = 1 \<and> inst_opcode_hi i = 3"
definition inst_op_branch :: "u32 \<Rightarrow> bool" where
  "inst_op_branch i \<longleftrightarrow> inst_opcode_lo i = 3 \<and> inst_opcode_me i = 0 \<and> inst_opcode_hi i = 3"
definition inst_op_load :: "u32 \<Rightarrow> bool" where
  "inst_op_load i \<longleftrightarrow> inst_opcode_lo i = 3 \<and> inst_opcode_me i = 0 \<and> inst_opcode_hi i = 0"
definition inst_op_loadu :: "u32 \<Rightarrow> bool" where
  "inst_op_loadu i \<longleftrightarrow> inst_op_load i \<and> bit (inst_funct3 i) 2"
definition inst_op_store :: "u32 \<Rightarrow> bool" where
  "inst_op_store i \<longleftrightarrow> inst_opcode_lo i = 3 \<and> inst_opcode_me i = 0 \<and> inst_opcode_hi i = 1"
definition inst_op_imm :: "u32 \<Rightarrow> bool" where
  "inst_op_imm i \<longleftrightarrow> inst_opcode_lo i = 3 \<and> inst_opcode_me i = 4 \<and> inst_opcode_hi i = 0"
definition inst_op_arith :: "u32 \<Rightarrow> bool" where
  "inst_op_arith i \<longleftrightarrow> inst_opcode_lo i = 3 \<and> inst_opcode_me i = 4 \<and> inst_opcode_hi i = 1"
definition inst_op_fence :: "u32 \<Rightarrow> bool" where
  "inst_op_fence i \<longleftrightarrow> inst_opcode_lo i = 3 \<and> inst_opcode_me i = 3 \<and> inst_opcode_hi i = 0 \<and> inst_funct3 i = 0"
definition inst_op_fencei :: "u32 \<Rightarrow> bool" where
  "inst_op_fencei i \<longleftrightarrow> inst_opcode_lo i = 3 \<and> inst_opcode_me i = 3 \<and> inst_opcode_hi i = 0 \<and> inst_funct3 i = 1"
definition inst_op_system :: "u32 \<Rightarrow> bool" where
  "inst_op_system i \<longleftrightarrow> inst_opcode_lo i = 3 \<and> inst_opcode_me i = 4 \<and> inst_opcode_hi i = 3"
definition inst_op_envsys :: "u32 \<Rightarrow> bool" where
  "inst_op_envsys i \<longleftrightarrow> inst_op_system i \<and> inst_funct3 i = 0 \<and> inst_funct7 i = 0"
definition inst_op_ecall :: "u32 \<Rightarrow> bool" where
  "inst_op_ecall i \<longleftrightarrow> inst_op_envsys i \<and> \<not> bit (inst_i_imm i) 0"
definition inst_op_ebreak :: "u32 \<Rightarrow> bool" where
  "inst_op_ebreak i \<longleftrightarrow> inst_op_envsys i \<and> bit (inst_i_imm i) 0"
definition inst_op_mret :: "u32 \<Rightarrow> bool" where
  "inst_op_mret i \<longleftrightarrow> inst_op_system i \<and> inst_funct3 i = 0 \<and> inst_funct7 i = 24
     \<and> inst_rd_idx i = 0 \<and> inst_rs1_idx i = 0 \<and> inst_rs2_idx i = 2"
definition inst_op_wfi :: "u32 \<Rightarrow> bool" where
  "inst_op_wfi i \<longleftrightarrow> inst_op_system i \<and> inst_funct3 i = 0 \<and> inst_funct7 i = 8
     \<and> inst_rd_idx i = 0 \<and> inst_rs1_idx i = 0 \<and> inst_rs2_idx i = 5"

text \<open>The two low bits of \<open>funct3\<close>, which select the access size and the kind of register access.\<close>

definition inst_funct3_lo :: "u32 \<Rightarrow> 2 word" where "inst_funct3_lo i = slice 0 (inst_funct3 i)"

definition inst_op_csr :: "u32 \<Rightarrow> bool" where
  "inst_op_csr i \<longleftrightarrow> inst_op_system i \<and> inst_funct3_lo i \<noteq> 0"
definition inst_op_csrrw :: "u32 \<Rightarrow> bool" where
  "inst_op_csrrw i \<longleftrightarrow> inst_op_csr i \<and> inst_funct3_lo i = 1"
definition inst_op_csrrs :: "u32 \<Rightarrow> bool" where
  "inst_op_csrrs i \<longleftrightarrow> inst_op_csr i \<and> inst_funct3_lo i = 2"
definition inst_op_csrrc :: "u32 \<Rightarrow> bool" where
  "inst_op_csrrc i \<longleftrightarrow> inst_op_csr i \<and> inst_funct3_lo i = 3"
definition inst_op_csrimm :: "u32 \<Rightarrow> bool" where
  "inst_op_csrimm i \<longleftrightarrow> inst_op_csr i \<and> bit (inst_funct3 i) 2"
definition inst_op_muldiv :: "u32 \<Rightarrow> bool" where
  "inst_op_muldiv i \<longleftrightarrow> inst_op_arith i \<and> inst_funct7 i = 1"
definition inst_op_ls :: "u32 \<Rightarrow> bool" where
  "inst_op_ls i \<longleftrightarrow> inst_op_load i \<or> inst_op_store i"
definition inst_op_ia :: "u32 \<Rightarrow> bool" where
  "inst_op_ia i \<longleftrightarrow> inst_op_imm i \<or> inst_op_arith i"

definition inst_op_beq :: "u32 \<Rightarrow> bool" where
  "inst_op_beq i \<longleftrightarrow> inst_op_branch i \<and> inst_funct3 i = 0"
definition inst_op_bne :: "u32 \<Rightarrow> bool" where
  "inst_op_bne i \<longleftrightarrow> inst_op_branch i \<and> inst_funct3 i = 1"
definition inst_op_bge :: "u32 \<Rightarrow> bool" where
  "inst_op_bge i \<longleftrightarrow> inst_op_branch i \<and> (inst_funct3 i = 4 \<or> inst_funct3 i = 6)"
definition inst_op_blt :: "u32 \<Rightarrow> bool" where
  "inst_op_blt i \<longleftrightarrow> inst_op_branch i \<and> (inst_funct3 i = 5 \<or> inst_funct3 i = 7)"

definition ls_mask :: "u32 \<Rightarrow> 8 word" where
  "ls_mask i = gate (inst_funct3_lo i = 0) 0x01 OR gate (inst_funct3_lo i = 1) 0x03
     OR gate (inst_funct3_lo i = 2) 0x0f OR gate (inst_funct3_lo i = 3) 0xff"

section \<open>Control signals\<close>

definition inst_sft :: "u32 \<Rightarrow> bool" where
  "inst_sft i \<longleftrightarrow> inst_op_ia i \<and> (inst_funct3 i = 1 \<or> inst_funct3 i = 5)
     \<and> (inst_funct7 i = 0 \<or> bit (inst_funct7 i) 5)"
definition inst_stl :: "u32 \<Rightarrow> bool" where
  "inst_stl i \<longleftrightarrow> inst_op_ia i \<and> inst_funct3 i = 1"
definition inst_slt :: "u32 \<Rightarrow> bool" where
  "inst_slt i \<longleftrightarrow> inst_op_ia i \<and> (inst_funct3 i = 2 \<or> inst_funct3 i = 3)"
definition inst_bjp :: "u32 \<Rightarrow> bool" where
  "inst_bjp i \<longleftrightarrow> inst_op_branch i \<or> inst_op_jal i \<or> inst_op_jalr i"
definition inst_add :: "u32 \<Rightarrow> bool" where
  "inst_add i \<longleftrightarrow> inst_bjp i \<or> inst_slt i \<or> inst_op_ls i \<or> inst_op_auipc i
     \<or> (inst_op_ia i \<and> inst_funct3 i = 0)"
definition inst_sub :: "u32 \<Rightarrow> bool" where
  "inst_sub i \<longleftrightarrow> (inst_op_arith i \<and> inst_funct3 i = 0 \<and> bit (inst_funct7 i) 5)
     \<or> inst_op_branch i \<or> inst_slt i"
definition inst_mul :: "u32 \<Rightarrow> bool" where
  "inst_mul i \<longleftrightarrow> inst_op_muldiv i \<and> \<not> bit (inst_funct3 i) 2"
definition inst_mix :: "u32 \<Rightarrow> bool" where
  "inst_mix i \<longleftrightarrow> inst_op_muldiv i \<and> bit (inst_funct3 i) 1 \<and> \<not> bit (inst_funct3 i) 0"
definition inst_low :: "u32 \<Rightarrow> bool" where
  "inst_low i \<longleftrightarrow> inst_op_muldiv i \<and> inst_funct3 i = 0"
definition inst_div :: "u32 \<Rightarrow> bool" where
  "inst_div i \<longleftrightarrow> inst_op_muldiv i \<and> bit (inst_funct3 i) 2"
definition inst_rem :: "u32 \<Rightarrow> bool" where
  "inst_rem i \<longleftrightarrow> inst_op_muldiv i \<and> bit (inst_funct3 i) 1"
definition inst_unsgn :: "u32 \<Rightarrow> bool" where
  "inst_unsgn i \<longleftrightarrow> (inst_sft i \<and> \<not> bit (inst_funct7 i) 5)
     \<or> (inst_add i \<and> inst_op_branch i \<and> bit (inst_funct3 i) 1)
     \<or> (inst_add i \<and> inst_slt i \<and> bit (inst_funct3 i) 0)
     \<or> (inst_mul i \<and> bit (inst_funct3 i) 1)
     \<or> (inst_div i \<and> bit (inst_funct3 i) 0)"

definition alu_info :: "u32 \<Rightarrow> alu_ctl" where
  "alu_info i = \<lparr>alu_sgn = \<not> inst_unsgn i, alu_sft = inst_sft i, alu_stl = inst_stl i, alu_add = inst_add i,
     alu_sub = inst_sub i, alu_lui = inst_op_lui i, alu_xor = (inst_op_ia i \<and> inst_funct3 i = 4),
     alu_or = (inst_op_ia i \<and> inst_funct3 i = 6), alu_and = (inst_op_ia i \<and> inst_funct3 i = 7),
     alu_slt = inst_slt i\<rparr>"

definition ill_inst :: "u32 \<Rightarrow> bool" where
  "ill_inst i \<longleftrightarrow> i = 0 \<or> i = - 1
     \<or> \<not> (inst_op_lui i \<or> inst_op_auipc i \<or> inst_op_ls i \<or> inst_op_ia i \<or> inst_op_system i
          \<or> inst_op_fence i \<or> inst_op_fencei i \<or> inst_bjp i)"

section \<open>Operands\<close>

definition inst_opa_pc :: "u32 \<Rightarrow> bool" where
  "inst_opa_pc i \<longleftrightarrow> inst_op_auipc i \<or> inst_op_jal i \<or> inst_op_jalr i"

definition inst_opa :: "u32 \<Rightarrow> u32 \<Rightarrow> u32 \<Rightarrow> u32" where
  "inst_opa i pc rs1 = (if inst_opa_pc i then pc else rs1)"

definition inst_opb :: "u32 \<Rightarrow> u32 \<Rightarrow> u32" where
  "inst_opb i rs2 =
     gate (inst_op_branch i \<or> inst_op_arith i) rs2
     OR gate (inst_op_load i \<or> inst_op_imm i) (inst_i_imm_ext i)
     OR gate (inst_op_store i) (inst_s_imm_ext i)
     OR gate (inst_op_lui i \<or> inst_op_auipc i) (inst_u_imm_ext i)
     OR gate (inst_op_jal i \<or> inst_op_jalr i) 4"

definition inst_bjp_base :: "u32 \<Rightarrow> u32 \<Rightarrow> u32 \<Rightarrow> u32" where
  "inst_bjp_base i pc rs1 = (if inst_op_jalr i then rs1 else pc)"

definition inst_bjp_imm :: "u32 \<Rightarrow> u32" where
  "inst_bjp_imm i = (if inst_op_branch i then inst_b_imm_ext i
     else if inst_op_jalr i then inst_i_imm_ext i else inst_j_imm_ext i)"

definition inst_csr_val :: "u32 \<Rightarrow> u32 \<Rightarrow> u32" where
  "inst_csr_val i rs1 = (if inst_op_csrimm i then ucast (inst_rs1_idx i) else rs1)"

definition inst_wb_act :: "u32 \<Rightarrow> bool" where
  "inst_wb_act i \<longleftrightarrow> \<not> (inst_rd_idx i = 0 \<or> inst_op_branch i \<or> inst_op_store i)"

definition rs1_vld :: "u32 \<Rightarrow> bool" where
  "rs1_vld i \<longleftrightarrow> \<not> (inst_op_lui i \<or> inst_op_auipc i \<or> inst_op_jal i \<or> inst_op_csrimm i
     \<or> inst_op_fence i \<or> inst_op_fencei i \<or> inst_op_envsys i)"

definition rs2_vld :: "u32 \<Rightarrow> bool" where
  "rs2_vld i \<longleftrightarrow> \<not> (inst_op_load i \<or> inst_op_imm i \<or> inst_op_jalr i \<or> inst_op_csr i) \<and> rs1_vld i"

text \<open>A result on its way to the register file: valid, register, data.\<close>

type_synonym fw = "bool \<times> 5 word \<times> u32"

definition fw_hits :: "fw \<Rightarrow> 5 word \<Rightarrow> bool" where
  "fw_hits f r \<longleftrightarrow> fst f \<and> fst (snd f) = r"

text \<open>\<open>rs1_data\<close> and \<open>rs2_data\<close>: the execution unit's result before the load-store unit's before the
  register file.\<close>

definition rs_data :: "fw \<Rightarrow> fw \<Rightarrow> (5 word \<Rightarrow> u32) \<Rightarrow> 5 word \<Rightarrow> u32" where
  "rs_data ex ls rf r =
     (if fw_hits ex r then snd (snd ex) else if fw_hits ls r then snd (snd ls) else rf r)"

section \<open>What the execution unit receives\<close>

record id2ex =
  x_alu :: alu_ctl
  x_opa :: u32
  x_opb :: u32
  x_opa_pc :: bool
  x_mul :: bool
  x_mix :: bool
  x_low :: bool
  x_div :: bool
  x_rem :: bool
  x_csr_rd :: bool
  x_csr_wr :: bool
  x_csr_rs :: bool
  x_csr_rc :: bool
  x_csr_imm :: bool
  x_csr_idx :: "12 word"
  x_csr_val :: u32
  x_load :: bool
  x_loadu :: bool
  x_store :: bool
  x_ls_mask :: "4 word"
  x_st_data :: u32
  x_bjp :: bool
  x_beq :: bool
  x_bne :: bool
  x_blt :: bool
  x_bge :: bool
  x_jal :: bool
  x_jalr :: bool
  x_bjp_base :: u32
  x_bjp_imm :: u32
  x_pc :: u32
  x_mret :: bool
  x_wfi :: bool
  x_wb_act :: bool
  x_wb_idx :: "5 word"
  x_rs1_vld :: bool
  x_rs2_vld :: bool
  x_rs1_idx :: "5 word"
  x_rs2_idx :: "5 word"
  x_ill_inst :: bool
  x_env_call :: bool
  x_env_break :: bool

definition idu :: "u32 \<Rightarrow> u32 \<Rightarrow> u32 \<Rightarrow> u32 \<Rightarrow> id2ex" where
  "idu i pc rs1 rs2 = \<lparr>x_alu = alu_info i, x_opa = inst_opa i pc rs1, x_opb = inst_opb i rs2,
     x_opa_pc = inst_opa_pc i, x_mul = inst_mul i, x_mix = inst_mix i, x_low = inst_low i,
     x_div = inst_div i, x_rem = inst_rem i,
     x_csr_rd = (inst_op_csr i \<and> \<not> (inst_op_csrrw i \<and> inst_rd_idx i = 0)),
     x_csr_wr = (inst_op_csr i \<and> \<not> (inst_op_csrrs i \<and> inst_rs1_idx i = 0)),
     x_csr_rs = inst_op_csrrs i, x_csr_rc = inst_op_csrrc i, x_csr_imm = inst_op_csrimm i,
     x_csr_idx = inst_i_imm i, x_csr_val = inst_csr_val i rs1,
     x_load = inst_op_load i, x_loadu = inst_op_loadu i, x_store = inst_op_store i,
     x_ls_mask = gate (inst_op_ls i) (slice 0 (ls_mask i)), x_st_data = rs2,
     x_bjp = inst_bjp i, x_beq = inst_op_beq i, x_bne = inst_op_bne i,
     x_blt = inst_op_bge i, x_bge = inst_op_blt i, x_jal = inst_op_jal i, x_jalr = inst_op_jalr i,
     x_bjp_base = inst_bjp_base i pc rs1, x_bjp_imm = inst_bjp_imm i, x_pc = pc,
     x_mret = inst_op_mret i, x_wfi = inst_op_wfi i, x_wb_act = inst_wb_act i, x_wb_idx = inst_rd_idx i,
     x_rs1_vld = rs1_vld i, x_rs2_vld = rs2_vld i, x_rs1_idx = inst_rs1_idx i, x_rs2_idx = inst_rs2_idx i,
     x_ill_inst = ill_inst i, x_env_call = inst_op_ecall i, x_env_break = inst_op_ebreak i\<rparr>"

end
