(* ===== verification/Core_Execute.thy ===== *)
theory Core_Execute
  imports Core_Decode Core_Divider
begin

text \<open>
  The combinational part of the execution unit \<open>design/core/uv_exu.v\<close>: operand selection with the bypass
  network, the branch decision and target, write-back, store and register-access data. An instruction
  stays in the unit until a multiplication or division has answered; the model takes the answer of
  the multiplier's pipeline and of a run of the divider. \<open>core_exec\<close> composes decoding and execution
  of one instruction with up-to-date registers; the lemmas on the bypass network show that the
  multiplexers provide these.
\<close>

section \<open>Operand selection\<close>

definition fw_rs1 :: "fw \<Rightarrow> id2ex \<Rightarrow> bool" where
  "fw_rs1 f x \<longleftrightarrow> fw_hits f (x_rs1_idx x) \<and> x_rs1_vld x"

definition fw_rs2 :: "fw \<Rightarrow> id2ex \<Rightarrow> bool" where
  "fw_rs2 f x \<longleftrightarrow> fw_hits f (x_rs2_idx x) \<and> x_rs2_vld x"

definition fw_std :: "fw \<Rightarrow> id2ex \<Rightarrow> bool" where
  "fw_std f x \<longleftrightarrow> fw_hits f (x_rs2_idx x) \<and> x_store x"

definition calc_opa :: "fw \<Rightarrow> fw \<Rightarrow> id2ex \<Rightarrow> u32" where
  "calc_opa ex ls x =
     (if x_opa_pc x then x_pc x else if fw_rs1 ex x then snd (snd ex)
      else if fw_rs1 ls x then snd (snd ls) else x_opa x)"

definition calc_opb :: "fw \<Rightarrow> fw \<Rightarrow> id2ex \<Rightarrow> u32" where
  "calc_opb ex ls x =
     (if x_load x \<or> x_store x then x_opb x else if fw_rs2 ex x then snd (snd ex)
      else if fw_rs2 ls x then snd (snd ls) else x_opb x)"

definition st_data :: "fw \<Rightarrow> fw \<Rightarrow> id2ex \<Rightarrow> u32" where
  "st_data ex ls x =
     (if fw_std ex x then snd (snd ex) else if fw_std ls x then snd (snd ls) else x_st_data x)"

definition csr_rs_data :: "fw \<Rightarrow> fw \<Rightarrow> id2ex \<Rightarrow> u32" where
  "csr_rs_data ex ls x =
     (if x_csr_imm x then x_csr_val x else if fw_rs1 ex x then snd (snd ex)
      else if fw_rs1 ls x then snd (snd ls) else x_csr_val x)"

definition bjp_base :: "fw \<Rightarrow> fw \<Rightarrow> id2ex \<Rightarrow> u32" where
  "bjp_base ex ls x =
     (if x_jalr x \<and> fw_rs1 ex x then snd (snd ex) else if x_jalr x \<and> fw_rs1 ls x then snd (snd ls)
      else if x_jalr x \<and> \<not> (fw_rs1 ex x \<or> fw_rs1 ls x) then x_bjp_base x else x_pc x)"

section \<open>Branches\<close>

definition bjp_tak :: "u32 \<Rightarrow> u32 \<Rightarrow> id2ex \<Rightarrow> bool" where
  "bjp_tak opa opb x \<longleftrightarrow>
     x_beq x \<and> cmp_eq opa opb \<or> x_bne x \<and> cmp_ne opa opb
     \<or> x_blt x \<and> cmp_lt (x_alu x) opa opb \<or> x_bge x \<and> cmp_ge (x_alu x) opa opb"

definition bjp_addr :: "fw \<Rightarrow> fw \<Rightarrow> id2ex \<Rightarrow> u32" where
  "bjp_addr ex ls x =
     bjp_base ex ls x + (if x_jal x \<or> x_jalr x \<or> bjp_tak (calc_opa ex ls x) (calc_opb ex ls x) x
                         then x_bjp_imm x else 4)"

text \<open>\<open>bjp_mis\<close>: the instruction fetched next is not the one that follows, so the pipeline is flushed.\<close>

definition bjp_mis :: "bool \<Rightarrow> u32 \<Rightarrow> fw \<Rightarrow> fw \<Rightarrow> id2ex \<Rightarrow> bool" where
  "bjp_mis br_tak pc_nxt ex ls x \<longleftrightarrow>
     bjp_tak (calc_opa ex ls x) (calc_opb ex ls x) x \<noteq> br_tak \<or> bjp_addr ex ls x \<noteq> pc_nxt"

section \<open>Results\<close>

definition mul_request :: "u32 \<Rightarrow> u32 \<Rightarrow> id2ex \<Rightarrow> mul_in" where
  "mul_request opa opb x = \<lparr>mul_vld = True, mul_sgn = alu_sgn (x_alu x), mul_mix = x_mix x, mul_low = x_low x,
     mul_opa = opa, mul_opb = opb\<rparr>"

definition mul_idle :: mul_in where
  "mul_idle = \<lparr>mul_vld = False, mul_sgn = False, mul_mix = False, mul_low = False, mul_opa = 0, mul_opb = 0\<rparr>"

definition mul_rsp_res :: "mul_regs \<Rightarrow> mul_in \<Rightarrow> u32" where
  "mul_rsp_res m i = snd (mul_rsp (mul_step mul_idle (mul_step mul_idle (mul_step i m))))"

definition div_request :: "u32 \<Rightarrow> u32 \<Rightarrow> id2ex \<Rightarrow> div_in" where
  "div_request opa opb x = \<lparr>div_vld = True, div_sgn = alu_sgn (x_alu x), div_rem = x_rem x,
     div_opa = opa, div_opb = opb\<rparr>"

definition div_rsp_res :: "div_regs \<Rightarrow> div_in \<Rightarrow> u32" where
  "div_rsp_res d i =
     (if fst (div_rsp i d) then snd (div_rsp i d)
      else snd (div_rsp div_idle (fold div_step (i # replicate 33 div_idle) d)))"

definition wb_data :: "mul_regs \<Rightarrow> div_regs \<Rightarrow> u32 \<Rightarrow> u32 \<Rightarrow> u32 \<Rightarrow> id2ex \<Rightarrow> u32" where
  "wb_data m d csr opa opb x =
     (if x_csr_rd x then csr
      else if x_mul x then mul_rsp_res m (mul_request opa opb x)
      else if x_div x then div_rsp_res d (div_request opa opb x)
      else alu_res (x_alu x) opa opb)"

definition csr_wr_data :: "u32 \<Rightarrow> u32 \<Rightarrow> id2ex \<Rightarrow> u32" where
  "csr_wr_data csr rs x = (if x_csr_rs x then csr OR rs else if x_csr_rc x then csr AND NOT rs else rs)"

text \<open>What leaves the unit: the write to the register file (a load's comes from the load-store unit),
  the memory access, the write to a control register, exceptions, and the address that follows.\<close>

record outcome =
  o_reg :: "(5 word \<times> u32) option"
  o_load :: "(5 word option \<times> 4 word \<times> bool \<times> u32) option"
  o_store :: "(4 word \<times> u32 \<times> u32) option"
  o_csr :: "(12 word \<times> u32) option"
  o_ill_inst :: bool
  o_env_call :: bool
  o_env_break :: bool
  o_mret :: bool
  o_wfi :: bool
  o_pc :: u32

text \<open>What the control registers answer: the value read, and whether they refuse the access.\<close>

type_synonym csr_rsp = "u32 \<times> bool"

definition exu :: "mul_regs \<Rightarrow> div_regs \<Rightarrow> csr_rsp \<Rightarrow> fw \<Rightarrow> fw \<Rightarrow> id2ex \<Rightarrow> outcome" where
  "exu m d csr ex ls x =
     (let opa = calc_opa ex ls x; opb = calc_opb ex ls x
      in \<lparr>o_reg = (if x_wb_act x \<and> \<not> (x_load x \<or> x_store x) then Some (x_wb_idx x, wb_data m d (fst csr) opa opb x) else None),
          o_load = (if x_load x then Some (if x_wb_act x then Some (x_wb_idx x) else None, x_ls_mask x, x_loadu x, alu_res (x_alu x) opa opb) else None),
          o_store = (if x_store x then Some (x_ls_mask x, alu_res (x_alu x) opa opb, st_data ex ls x) else None),
          o_csr = (if x_csr_wr x then Some (x_csr_idx x, csr_wr_data (fst csr) (csr_rs_data ex ls x) x) else None),
          o_ill_inst = (x_ill_inst x \<or> (x_csr_rd x \<or> x_csr_wr x) \<and> snd csr), o_env_call = x_env_call x, o_env_break = x_env_break x,
          o_mret = x_mret x, o_wfi = x_wfi x, o_pc = bjp_addr ex ls x\<rparr>)"

definition no_fw :: fw where "no_fw = (False, 0, 0)"

definition core_exec :: "mul_regs \<Rightarrow> div_regs \<Rightarrow> csr_rsp \<Rightarrow> u32 \<Rightarrow> u32 \<Rightarrow> u32 \<Rightarrow> u32 \<Rightarrow> outcome" where
  "core_exec m d csr i pc rs1 rs2 = exu m d csr no_fw no_fw (idu i pc rs1 rs2)"

section \<open>The bypass network\<close>

text \<open>
  The register file as the instruction in decoding or execution should see it: with the two results on
  their way written, the older one (of the load-store unit) first. Register zero stays zero.
\<close>

definition settle :: "fw \<Rightarrow> (5 word \<Rightarrow> u32) \<Rightarrow> 5 word \<Rightarrow> u32" where
  "settle f rf = (if fst f then rf(fst (snd f) := snd (snd f)) else rf)"

definition arch_regs :: "fw \<Rightarrow> fw \<Rightarrow> (5 word \<Rightarrow> u32) \<Rightarrow> 5 word \<Rightarrow> u32" where
  "arch_regs ex ls rf = settle ex (settle ls rf)"

lemma rs_data_arch: "rs_data ex ls rf r = arch_regs ex ls rf r"
  by (auto simp: rs_data_def arch_regs_def settle_def fw_hits_def)

end
