(* ===== verification/Core_Isa.thy ===== *)
theory Core_Isa
  imports Core_Execute Encoding
begin

text \<open>
  The core executes the instruction set. The instructions RV32IM with the control-register instructions
  are given by tables from the names of \<open>encoding.h\<close> to functions of the operands, in the way the
  manual of the instruction set describes them; the theorems compare these with decoding and execution of
  every word that matches the pattern of the name.
\<close>

section \<open>The instruction set\<close>

definition imm_i :: "u32 \<Rightarrow> u32" where
  "imm_i i = signed_drop_bit 20 i"
definition imm_s :: "u32 \<Rightarrow> u32" where
  "imm_s i = push_bit 5 (signed_drop_bit 25 i) OR take_bit 5 (drop_bit 7 i)"
definition imm_b :: "u32 \<Rightarrow> u32" where
  "imm_b i = push_bit 12 (signed_drop_bit 31 i) OR push_bit 11 (take_bit 1 (drop_bit 7 i))
     OR push_bit 5 (take_bit 6 (drop_bit 25 i)) OR 2 * take_bit 4 (drop_bit 8 i)"
definition imm_u :: "u32 \<Rightarrow> u32" where
  "imm_u i = push_bit 12 (drop_bit 12 i)"
definition imm_j :: "u32 \<Rightarrow> u32" where
  "imm_j i = push_bit 20 (signed_drop_bit 31 i) OR push_bit 12 (take_bit 8 (drop_bit 12 i))
     OR push_bit 11 (take_bit 1 (drop_bit 20 i)) OR 2 * take_bit 10 (drop_bit 21 i)"

definition shamt :: "u32 \<Rightarrow> nat" where "shamt b = unat b mod 32"

definition rv_reg_reg :: "(string \<times> (u32 \<Rightarrow> u32 \<Rightarrow> u32)) list" where
  "rv_reg_reg = [
     (''ADD'', \<lambda>a b. a + b), (''SUB'', \<lambda>a b. a - b), (''SLL'', \<lambda>a b. push_bit (shamt b) a),
     (''SLT'', \<lambda>a b. of_bool (a <s b)), (''SLTU'', \<lambda>a b. of_bool (a < b)),
     (''XOR'', \<lambda>a b. a XOR b), (''SRL'', \<lambda>a b. drop_bit (shamt b) a),
     (''SRA'', \<lambda>a b. signed_drop_bit (shamt b) a), (''OR'', \<lambda>a b. a OR b), (''AND'', \<lambda>a b. a AND b),
     (''MUL'', \<lambda>a b. a * b),
     (''MULH'', \<lambda>a b. word_of_int (drop_bit 32 (sint a * sint b))),
     (''MULHSU'', \<lambda>a b. word_of_int (drop_bit 32 (sint a * uint b))),
     (''MULHU'', \<lambda>a b. word_of_int (drop_bit 32 (uint a * uint b))),
     (''DIV'', quotient True), (''DIVU'', quotient False), (''REM'', remainder True), (''REMU'', remainder False)]"

definition rv_reg_imm :: "(string \<times> (u32 \<Rightarrow> u32 \<Rightarrow> u32)) list" where
  "rv_reg_imm = [
     (''ADDI'', \<lambda>a b. a + b), (''SLLI'', \<lambda>a b. push_bit (shamt b) a),
     (''SLTI'', \<lambda>a b. of_bool (a <s b)), (''SLTIU'', \<lambda>a b. of_bool (a < b)),
     (''XORI'', \<lambda>a b. a XOR b), (''SRLI'', \<lambda>a b. drop_bit (shamt b) a),
     (''SRAI'', \<lambda>a b. signed_drop_bit (shamt b) a), (''ORI'', \<lambda>a b. a OR b), (''ANDI'', \<lambda>a b. a AND b)]"

definition rv_branch :: "(string \<times> (u32 \<Rightarrow> u32 \<Rightarrow> bool)) list" where
  "rv_branch = [
     (''BEQ'', \<lambda>a b. a = b), (''BNE'', \<lambda>a b. a \<noteq> b), (''BLT'', \<lambda>a b. a <s b), (''BGE'', \<lambda>a b. b \<le>s a),
     (''BLTU'', \<lambda>a b. a < b), (''BGEU'', \<lambda>a b. b \<le> a)]"

text \<open>Byte mask and zero extension of the loads, byte mask of the stores.\<close>

definition rv_load :: "(string \<times> 4 word \<times> bool) list" where
  "rv_load = [(''LB'', 1, False), (''LH'', 3, False), (''LW'', 15, False), (''LBU'', 1, True), (''LHU'', 3, True)]"

definition rv_store :: "(string \<times> 4 word) list" where
  "rv_store = [(''SB'', 1), (''SH'', 3), (''SW'', 15)]"

text \<open>The new value of a control register from the old one and the operand, which is a register or the
  five bits of its field.\<close>

definition rv_csr :: "(string \<times> bool \<times> (u32 \<Rightarrow> u32 \<Rightarrow> u32)) list" where
  "rv_csr = [
     (''CSRRW'', False, \<lambda>c r. r), (''CSRRS'', False, \<lambda>c r. c OR r), (''CSRRC'', False, \<lambda>c r. c AND NOT r),
     (''CSRRWI'', True, \<lambda>c r. r), (''CSRRSI'', True, \<lambda>c r. c OR r), (''CSRRCI'', True, \<lambda>c r. c AND NOT r)]"

definition plain :: "u32 \<Rightarrow> outcome" where
  "plain pc = \<lparr>o_reg = None, o_load = None, o_store = None, o_csr = None, o_ill_inst = False, o_env_call = False,
     o_env_break = False, o_mret = False, o_wfi = False, o_pc = pc\<rparr>"

definition dest :: "u32 \<Rightarrow> 5 word option" where
  "dest i = (if inst_rd_idx i = 0 then None else Some (inst_rd_idx i))"

definition result :: "u32 \<Rightarrow> u32 \<Rightarrow> (5 word \<times> u32) option" where
  "result i v = map_option (\<lambda>r. (r, v)) (dest i)"

text \<open>The pattern of a name in \<open>encoding.h\<close>.\<close>

definition base_insns :: "(string \<times> u32 \<times> u32) list" where
  "base_insns = insns_integer @ insns_muldiv_atomic @ insns_system"

definition is_insn :: "u32 \<Rightarrow> string \<Rightarrow> bool" where
  "is_insn i n \<longleftrightarrow> (case map_of base_insns n of None \<Rightarrow> False | Some (m, c) \<Rightarrow> i AND c = m)"

lemma insn_patterns:
  "map_of base_insns ''ADD'' = Some (0x33, 0xfe00707f)"
  "map_of base_insns ''SUB'' = Some (0x40000033, 0xfe00707f)"
  "map_of base_insns ''SLL'' = Some (0x1033, 0xfe00707f)"
  "map_of base_insns ''SLT'' = Some (0x2033, 0xfe00707f)"
  "map_of base_insns ''SLTU'' = Some (0x3033, 0xfe00707f)"
  "map_of base_insns ''XOR'' = Some (0x4033, 0xfe00707f)"
  "map_of base_insns ''SRL'' = Some (0x5033, 0xfe00707f)"
  "map_of base_insns ''SRA'' = Some (0x40005033, 0xfe00707f)"
  "map_of base_insns ''OR'' = Some (0x6033, 0xfe00707f)"
  "map_of base_insns ''AND'' = Some (0x7033, 0xfe00707f)"
  "map_of base_insns ''MUL'' = Some (0x2000033, 0xfe00707f)"
  "map_of base_insns ''MULH'' = Some (0x2001033, 0xfe00707f)"
  "map_of base_insns ''MULHSU'' = Some (0x2002033, 0xfe00707f)"
  "map_of base_insns ''MULHU'' = Some (0x2003033, 0xfe00707f)"
  "map_of base_insns ''DIV'' = Some (0x2004033, 0xfe00707f)"
  "map_of base_insns ''DIVU'' = Some (0x2005033, 0xfe00707f)"
  "map_of base_insns ''REM'' = Some (0x2006033, 0xfe00707f)"
  "map_of base_insns ''REMU'' = Some (0x2007033, 0xfe00707f)"
  "map_of base_insns ''ADDI'' = Some (0x13, 0x707f)"
  "map_of base_insns ''SLLI'' = Some (0x1013, 0xfc00707f)"
  "map_of base_insns ''SLTI'' = Some (0x2013, 0x707f)"
  "map_of base_insns ''SLTIU'' = Some (0x3013, 0x707f)"
  "map_of base_insns ''XORI'' = Some (0x4013, 0x707f)"
  "map_of base_insns ''SRLI'' = Some (0x5013, 0xfc00707f)"
  "map_of base_insns ''SRAI'' = Some (0x40005013, 0xfc00707f)"
  "map_of base_insns ''ORI'' = Some (0x6013, 0x707f)"
  "map_of base_insns ''ANDI'' = Some (0x7013, 0x707f)"
  "map_of base_insns ''BEQ'' = Some (0x63, 0x707f)"
  "map_of base_insns ''BNE'' = Some (0x1063, 0x707f)"
  "map_of base_insns ''BLT'' = Some (0x4063, 0x707f)"
  "map_of base_insns ''BGE'' = Some (0x5063, 0x707f)"
  "map_of base_insns ''BLTU'' = Some (0x6063, 0x707f)"
  "map_of base_insns ''BGEU'' = Some (0x7063, 0x707f)"
  "map_of base_insns ''LB'' = Some (0x3, 0x707f)"
  "map_of base_insns ''LH'' = Some (0x1003, 0x707f)"
  "map_of base_insns ''LW'' = Some (0x2003, 0x707f)"
  "map_of base_insns ''LBU'' = Some (0x4003, 0x707f)"
  "map_of base_insns ''LHU'' = Some (0x5003, 0x707f)"
  "map_of base_insns ''SB'' = Some (0x23, 0x707f)"
  "map_of base_insns ''SH'' = Some (0x1023, 0x707f)"
  "map_of base_insns ''SW'' = Some (0x2023, 0x707f)"
  "map_of base_insns ''CSRRW'' = Some (0x1073, 0x707f)"
  "map_of base_insns ''CSRRS'' = Some (0x2073, 0x707f)"
  "map_of base_insns ''CSRRC'' = Some (0x3073, 0x707f)"
  "map_of base_insns ''CSRRWI'' = Some (0x5073, 0x707f)"
  "map_of base_insns ''CSRRSI'' = Some (0x6073, 0x707f)"
  "map_of base_insns ''CSRRCI'' = Some (0x7073, 0x707f)"
  "map_of base_insns ''LUI'' = Some (0x37, 0x7f)"
  "map_of base_insns ''AUIPC'' = Some (0x17, 0x7f)"
  "map_of base_insns ''JAL'' = Some (0x6f, 0x7f)"
  "map_of base_insns ''JALR'' = Some (0x67, 0x707f)"
  "map_of base_insns ''FENCE'' = Some (0xf, 0x707f)"
  "map_of base_insns ''FENCE_I'' = Some (0x100f, 0x707f)"
  "map_of base_insns ''ECALL'' = Some (0x73, 0xffffffff)"
  "map_of base_insns ''EBREAK'' = Some (0x100073, 0xffffffff)"
  "map_of base_insns ''MRET'' = Some (0x30200073, 0xffffffff)"
  "map_of base_insns ''WFI'' = Some (0x10500073, 0xffffffff)"
  by code_simp+

section \<open>Fields of a matching word\<close>

lemma field_of_match:
  assumes "i AND c = m" and "slice n c = (- 1 :: 'b::len word)"
  shows "slice n i = (slice n m :: 'b word)"
proof -
  have "slice n m = (slice n i AND slice n c :: 'b word)"
    unfolding assms(1) [symmetric] by (rule bit_word_eqI) (auto simp: bit_simps)
  then show ?thesis by (simp add: assms(2))
qed


lemmas field_defs = inst_opcode_lo_def inst_opcode_me_def inst_opcode_hi_def inst_funct3_def inst_funct7_def
  inst_rd_idx_def inst_rs1_idx_def inst_rs2_idx_def

lemma match_r:
  assumes "i AND 0xfe00707f = m"
  shows "inst_opcode_lo i = slice 0 m \<and> inst_opcode_me i = slice 2 m \<and> inst_opcode_hi i = slice 5 m
    \<and> inst_funct3 i = slice 12 m \<and> inst_funct7 i = slice 25 m"
  unfolding field_defs by (intro conjI; rule field_of_match [OF assms], code_simp)

lemma match_i:
  assumes "i AND 0x707f = m"
  shows "inst_opcode_lo i = slice 0 m \<and> inst_opcode_me i = slice 2 m \<and> inst_opcode_hi i = slice 5 m
    \<and> inst_funct3 i = slice 12 m"
  unfolding field_defs by (intro conjI; rule field_of_match [OF assms], code_simp)

lemma match_u:
  assumes "i AND 0x7f = m"
  shows "inst_opcode_lo i = slice 0 m \<and> inst_opcode_me i = slice 2 m \<and> inst_opcode_hi i = slice 5 m"
  unfolding field_defs by (intro conjI; rule field_of_match [OF assms], code_simp)


section \<open>Units\<close>

definition units_ready :: "mul_regs \<Rightarrow> div_regs \<Rightarrow> bool" where
  "units_ready m d \<longleftrightarrow> length (mul_pipe_vld m) = MUL_STAGE \<and> length (mul_pipe_res m) = MUL_STAGE \<and> \<not> busy_r d \<and> \<not> busy_p d"

lemma mul_rsp_res_value: "units_ready m d \<Longrightarrow> mul_rsp_res m (mul_request a b x)
    = half_res (alu_sgn (x_alu x)) (x_mix x) (x_low x) a b"
  by (simp add: units_ready_def mul_rsp_res_def mul_answers mul_request_def)

lemma div_rsp_res_value:
  assumes "units_ready m d"
  shows "div_rsp_res d (div_request a b x) = (if x_rem x then remainder else quotient) (alu_sgn (x_alu x)) a b"
proof (cases "b = 0")
  case True
  then show ?thesis
    using division_by_zero [of "div_request a b x" d] by (simp add: div_rsp_res_def div_request_def div_answer_def)
next
  case False
  let ?i = "div_request a b x"
  have i: "div_vld ?i" "div_opb ?i \<noteq> 0" and d: "\<not> busy_r d"
    using False assms by (simp_all add: div_request_def units_ready_def)
  have idle: "\<forall>j \<in> set (replicate 33 div_idle). \<not> div_vld j" "\<not> div_vld div_idle"
    by (simp_all add: div_idle_def)
  have "\<not> fst (div_rsp ?i d)"
    using False assms by (simp add: div_rsp_def dvs_zero_def div_request_def units_ready_def)
  then show ?thesis
    using division_answers(2) [OF d i idle] by (simp add: div_rsp_res_def) (simp add: div_request_def)
qed

section \<open>Arithmetic\<close>

definition arith_opcode :: "u32 \<Rightarrow> bool" where
  "arith_opcode i \<longleftrightarrow> inst_opcode_lo i = 3 \<and> inst_opcode_me i = 4 \<and> inst_opcode_hi i = 1"

lemmas op_defs = inst_op_lui_def inst_op_auipc_def inst_op_jal_def inst_op_jalr_def inst_op_branch_def
  inst_op_load_def inst_op_loadu_def inst_op_store_def inst_op_imm_def inst_op_arith_def inst_op_fence_def
  inst_op_fencei_def inst_op_system_def inst_op_envsys_def inst_op_ecall_def inst_op_ebreak_def
  inst_op_mret_def inst_op_wfi_def inst_op_csr_def inst_op_csrrw_def inst_op_csrrs_def inst_op_csrrc_def
  inst_op_csrimm_def inst_op_ls_def inst_op_ia_def inst_op_beq_def inst_op_bne_def
  inst_op_bge_def inst_op_blt_def inst_bjp_def

lemmas exec_defs = core_exec_def exu_def idu_def Let_def calc_opa_def calc_opb_def fw_rs1_def fw_rs2_def fw_hits_def
  no_fw_def bjp_addr_def bjp_base_def bjp_tak_def inst_opa_def inst_opb_def inst_opa_pc_def gate_def wb_data_def
  inst_wb_act_def

lemma ill_inst_opcode:
  assumes "inst_opcode_lo i = 3" and "inst_opcode_me i \<noteq> 7"
  shows "i \<noteq> 0" "i \<noteq> - 1"
proof -
  have "slice 2 (- 1 :: u32) = (7 :: 3 word)"
    by code_simp
  with assms show "i \<noteq> 0" "i \<noteq> - 1"
    by (auto simp: inst_opcode_lo_def inst_opcode_me_def)
qed

lemma exec_arith:
  assumes "arith_opcode i"
  shows "core_exec m d (csr, False) i pc a b = (plain (pc + 4))\<lparr>o_reg := result i
    (if inst_mul i then mul_rsp_res m (mul_request a b (idu i pc a b))
     else if inst_div i then div_rsp_res d (div_request a b (idu i pc a b))
     else alu_res (alu_info i) a b)\<rparr>"
  using assms ill_inst_opcode [of i]
  by (simp add: arith_opcode_def exec_defs op_defs plain_def result_def dest_def ill_inst_def)


text \<open>The arithmetic-logic unit, by the one operation that is selected.\<close>

lemma alu_res_add:
  "\<lbrakk>alu_add c; \<not> alu_sft c; \<not> alu_xor c; \<not> alu_or c; \<not> alu_and c; \<not> alu_lui c; \<not> alu_slt c\<rbrakk>
    \<Longrightarrow> alu_res c a b = (if alu_sub c then a - b else a + b)"
  by (simp add: alu_res_def gate_def add_res_low)

lemma alu_res_slt:
  "\<lbrakk>alu_slt c; alu_add c; alu_sub c; \<not> alu_sft c; \<not> alu_xor c; \<not> alu_or c; \<not> alu_and c; \<not> alu_lui c\<rbrakk>
    \<Longrightarrow> alu_res c a b = of_bool (if alu_sgn c then a <s b else a < b)"
  by (simp add: alu_res_def gate_def add_res_less)

lemma alu_res_sft:
  "\<lbrakk>alu_sft c; \<not> alu_add c; \<not> alu_xor c; \<not> alu_or c; \<not> alu_and c; \<not> alu_lui c; \<not> alu_slt c\<rbrakk>
    \<Longrightarrow> alu_res c a b = (if alu_stl c then push_bit (shamt b) a
      else if alu_sgn c then signed_drop_bit (shamt b) a else drop_bit (shamt b) a)"
  by (simp add: alu_res_def gate_def shamt_def shift_left shift_right_arith shift_right_logical)

lemma alu_res_bits:
  "\<lbrakk>\<not> alu_sft c; \<not> alu_add c; \<not> alu_slt c\<rbrakk>
    \<Longrightarrow> alu_res c a b = gate (alu_xor c) (a XOR b) OR gate (alu_or c) (a OR b) OR gate (alu_and c) (a AND b)
      OR gate (alu_lui c) b"
  by (simp add: alu_res_def gate_def)

lemmas ctl_defs = alu_info_def inst_unsgn_def inst_sft_def inst_stl_def inst_add_def inst_sub_def inst_slt_def
  inst_mul_def inst_div_def inst_mix_def inst_low_def inst_rem_def inst_op_muldiv_def

lemmas arith_simps = exec_arith alu_res_add alu_res_slt alu_res_sft alu_res_bits mul_rsp_res_value div_rsp_res_value
  half_res_low half_res_high gate_def idu_def ctl_defs op_defs arith_opcode_def

text \<open>What \<open>funct3\<close> and \<open>funct7\<close> select.\<close>

definition reg_codes :: "(3 word \<times> 7 word \<times> (u32 \<Rightarrow> u32 \<Rightarrow> u32)) set" where
  "reg_codes = {
      (0, 0, \<lambda>a b. a + b), (0, 32, \<lambda>a b. a - b), (1, 0, \<lambda>a b. push_bit (shamt b) a),
      (2, 0, \<lambda>a b. of_bool (a <s b)), (3, 0, \<lambda>a b. of_bool (a < b)), (4, 0, \<lambda>a b. a XOR b),
      (5, 0, \<lambda>a b. drop_bit (shamt b) a), (5, 32, \<lambda>a b. signed_drop_bit (shamt b) a),
      (6, 0, \<lambda>a b. a OR b), (7, 0, \<lambda>a b. a AND b), (0, 1, \<lambda>a b. a * b),
      (1, 1, \<lambda>a b. word_of_int (drop_bit 32 (sint a * sint b))),
      (2, 1, \<lambda>a b. word_of_int (drop_bit 32 (sint a * uint b))),
      (3, 1, \<lambda>a b. word_of_int (drop_bit 32 (uint a * uint b))),
      (4, 1, quotient True), (5, 1, quotient False), (6, 1, remainder True), (7, 1, remainder False)}"

lemma reg_codes_execute:
  assumes "arith_opcode i" and "units_ready m d" and "(inst_funct3 i, inst_funct7 i, f) \<in> reg_codes"
  shows "core_exec m d (csr, False) i pc a b = (plain (pc + 4))\<lparr>o_reg := result i (f a b)\<rparr>"
  using assms(3) unfolding reg_codes_def
  by (elim insertE emptyE; use assms(1,2) in \<open>simp add: arith_simps\<close>)

lemma rv_reg_reg_codes:
  "\<forall>(n, f) \<in> set rv_reg_reg. is_insn i n \<longrightarrow>
     arith_opcode i \<and> (inst_funct3 i, inst_funct7 i, f) \<in> reg_codes"
  by (simp add: rv_reg_reg_def is_insn_def insn_patterns arith_opcode_def)
    (intro conjI impI; drule match_r; simp add: slice_ucast reg_codes_def)

lemma exec_reg_reg:
  assumes "(n, f) \<in> set rv_reg_reg" and "is_insn i n" and "units_ready m d"
  shows "core_exec m d (csr, False) i pc a b = (plain (pc + 4))\<lparr>o_reg := result i (f a b)\<rparr>"
  using rv_reg_reg_codes [of i] assms by (blast intro: reg_codes_execute)


section \<open>Immediates\<close>

lemma bits_below_32:
  assumes "list_all (\<lambda>n. bit a n = bit b n)
    [0, 1, 2, 3, 4, 5, 6, 7, 8, 9, 10, 11, 12, 13, 14, 15, 16, 17, 18, 19, 20, 21, 22, 23, 24, 25, 26, 27, 28, 29, 30, 31]"
  shows "a = (b :: u32)"
proof -
  have "[0..<32] = [0, 1, 2, 3, 4, 5, 6, 7, 8, 9, 10, 11, 12, 13, 14, 15, 16, 17, 18, 19, 20, 21, 22, 23, 24, 25, 26, 27, 28, 29, 30, 31]"
    by code_simp
  with assms have "list_all (\<lambda>n. bit a n = bit b n) [0..<32]"
    by (simp only:)
  then show ?thesis
    by (intro bit_word_eqI) (simp add: list_all_iff)
qed

lemma imm_ext: "inst_i_imm_ext i = imm_i i" "inst_s_imm_ext i = imm_s i" "inst_b_imm_ext i = imm_b i"
  "inst_u_imm_ext i = imm_u i" "inst_j_imm_ext i = imm_j i"
proof -
  show "inst_i_imm_ext i = imm_i i"
    unfolding inst_i_imm_ext_def inst_i_imm_def imm_i_def
    by (rule bit_word_eqI) (auto simp: bit_simps)
  show "inst_s_imm_ext i = imm_s i"
    unfolding inst_s_imm_ext_def inst_s_imm_def imm_s_def
    by (rule bit_word_eqI) (auto simp: bit_simps)
  show "inst_u_imm_ext i = imm_u i"
    unfolding inst_u_imm_ext_def inst_u_imm_def imm_u_def
    by (rule bit_word_eqI) (auto simp: bit_simps)
  show "inst_b_imm_ext i = imm_b i"
    unfolding inst_b_imm_ext_def inst_b_imm_def imm_b_def
    by (rule bits_below_32) (simp only: list.pred_inject, simp add: bit_simps bit_double_iff bit_iff_odd_drop_bit [symmetric])
  show "inst_j_imm_ext i = imm_j i"
    unfolding inst_j_imm_ext_def inst_j_imm_def imm_j_def
    by (rule bits_below_32) (simp only: list.pred_inject, simp add: bit_simps bit_double_iff bit_iff_odd_drop_bit [symmetric])
qed


section \<open>Immediate operands\<close>

definition imm_opcode :: "u32 \<Rightarrow> bool" where
  "imm_opcode i \<longleftrightarrow> inst_opcode_lo i = 3 \<and> inst_opcode_me i = 4 \<and> inst_opcode_hi i = 0"

lemma exec_imm:
  assumes "imm_opcode i"
  shows "core_exec m d (csr, False) i pc a b = (plain (pc + 4))\<lparr>o_reg := result i (alu_res (alu_info i) a (imm_i i))\<rparr>"
  using assms ill_inst_opcode [of i]
  by (simp add: imm_opcode_def exec_defs op_defs inst_mul_def inst_div_def inst_op_muldiv_def imm_ext plain_def
      result_def dest_def ill_inst_def)

definition imm_codes :: "(3 word \<times> (u32 \<Rightarrow> u32 \<Rightarrow> u32)) set" where
  "imm_codes = {(0, \<lambda>a b. a + b), (2, \<lambda>a b. of_bool (a <s b)), (3, \<lambda>a b. of_bool (a < b)),
      (4, \<lambda>a b. a XOR b), (6, \<lambda>a b. a OR b), (7, \<lambda>a b. a AND b)}"

definition shift_codes :: "(3 word \<times> 7 word \<times> (u32 \<Rightarrow> u32 \<Rightarrow> u32)) set" where
  "shift_codes = {(1, 0, \<lambda>a b. push_bit (shamt b) a), (5, 0, \<lambda>a b. drop_bit (shamt b) a),
      (5, 32, \<lambda>a b. signed_drop_bit (shamt b) a)}"

lemmas imm_simps = exec_imm alu_res_add alu_res_slt alu_res_sft alu_res_bits gate_def ctl_defs op_defs imm_opcode_def

lemma imm_codes_execute:
  assumes "imm_opcode i" and "(inst_funct3 i, f) \<in> imm_codes"
  shows "core_exec m d (csr, False) i pc a b = (plain (pc + 4))\<lparr>o_reg := result i (f a (imm_i i))\<rparr>"
  using assms(2) unfolding imm_codes_def
  by (elim insertE emptyE; use assms(1) in \<open>simp add: imm_simps\<close>)

lemma shift_codes_execute:
  assumes "imm_opcode i" and "(inst_funct3 i, inst_funct7 i, f) \<in> shift_codes"
  shows "core_exec m d (csr, False) i pc a b = (plain (pc + 4))\<lparr>o_reg := result i (f a (imm_i i))\<rparr>"
  using assms(2) unfolding shift_codes_def
  by (elim insertE emptyE; use assms(1) in \<open>simp add: imm_simps\<close>)

text \<open>\<open>encoding.h\<close> leaves bit 25 of the immediate shifts open, for the six-bit shifts of a 64-bit machine;
  with 32-bit registers it is zero.\<close>

lemma match_shift:
  assumes "i AND 0xfc00707f = m" and "\<not> bit i 25"
  shows "inst_opcode_lo i = slice 0 m \<and> inst_opcode_me i = slice 2 m \<and> inst_opcode_hi i = slice 5 m
    \<and> inst_funct3 i = slice 12 m \<and> inst_funct7 i = slice 25 m"
proof -
  have "i AND 0xfe00707f = i AND (0xfc00707f OR 0x2000000)"
    by simp
  also have "\<dots> = m OR (i AND 0x2000000)"
    by (simp only: bit.conj_disj_distrib assms(1))
  also have "i AND 0x2000000 = 0"
    using assms(2) and_exp_eq_0_iff_not_bit [of i 25] by simp
  finally have "i AND 0xfe00707f = m"
    by simp
  then show ?thesis by (rule match_r)
qed


lemma rv_reg_imm_codes:
  "\<forall>(n, f) \<in> set rv_reg_imm. is_insn i n \<longrightarrow> (n \<in> {''SLLI'', ''SRLI'', ''SRAI''} \<longrightarrow> \<not> bit i 25) \<longrightarrow>
     imm_opcode i \<and> ((inst_funct3 i, f) \<in> imm_codes \<or> (inst_funct3 i, inst_funct7 i, f) \<in> shift_codes)"
  by (simp add: rv_reg_imm_def is_insn_def insn_patterns imm_opcode_def)
    (intro conjI impI; (drule (1) match_shift | drule match_i); simp add: slice_ucast imm_codes_def shift_codes_def)

lemma exec_reg_imm:
  assumes "(n, f) \<in> set rv_reg_imm" and "is_insn i n" and "n \<in> {''SLLI'', ''SRLI'', ''SRAI''} \<longrightarrow> \<not> bit i 25"
  shows "core_exec m d (csr, False) i pc a b = (plain (pc + 4))\<lparr>o_reg := result i (f a (imm_i i))\<rparr>"
  using rv_reg_imm_codes [of i] assms by (blast intro: imm_codes_execute shift_codes_execute)


section \<open>Memory accesses\<close>

lemma exec_load:
  assumes "inst_op_load i"
  shows "core_exec m d (csr, False) i pc a b = (plain (pc + 4))\<lparr>o_load :=
    Some (dest i, slice 0 (ls_mask i), bit (inst_funct3 i) 2, a + imm_i i)\<rparr>"
  using assms ill_inst_opcode [of i]
  by (simp add: exec_defs op_defs ctl_defs imm_ext plain_def result_def dest_def ill_inst_def alu_res_add)

lemma exec_store:
  assumes "inst_op_store i"
  shows "core_exec m d (csr, False) i pc a b = (plain (pc + 4))\<lparr>o_store := Some (slice 0 (ls_mask i), a + imm_s i, b)\<rparr>"
  using assms ill_inst_opcode [of i]
  by (simp add: exec_defs op_defs ctl_defs imm_ext plain_def result_def dest_def ill_inst_def alu_res_add
      st_data_def fw_std_def)

lemma rv_load_codes:
  "\<forall>(n, k, u) \<in> set rv_load. is_insn i n \<longrightarrow>
     inst_op_load i \<and> slice 0 (ls_mask i) = k \<and> bit (inst_funct3 i) 2 = u"
  by (simp add: rv_load_def is_insn_def insn_patterns inst_op_load_def)
    (intro conjI impI; drule match_i; simp add: slice_ucast ls_mask_def inst_funct3_lo_def gate_def)

lemma rv_store_codes:
  "\<forall>(n, k) \<in> set rv_store. is_insn i n \<longrightarrow> inst_op_store i \<and> slice 0 (ls_mask i) = k"
  by (simp add: rv_store_def is_insn_def insn_patterns inst_op_store_def)
    (intro conjI impI; drule match_i; simp add: slice_ucast ls_mask_def inst_funct3_lo_def gate_def)

section \<open>Branches and jumps\<close>

definition branch_codes :: "(3 word \<times> (u32 \<Rightarrow> u32 \<Rightarrow> bool)) set" where
  "branch_codes = {(0, \<lambda>a b. a = b), (1, \<lambda>a b. a \<noteq> b), (4, \<lambda>a b. a <s b), (5, \<lambda>a b. b \<le>s a),
     (6, \<lambda>a b. a < b), (7, \<lambda>a b. b \<le> a)}"

lemma branch_codes_execute:
  assumes "inst_op_branch i" and "(inst_funct3 i, f) \<in> branch_codes"
  shows "core_exec m d (csr, False) i pc a b = plain (if f a b then pc + imm_b i else pc + 4)"
  using assms(2) unfolding branch_codes_def
  by (elim insertE emptyE; use assms(1) ill_inst_opcode [of i] in \<open>auto simp: exec_defs op_defs ctl_defs imm_ext plain_def
      ill_inst_def inst_bjp_imm_def cmp_eq_def cmp_ne_def cmp_lt_def cmp_ge_def add_res_less word_eq_iff_xor_zero not_less word_sless_alt word_sle_eq\<close>)

lemma rv_branch_codes:
  "\<forall>(n, f) \<in> set rv_branch. is_insn i n \<longrightarrow> inst_op_branch i \<and> (inst_funct3 i, f) \<in> branch_codes"
  by (simp add: rv_branch_def is_insn_def insn_patterns inst_op_branch_def)
    (intro conjI impI; drule match_i; simp add: slice_ucast branch_codes_def)

lemma exec_lui:
  assumes "inst_op_lui i"
  shows "core_exec m d (csr, False) i pc a b = (plain (pc + 4))\<lparr>o_reg := result i (imm_u i)\<rparr>"
  using assms ill_inst_opcode [of i]
  by (simp add: exec_defs op_defs ctl_defs imm_ext plain_def result_def dest_def ill_inst_def alu_res_bits)

lemma exec_auipc:
  assumes "inst_op_auipc i"
  shows "core_exec m d (csr, False) i pc a b = (plain (pc + 4))\<lparr>o_reg := result i (pc + imm_u i)\<rparr>"
  using assms ill_inst_opcode [of i]
  by (simp add: exec_defs op_defs ctl_defs imm_ext plain_def result_def dest_def ill_inst_def alu_res_add)

lemma exec_jal:
  assumes "inst_op_jal i"
  shows "core_exec m d (csr, False) i pc a b = (plain (pc + imm_j i))\<lparr>o_reg := result i (pc + 4)\<rparr>"
  using assms ill_inst_opcode [of i]
  by (simp add: exec_defs op_defs ctl_defs imm_ext plain_def result_def dest_def ill_inst_def alu_res_add inst_bjp_imm_def)

lemma exec_jalr:
  assumes "inst_op_jalr i"
  shows "core_exec m d (csr, False) i pc a b = (plain (a + imm_i i))\<lparr>o_reg := result i (pc + 4)\<rparr>"
  using assms ill_inst_opcode [of i]
  by (simp add: exec_defs op_defs ctl_defs imm_ext plain_def result_def dest_def ill_inst_def alu_res_add inst_bjp_imm_def
      inst_bjp_base_def)


section \<open>Control registers and system instructions\<close>

text \<open>An instruction that sets or clears the bits of a zero field does not write; the core writes the old
  value back where it clears.\<close>

definition csr_operand :: "bool \<Rightarrow> u32 \<Rightarrow> u32 \<Rightarrow> u32" where
  "csr_operand imm i a = (if imm then ucast (inst_rs1_idx i) else a)"

lemma exec_csr:
  assumes "inst_op_csr i"
  shows "core_exec m d (csr, False) i pc a b = (plain (pc + 4))\<lparr>o_reg := result i csr,
    o_csr := (if inst_op_csrrs i \<and> inst_rs1_idx i = 0 then None
              else Some (inst_i_imm i, csr_wr_data csr (csr_operand (inst_op_csrimm i) i a) (idu i pc a b)))\<rparr>"
proof -
  have "inst_funct3 i \<noteq> 0"
    using assms by (auto simp: inst_op_csr_def inst_funct3_lo_def slice_ucast)
  then show ?thesis
    using assms ill_inst_opcode [of i]
    by (auto simp: exec_defs op_defs plain_def result_def dest_def ill_inst_def csr_rs_data_def csr_operand_def
        inst_csr_val_def csr_wr_data_def)
qed

definition csr_codes :: "(3 word \<times> bool \<times> (u32 \<Rightarrow> u32 \<Rightarrow> u32)) set" where
  "csr_codes = {
     (1, False, \<lambda>c r. r), (2, False, \<lambda>c r. c OR r), (3, False, \<lambda>c r. c AND NOT r),
     (5, True, \<lambda>c r. r), (6, True, \<lambda>c r. c OR r), (7, True, \<lambda>c r. c AND NOT r)}"

lemma rv_csr_codes:
  "\<forall>(n, im, f) \<in> set rv_csr. is_insn i n \<longrightarrow> inst_op_system i \<and> (inst_funct3 i, im, f) \<in> csr_codes
     \<and> (n \<in> {''CSRRW'', ''CSRRWI''} \<longleftrightarrow> inst_op_csrrw i)"
  by (simp add: rv_csr_def is_insn_def insn_patterns inst_op_system_def)
    (intro conjI impI; drule match_i; simp add: slice_ucast csr_codes_def op_defs inst_funct3_lo_def)

lemma csr_codes_execute:
  assumes "inst_op_system i" and "(inst_funct3 i, im, f) \<in> csr_codes" and "inst_op_csrrc i \<longrightarrow> inst_rs1_idx i \<noteq> 0"
  shows "core_exec m d (csr, False) i pc a b = (plain (pc + 4))\<lparr>o_reg := result i csr,
    o_csr := (if inst_op_csrrw i \<or> inst_rs1_idx i \<noteq> 0 then Some (inst_i_imm i, f csr (csr_operand im i a)) else None)\<rparr>"
  using assms(2) unfolding csr_codes_def
  by (elim insertE emptyE; use assms(1,3) in \<open>auto simp: exec_csr op_defs inst_funct3_lo_def slice_ucast csr_wr_data_def idu_def\<close>)

definition rv_system :: "(string \<times> (outcome \<Rightarrow> outcome)) list" where
  "rv_system = [
     (''ECALL'', \<lambda>r. r\<lparr>o_env_call := True\<rparr>), (''EBREAK'', \<lambda>r. r\<lparr>o_env_break := True\<rparr>),
     (''MRET'', \<lambda>r. r\<lparr>o_mret := True\<rparr>), (''WFI'', \<lambda>r. r\<lparr>o_wfi := True\<rparr>)]"

lemma exec_system:
  assumes "inst_op_system i" and "inst_funct3 i = 0" and "inst_rd_idx i = 0"
  shows "core_exec m d (csr, False) i pc a b = (plain (pc + 4))\<lparr>o_env_call := inst_op_ecall i, o_env_break := inst_op_ebreak i,
    o_mret := inst_op_mret i, o_wfi := inst_op_wfi i\<rparr>"
  using assms ill_inst_opcode [of i]
  by (simp add: exec_defs op_defs ctl_defs plain_def ill_inst_def inst_funct3_lo_def slice_ucast)

lemma system_word:
  "inst_op_system i \<and> inst_funct3 i = 0 \<and> inst_rd_idx i = 0" if "i \<in> {0x73, 0x100073, 0x30200073, 0x10500073}"
  using that by (elim insertE emptyE; simp add: inst_op_system_def field_defs slice_ucast)

lemma system_ops:
  "inst_op_ecall i = (i = 0x73)" "inst_op_ebreak i = (i = 0x100073)" "inst_op_mret i = (i = 0x30200073)"
  "inst_op_wfi i = (i = 0x10500073)" if "i \<in> {0x73, 0x100073, 0x30200073, 0x10500073}"
  using that by (elim insertE emptyE; simp add: op_defs field_defs inst_i_imm_def slice_ucast bit_0)+

lemma insn_system:
  "is_insn i ''ECALL'' = (i = 0x73)" "is_insn i ''EBREAK'' = (i = 0x100073)" "is_insn i ''MRET'' = (i = 0x30200073)"
  "is_insn i ''WFI'' = (i = 0x10500073)"
proof -
  have "(0xffffffff :: u32) = - 1"
    by simp
  then have "i AND 0xffffffff = i"
    by (simp only: and.right_neutral)
  then show "is_insn i ''ECALL'' = (i = 0x73)" "is_insn i ''EBREAK'' = (i = 0x100073)"
    "is_insn i ''MRET'' = (i = 0x30200073)" "is_insn i ''WFI'' = (i = 0x10500073)"
    by (simp_all only: is_insn_def insn_patterns option.case prod.case)
qed

lemma rv_system_execute:
  assumes "(n, f) \<in> set rv_system" and "is_insn i n"
  shows "core_exec m d (csr, False) i pc a b = f (plain (pc + 4))"
proof -
  have i: "i \<in> {0x73, 0x100073, 0x30200073, 0x10500073}"
    using assms by (auto simp: rv_system_def insn_system)
  show ?thesis
    using assms system_word [OF i] by (auto simp: rv_system_def insn_system exec_system system_ops plain_def)
qed

definition rv_fence :: "string list" where
  "rv_fence = [''FENCE'', ''FENCE_I'']"

lemma exec_fence:
  assumes "is_insn i n" and "n \<in> set rv_fence" and "inst_rd_idx i = 0"
  shows "core_exec m d (csr, False) i pc a b = plain (pc + 4)"
proof -
  have "inst_op_fence i \<or> inst_op_fencei i"
  proof -
    have "i AND 0x707f = 0xf \<or> i AND 0x707f = 0x100f"
      using assms(1,2) by (auto simp: rv_fence_def is_insn_def insn_patterns)
    moreover have "i AND 0x707f = 0xf \<Longrightarrow> inst_op_fence i" and "i AND 0x707f = 0x100f \<Longrightarrow> inst_op_fencei i"
      by (drule match_i; simp add: op_defs slice_ucast)+
    ultimately show ?thesis by blast
  qed
  then have "\<not> inst_wb_act i" and fence: "inst_opcode_lo i = 3" "inst_opcode_me i = 3" "inst_opcode_hi i = 0"
    "inst_op_fence i \<or> inst_op_fencei i"
    using assms(3) by (auto simp: inst_wb_act_def inst_op_fence_def inst_op_fencei_def)
  then show ?thesis
    using ill_inst_opcode [of i]
    by (simp add: exec_defs(1-11) bjp_addr_def bjp_base_def bjp_tak_def op_defs(1-10,13-) ctl_defs plain_def ill_inst_def gate_def)
qed

section \<open>The whole instruction set\<close>

definition rv_jump :: "(string \<times> (u32 \<Rightarrow> u32 \<Rightarrow> u32 \<Rightarrow> outcome)) list" where
  "rv_jump = [
     (''LUI'', \<lambda>i pc a. (plain (pc + 4))\<lparr>o_reg := result i (imm_u i)\<rparr>),
     (''AUIPC'', \<lambda>i pc a. (plain (pc + 4))\<lparr>o_reg := result i (pc + imm_u i)\<rparr>),
     (''JAL'', \<lambda>i pc a. (plain (pc + imm_j i))\<lparr>o_reg := result i (pc + 4)\<rparr>),
     (''JALR'', \<lambda>i pc a. (plain ((a + imm_i i) AND NOT 1))\<lparr>o_reg := result i (pc + 4)\<rparr>)]"

definition rv_isa :: "(string \<times> (u32 \<Rightarrow> u32 \<Rightarrow> u32 \<Rightarrow> u32 \<Rightarrow> u32 \<Rightarrow> outcome)) list" where
  "rv_isa =
     map (\<lambda>(n, f). (n, \<lambda>i pc a b c. (plain (pc + 4))\<lparr>o_reg := result i (f a b)\<rparr>)) rv_reg_reg
   @ map (\<lambda>(n, f). (n, \<lambda>i pc a b c. (plain (pc + 4))\<lparr>o_reg := result i (f a (imm_i i))\<rparr>)) rv_reg_imm
   @ map (\<lambda>(n, f). (n, \<lambda>i pc a b c. plain (if f a b then pc + imm_b i else pc + 4))) rv_branch
   @ map (\<lambda>(n, f). (n, \<lambda>i pc a b c. f i pc a)) rv_jump
   @ map (\<lambda>(n, k, u). (n, \<lambda>i pc a b c. (plain (pc + 4))\<lparr>o_load := Some (dest i, k, u, a + imm_i i)\<rparr>)) rv_load
   @ map (\<lambda>(n, k). (n, \<lambda>i pc a b c. (plain (pc + 4))\<lparr>o_store := Some (k, a + imm_s i, b)\<rparr>)) rv_store
   @ map (\<lambda>(n, im, f). (n, \<lambda>i pc a b c. (plain (pc + 4))\<lparr>o_reg := result i c,
       o_csr := (if n \<in> {''CSRRW'', ''CSRRWI''} \<or> inst_rs1_idx i \<noteq> 0
                 then Some (inst_i_imm i, f c (csr_operand im i a)) else None)\<rparr>)) rv_csr
   @ map (\<lambda>(n, f). (n, \<lambda>i pc a b c. f (plain (pc + 4)))) rv_system
   @ map (\<lambda>n. (n, \<lambda>i pc a b c. plain (pc + 4))) rv_fence"

text \<open>
  Where the core departs from the manual: it does not clear the lowest bit of a computed jump target,
  it writes the register that it clears by a zero operand, it writes zero to a destination that a
  fence names, and bit 25 of an immediate shift is not checked.
\<close>

definition departs :: "string \<Rightarrow> u32 \<Rightarrow> u32 \<Rightarrow> bool" where
  "departs n i a \<longleftrightarrow>
     n = ''JALR'' \<and> bit (a + imm_i i) 0
     \<or> n \<in> {''CSRRC'', ''CSRRCI''} \<and> inst_rs1_idx i = 0
     \<or> n \<in> {''FENCE'', ''FENCE_I''} \<and> inst_rd_idx i \<noteq> 0
     \<or> n \<in> {''SLLI'', ''SRLI'', ''SRAI''} \<and> bit i 25"

lemma jump_codes:
  "is_insn i ''LUI'' \<Longrightarrow> inst_op_lui i" "is_insn i ''AUIPC'' \<Longrightarrow> inst_op_auipc i"
  "is_insn i ''JAL'' \<Longrightarrow> inst_op_jal i" "is_insn i ''JALR'' \<Longrightarrow> inst_op_jalr i"
  by (simp_all only: is_insn_def insn_patterns option.case prod.case)
    ((drule match_i | drule match_u); simp add: op_defs slice_ucast)+

lemma even_target: "x AND - 2 = x" if "\<not> bit x 0" for x :: u32
proof -
  have "x AND NOT 1 = x"
  proof (rule bit_word_eqI)
    fix n show "bit (x AND NOT 1) n = bit x n" if "n < LENGTH(32)"
      using \<open>\<not> bit x 0\<close> that by (cases n) (simp_all add: bit_simps bit_1_iff)
  qed
  then show ?thesis by simp
qed

lemma csrrc_code:
  "\<forall>(n, im, f) \<in> set rv_csr. is_insn i n \<longrightarrow> (n \<in> {''CSRRC'', ''CSRRCI''} \<longleftrightarrow> inst_op_csrrc i)"
  by (simp add: rv_csr_def is_insn_def insn_patterns)
    (intro conjI impI; drule match_i; simp add: slice_ucast csr_codes_def op_defs inst_funct3_lo_def)

lemma exec_rv_branch:
  "(n, f) \<in> set rv_branch \<Longrightarrow> is_insn i n \<Longrightarrow>
    core_exec m d (csr, False) i pc a b = plain (if f a b then pc + imm_b i else pc + 4)"
  using rv_branch_codes [of i] by (blast intro: branch_codes_execute)

lemma exec_rv_load:
  assumes "(n, k, u) \<in> set rv_load" and "is_insn i n"
  shows "core_exec m d (csr, False) i pc a b = (plain (pc + 4))\<lparr>o_load := Some (dest i, k, u, a + imm_i i)\<rparr>"
proof -
  have "inst_op_load i \<and> slice 0 (ls_mask i) = k \<and> bit (inst_funct3 i) 2 = u"
    using rv_load_codes [of i] assms by blast
  then show ?thesis by (simp add: exec_load)
qed

lemma exec_rv_store:
  assumes "(n, k) \<in> set rv_store" and "is_insn i n"
  shows "core_exec m d (csr, False) i pc a b = (plain (pc + 4))\<lparr>o_store := Some (k, a + imm_s i, b)\<rparr>"
proof -
  have "inst_op_store i \<and> slice 0 (ls_mask i) = k"
    using rv_store_codes [of i] assms by fastforce
  then show ?thesis by (simp add: exec_store)
qed

lemma exec_rv_csr:
  assumes "(n, im, f) \<in> set rv_csr" and "is_insn i n" and "n \<in> {''CSRRC'', ''CSRRCI''} \<longrightarrow> inst_rs1_idx i \<noteq> 0"
  shows "core_exec m d (csr, False) i pc a b = (plain (pc + 4))\<lparr>o_reg := result i csr,
       o_csr := (if n \<in> {''CSRRW'', ''CSRRWI''} \<or> inst_rs1_idx i \<noteq> 0
                 then Some (inst_i_imm i, f csr (csr_operand im i a)) else None)\<rparr>"
proof -
  have "n \<in> {''CSRRC'', ''CSRRCI''} \<longleftrightarrow> inst_op_csrrc i" and "n \<in> {''CSRRW'', ''CSRRWI''} \<longleftrightarrow> inst_op_csrrw i"
    and code: "inst_op_system i" "(inst_funct3 i, im, f) \<in> csr_codes"
    using csrrc_code [of i] rv_csr_codes [of i] assms(1,2) by blast+
  with assms(3) show ?thesis
    by (simp only: csr_codes_execute [OF code])
qed

lemma exec_rv_jump:
  assumes "(n, f) \<in> set rv_jump" and "is_insn i n" and "n = ''JALR'' \<longrightarrow> \<not> bit (a + imm_i i) 0"
  shows "core_exec m d (csr, False) i pc a b = f i pc a"
  using assms jump_codes [of i]
  by (auto simp: rv_jump_def exec_lui exec_auipc exec_jal exec_jalr even_target)

text \<open>C2: Decoding and executing an instruction of RV32IM, with multiplication, division, memory accesses,
  branches, control registers and system calls, does what the instruction set says, save for the four
  departures.\<close>

theorem core_implements_isa:
  assumes "(n, f) \<in> set rv_isa" and "is_insn i n" and "\<not> departs n i a" and "units_ready m d"
  shows "core_exec m d (csr, False) i pc a b = f i pc a b csr"
proof -
  have regular: "n = ''JALR'' \<longrightarrow> \<not> bit (a + imm_i i) 0" "n \<in> {''CSRRC'', ''CSRRCI''} \<longrightarrow> inst_rs1_idx i \<noteq> 0"
    "n \<in> set rv_fence \<longrightarrow> inst_rd_idx i = 0" "n \<in> {''SLLI'', ''SRLI'', ''SRAI''} \<longrightarrow> \<not> bit i 25"
    using assms(3) by (auto simp: departs_def rv_fence_def)
  note exec = exec_reg_reg [OF _ assms(2,4)] exec_reg_imm [OF _ assms(2) regular(4)] exec_rv_branch [OF _ assms(2)]
    exec_rv_jump [OF _ assms(2) regular(1)] exec_rv_load [OF _ assms(2)] exec_rv_store [OF _ assms(2)]
    exec_rv_csr [OF _ assms(2) regular(2)] rv_system_execute [OF _ assms(2)] exec_fence [OF assms(2)]
  show ?thesis
    using assms(1) regular(3) unfolding rv_isa_def set_append set_map
    by (elim UnE; clarsimp simp: exec simp del: insert_iff)
qed


theorem core_implements_isa_witness:
  "core_exec mul_reset div_reset (0, False) 0x027342B3 0x100 (- 7) 3 = (plain 0x104)\<lparr>o_reg := Some (5, - 2)\<rparr>"
proof -
  have "(''DIV'', \<lambda>i pc a b c. (plain (pc + 4))\<lparr>o_reg := result i (quotient True a b)\<rparr>) \<in> set rv_isa"
    by (simp add: rv_isa_def rv_reg_reg_def)
  moreover have "is_insn 0x027342B3 ''DIV''"
    by (simp add: is_insn_def insn_patterns)
  moreover have "\<not> departs ''DIV'' 0x027342B3 (- 7)"
    by (simp add: departs_def)
  moreover have "units_ready mul_reset div_reset"
    by (simp add: units_ready_def mul_reset_def div_reset_def)
  ultimately have "core_exec mul_reset div_reset (0, False) 0x027342B3 0x100 (- 7) 3
      = (plain (0x100 + 4))\<lparr>o_reg := result 0x027342B3 (quotient True (- 7) 3)\<rparr>"
    by (rule core_implements_isa)
  then show ?thesis
    by (simp add: quotient_def result_def dest_def inst_rd_idx_def slice_ucast)
qed

text \<open>The departures, each on an instruction that shows it: a return through an odd address, a read of the
  hart number as \<open>CSRRC x5, mhartid, x0\<close>, and a fence that names the return address register.\<close>

lemma exec_fence_dest:
  assumes "inst_op_fence i"
  shows "o_reg (core_exec m d (csr, False) i pc a b) = result i 0"
  using assms by (simp add: exec_defs op_defs ctl_defs result_def dest_def alu_res_bits)

lemma departures:
  "o_pc (core_exec m d (csr, False) 0x00008067 pc 0x101 b) = 0x101"
  "o_csr (core_exec m d (csr, False) 0xF14032F3 pc 0 b) = Some (0xF14, csr)"
  "o_reg (core_exec m d (csr, False) 0x0000008F pc a b) = Some (1, 0)"
proof -
  have "imm_i 0x00008067 = 0" and "inst_op_jalr 0x00008067"
    by code_simp+
  then show "o_pc (core_exec m d (csr, False) 0x00008067 pc 0x101 b) = 0x101"
    by (simp add: exec_jalr plain_def)
  have "inst_op_csr 0xF14032F3" "\<not> inst_op_csrrs 0xF14032F3" "\<not> inst_op_csrimm 0xF14032F3" "inst_op_csrrc 0xF14032F3"
    "inst_i_imm 0xF14032F3 = 0xF14"
    by code_simp+
  then show "o_csr (core_exec m d (csr, False) 0xF14032F3 pc 0 b) = Some (0xF14, csr)"
    by (simp add: exec_csr plain_def csr_wr_data_def csr_operand_def idu_def)
  have "inst_op_fence 0x0000008F" and "inst_rd_idx 0x0000008F = 1"
    by code_simp+
  then show "o_reg (core_exec m d (csr, False) 0x0000008F pc a b) = Some (1, 0)"
    by (simp add: exec_fence_dest result_def dest_def)
qed

end
