(* ===== verification/Core_Bypass.thy ===== *)
theory Core_Bypass
  imports Core_Isa
begin

text \<open>
  The bypass network of the execution unit. An instruction is decoded with the registers the file holds
  at that moment, while the results of the two instructions before it may still be on their way. The
  theorem says that the multiplexers of \<open>uv_exu.v\<close> make up for it: every instruction, legal or not,
  has the outcome it would have with both results written back.
\<close>

text \<open>An instruction that selects no operation of the unit gets zero.\<close>

lemma alu_res_none:
  "\<lbrakk>\<not> alu_sft c; \<not> alu_add c; \<not> alu_slt c; \<not> alu_xor c; \<not> alu_or c; \<not> alu_and c; \<not> alu_lui c\<rbrakk>
    \<Longrightarrow> alu_res c a b = 0"
  by (simp add: alu_res_bits gate_def)

definition no_operation :: "u32 \<Rightarrow> bool" where
  "no_operation i \<longleftrightarrow> \<not> inst_op_branch i \<and> \<not> inst_op_arith i \<and> \<not> inst_op_imm i \<and> \<not> inst_op_load i \<and> \<not> inst_op_store i
     \<and> \<not> inst_op_lui i \<and> \<not> inst_op_auipc i \<and> \<not> inst_op_jal i \<and> \<not> inst_op_jalr i"

lemma no_operation_alu: "no_operation i \<Longrightarrow> alu_res (alu_info i) a b = 0"
  by (simp add: no_operation_def alu_res_none ctl_defs inst_op_ls_def inst_op_ia_def inst_bjp_def)

lemma lui_alu: "inst_op_lui i \<Longrightarrow> alu_res (alu_info i) a b = b"
  by (simp add: alu_res_bits ctl_defs op_defs gate_def)

text \<open>Two copies of an instruction that differ in the registers they were decoded with.\<close>

lemma wb_data_cong:
  assumes "no_operation i \<or> (inst_op_lui i \<or> opa = opa') \<and> opb = opb'"
  shows "wb_data m d csr opa opb (idu i pc a b) = wb_data m d csr opa' opb' (idu i pc a' b')"
proof -
  have sel: "x_csr_rd (idu i pc u v) = (inst_op_csr i \<and> \<not> (inst_op_csrrw i \<and> inst_rd_idx i = 0))"
    "x_mul (idu i pc u v) = inst_mul i" "x_div (idu i pc u v) = inst_div i" "x_alu (idu i pc u v) = alu_info i"
    "mul_request r s (idu i pc u v) = mul_request r s (idu i pc a b)"
    "div_request r s (idu i pc u v) = div_request r s (idu i pc a b)" for r s u v
    by (simp_all add: idu_def mul_request_def div_request_def)
  have "\<not> inst_mul i \<and> \<not> inst_div i" if "no_operation i \<or> inst_op_lui i"
    using that by (auto simp: no_operation_def inst_mul_def inst_div_def inst_op_muldiv_def inst_op_arith_def inst_op_lui_def)
  then show ?thesis
    unfolding wb_data_def sel(1-4) sel(5,6) [of _ _ a' b'] using assms no_operation_alu [of i] lui_alu [of i] by auto
qed

lemma alu_cong:
  assumes "no_operation i \<or> (inst_op_lui i \<or> opa = opa') \<and> opb = opb'"
  shows "alu_res (alu_info i) opa opb = alu_res (alu_info i) opa' opb'"
  using assms no_operation_alu [of i] lui_alu [of i] by auto

lemma bjp_tak_cong:
  assumes "no_operation i \<or> (inst_op_lui i \<or> opa = opa') \<and> opb = opb'"
  shows "bjp_tak opa opb (idu i pc a b) = bjp_tak opa' opb' (idu i pc a' b')"
proof (cases "inst_op_branch i")
  case True
  then have "opa = opa' \<and> opb = opb'"
    using assms by (auto simp: no_operation_def inst_op_branch_def inst_op_lui_def)
  then show ?thesis
    by (simp add: bjp_tak_def idu_def)
next
  case False
  then show ?thesis
    by (simp add: bjp_tak_def idu_def inst_op_beq_def inst_op_bne_def inst_op_blt_def inst_op_bge_def)
qed

lemma exu_cong:
  assumes ops: "no_operation i
      \<or> (inst_op_lui i \<or> calc_opa ex ls (idu i pc a b) = calc_opa ex' ls' (idu i pc a' b'))
        \<and> calc_opb ex ls (idu i pc a b) = calc_opb ex' ls' (idu i pc a' b')"
    and st: "inst_op_store i \<longrightarrow> st_data ex ls (idu i pc a b) = st_data ex' ls' (idu i pc a' b')"
    and csr: "inst_op_csr i \<longrightarrow> csr_rs_data ex ls (idu i pc a b) = csr_rs_data ex' ls' (idu i pc a' b')"
    and base: "bjp_base ex ls (idu i pc a b) = bjp_base ex' ls' (idu i pc a' b')"
  shows "exu m d c ex ls (idu i pc a b) = exu m d c ex' ls' (idu i pc a' b')"
proof -
  have sel: "x_alu (idu i pc u v) = alu_info i" "x_wb_act (idu i pc u v) = inst_wb_act i"
    "x_wb_idx (idu i pc u v) = inst_rd_idx i" "x_load (idu i pc u v) = inst_op_load i"
    "x_loadu (idu i pc u v) = inst_op_loadu i" "x_store (idu i pc u v) = inst_op_store i"
    "x_ls_mask (idu i pc u v) = gate (inst_op_ls i) (slice 0 (ls_mask i))" "x_csr_idx (idu i pc u v) = inst_i_imm i"
    "x_csr_wr (idu i pc u v) = (inst_op_csr i \<and> \<not> (inst_op_csrrs i \<and> inst_rs1_idx i = 0))"
    "x_csr_rd (idu i pc u v) = (inst_op_csr i \<and> \<not> (inst_op_csrrw i \<and> inst_rd_idx i = 0))"
    "x_ill_inst (idu i pc u v) = ill_inst i" "x_env_call (idu i pc u v) = inst_op_ecall i"
    "x_env_break (idu i pc u v) = inst_op_ebreak i" "x_mret (idu i pc u v) = inst_op_mret i"
    "x_wfi (idu i pc u v) = inst_op_wfi i" "x_jal (idu i pc u v) = inst_op_jal i"
    "x_jalr (idu i pc u v) = inst_op_jalr i" "x_bjp_imm (idu i pc u v) = inst_bjp_imm i" for u v
    by (simp_all add: idu_def)
  have wr: "csr_wr_data (fst c) r (idu i pc a b) = csr_wr_data (fst c) r (idu i pc a' b')" for r
    by (simp add: csr_wr_data_def idu_def)
  show ?thesis
    using st csr wr base
    by (auto simp: exu_def Let_def sel bjp_addr_def alu_cong [OF ops]
        wb_data_cong [OF ops, where pc = pc and a = a and b = b and a' = a' and b' = b']
        bjp_tak_cong [OF ops, where pc = pc and a = a and b = b and a' = a' and b' = b'])
qed

lemma arch_regs_bypass:
  "arch_regs ex ls rf r = (if fw_hits ex r then snd (snd ex) else if fw_hits ls r then snd (snd ls) else rf r)"
  by (auto simp: arch_regs_def settle_def fw_hits_def)

lemma no_fw_misses [simp]: "\<not> fw_hits no_fw r"
  by (simp add: fw_hits_def no_fw_def)

lemma csr_reads_rs1: "inst_op_csr i \<Longrightarrow> \<not> inst_op_csrimm i \<Longrightarrow> rs1_vld i"
  by (auto simp: rs1_vld_def op_defs inst_funct3_lo_def slice_ucast)

lemma bypass_csr:
  "inst_op_csr i \<Longrightarrow> csr_rs_data ex ls (idu i pc (rf (inst_rs1_idx i)) b)
    = csr_rs_data no_fw no_fw (idu i pc (arch_regs ex ls rf (inst_rs1_idx i)) b')"
  using csr_reads_rs1 [of i]
  by (auto simp: csr_rs_data_def fw_rs1_def idu_def inst_csr_val_def arch_regs_bypass)

lemma bypass_store:
  "inst_op_store i \<Longrightarrow> st_data ex ls (idu i pc a (rf (inst_rs2_idx i)))
    = st_data no_fw no_fw (idu i pc a' (arch_regs ex ls rf (inst_rs2_idx i)))"
  by (simp add: st_data_def fw_std_def idu_def arch_regs_bypass)

lemma jalr_reads_rs1: "inst_op_jalr i \<Longrightarrow> rs1_vld i"
  by (simp add: rs1_vld_def op_defs)

lemma bypass_base:
  "bjp_base ex ls (idu i pc (rf (inst_rs1_idx i)) b)
    = bjp_base no_fw no_fw (idu i pc (arch_regs ex ls rf (inst_rs1_idx i)) b')"
  using jalr_reads_rs1 [of i]
  by (auto simp: bjp_base_def fw_rs1_def idu_def inst_bjp_base_def arch_regs_bypass)

text \<open>What the operands of the unit are.\<close>

lemma operation_sources:
  "\<not> no_operation i \<Longrightarrow> inst_opa_pc i \<or> inst_op_lui i \<or> rs1_vld i"
  by (auto simp: no_operation_def inst_opa_pc_def rs1_vld_def op_defs)

lemma rs2_sources:
  "\<not> no_operation i \<Longrightarrow> \<not> inst_op_ls i \<Longrightarrow> rs2_vld i \<longleftrightarrow> inst_op_branch i \<or> inst_op_arith i"
  "inst_op_branch i \<or> inst_op_arith i \<Longrightarrow> inst_opb i v = v"
  "\<not> (inst_op_branch i \<or> inst_op_arith i) \<Longrightarrow> inst_opb i v = inst_opb i w"
  by (auto simp: no_operation_def rs1_vld_def rs2_vld_def op_defs inst_opb_def gate_def)

lemma bypass_opa:
  assumes "inst_opa_pc i \<or> rs1_vld i"
  shows "calc_opa ex ls (idu i pc (rf (inst_rs1_idx i)) b)
      = calc_opa no_fw no_fw (idu i pc (arch_regs ex ls rf (inst_rs1_idx i)) b')"
  using assms by (auto simp: calc_opa_def idu_def inst_opa_def fw_rs1_def arch_regs_bypass)

lemma bypass_opb:
  assumes "\<not> no_operation i"
  shows "calc_opb ex ls (idu i pc a (rf (inst_rs2_idx i)))
      = calc_opb no_fw no_fw (idu i pc a' (arch_regs ex ls rf (inst_rs2_idx i)))"
proof (cases "inst_op_ls i")
  case True
  then have "\<not> (inst_op_branch i \<or> inst_op_arith i)"
    by (auto simp: op_defs)
  with True rs2_sources(3) [OF this] show ?thesis
    by (auto simp: calc_opb_def idu_def inst_op_ls_def)
next
  case False
  with assms have vld: "rs2_vld i \<longleftrightarrow> inst_op_branch i \<or> inst_op_arith i"
    by (rule rs2_sources(1))
  show ?thesis
  proof (cases "rs2_vld i")
    case True
    with vld rs2_sources(2) show ?thesis
      using False by (simp add: calc_opb_def idu_def inst_op_ls_def fw_rs2_def arch_regs_bypass)
  next
    case False
    with vld rs2_sources(3) have "inst_opb i v = inst_opb i w" for v w
      by blast
    then show ?thesis
      using False by (simp add: calc_opb_def idu_def fw_rs2_def)
  qed
qed

text \<open>C11: Every instruction leaves the execution unit as if the two results still under way had been in the
  register file when it was decoded.\<close>

theorem bypass_transparent:
  "exu m d c ex ls (idu i pc (rf (inst_rs1_idx i)) (rf (inst_rs2_idx i)))
    = core_exec m d c i pc (arch_regs ex ls rf (inst_rs1_idx i)) (arch_regs ex ls rf (inst_rs2_idx i))"
  unfolding core_exec_def
proof (rule exu_cong)
  let ?s1 = "inst_rs1_idx i" and ?s2 = "inst_rs2_idx i"
  let ?x = "idu i pc (rf ?s1) (rf ?s2)" and ?y = "idu i pc (arch_regs ex ls rf ?s1) (arch_regs ex ls rf ?s2)"
  show "no_operation i \<or> (inst_op_lui i \<or> calc_opa ex ls ?x = calc_opa no_fw no_fw ?y)
      \<and> calc_opb ex ls ?x = calc_opb no_fw no_fw ?y"
    using operation_sources [of i] bypass_opa [of i] bypass_opb [of i] by blast
  show "inst_op_store i \<longrightarrow> st_data ex ls ?x = st_data no_fw no_fw ?y"
    by (intro impI bypass_store)
  show "inst_op_csr i \<longrightarrow> csr_rs_data ex ls ?x = csr_rs_data no_fw no_fw ?y"
    by (intro impI bypass_csr)
  show "bjp_base ex ls ?x = bjp_base no_fw no_fw ?y"
    by (rule bypass_base)
qed

end
