(* ===== verification/Core_Csr.thy ===== *)
theory Core_Csr
  imports Core_Isa Uv_Irq
begin

text \<open>
  The control and status registers \<open>design/core/uv_csr.v\<close> at the width of the core (XLEN = 32): the
  decoding of an index, one function per register for its value after a clock edge, the read port with
  its exceptions. \<open>csr_view\<close> reads the registers as the \<open>csr_file\<close> that the access macros of
  \<open>encoding.h\<close> work on; the lemmas show what a write leaves there, what a whole control-register
  instruction does, and that the interrupt macros of \<open>uv_irq.h\<close> do what their model says.
\<close>

section \<open>Registers and inputs\<close>

record csr_regs =
  cs_mstatus :: u32
  cs_misa :: u32
  cs_mie :: u32
  cs_mtvec :: u32
  cs_mscratch :: u32
  cs_mepc :: u32
  cs_mcause :: u32
  cs_mtval :: u32
  cs_mip :: u32
  cs_mcycle :: u64
  cs_minstret :: u64
  cs_mcountinhibit :: u32
  intr_ext_p :: bool
  intr_tmr_p :: bool
  intr_sft_p :: bool

record csr_ids =
  ARCH_ID :: u64
  IMPL_ID :: u64
  HART_ID :: u64
  VENDOR_ID :: u64

text \<open>The write port, the privilege, and what the commit unit and the devices report.\<close>

record csr_in =
  i_wr_vld :: bool
  i_wr_idx :: "12 word"
  i_wr_data :: u32
  i_pri_level :: "2 word"
  i_trap_trig :: bool
  i_trap_exit :: bool
  i_trap_type :: bool
  i_trap_code :: "4 word"
  i_trap_mepc :: u32
  i_trap_info :: u32
  i_intr_ext :: bool
  i_intr_sft :: bool
  i_intr_tmr :: bool
  i_instret_inc :: bool

text \<open>The read port.\<close>

record csr_rd =
  r_rd_vld :: bool
  r_wb_act :: bool
  r_rd_idx :: "12 word"
  r_dbg_mode :: bool
  r_pri_level :: "2 word"
  r_map_mtime :: u64

section \<open>Decoding\<close>

definition rw_flag :: "12 word \<Rightarrow> 2 word" where "rw_flag idx = slice 10 idx"
definition pri_flag :: "12 word \<Rightarrow> 2 word" where "pri_flag idx = slice 8 idx"
definition csr_addr :: "12 word \<Rightarrow> 8 word" where "csr_addr idx = slice 0 idx"

definition csr_ulevel :: "12 word \<Rightarrow> bool" where "csr_ulevel idx \<longleftrightarrow> pri_flag idx = 0"

definition csr_mlevel :: "2 word \<Rightarrow> 12 word \<Rightarrow> bool" where
  "csr_mlevel pri idx \<longleftrightarrow> pri = 3 \<and> pri_flag idx = 3"

definition csr_op :: "2 word \<Rightarrow> 8 word \<Rightarrow> csr_in \<Rightarrow> bool" where
  "csr_op flag a x \<longleftrightarrow>
     rw_flag (i_wr_idx x) = flag \<and> csr_mlevel (i_pri_level x) (i_wr_idx x) \<and> csr_addr (i_wr_idx x) = a"

definition op_mstatus :: "csr_in \<Rightarrow> bool" where "op_mstatus = csr_op 0 0x00"
definition op_misa :: "csr_in \<Rightarrow> bool" where "op_misa = csr_op 0 0x01"
definition op_mie :: "csr_in \<Rightarrow> bool" where "op_mie = csr_op 0 0x04"
definition op_mtvec :: "csr_in \<Rightarrow> bool" where "op_mtvec = csr_op 0 0x05"
definition op_mscratch :: "csr_in \<Rightarrow> bool" where "op_mscratch = csr_op 0 0x40"
definition op_mepc :: "csr_in \<Rightarrow> bool" where "op_mepc = csr_op 0 0x41"
definition op_mcause :: "csr_in \<Rightarrow> bool" where "op_mcause = csr_op 0 0x42"
definition op_mtval :: "csr_in \<Rightarrow> bool" where "op_mtval = csr_op 0 0x43"
definition op_mcycle :: "csr_in \<Rightarrow> bool" where "op_mcycle = csr_op 2 0x00"
definition op_minstret :: "csr_in \<Rightarrow> bool" where "op_minstret = csr_op 2 0x02"
definition op_mcycleh :: "csr_in \<Rightarrow> bool" where "op_mcycleh = csr_op 2 0x80"
definition op_minstreth :: "csr_in \<Rightarrow> bool" where "op_minstreth = csr_op 2 0x82"
definition op_mcountinhibit :: "csr_in \<Rightarrow> bool" where "op_mcountinhibit = csr_op 0 0x20"

section \<open>The registers after a clock edge\<close>

text \<open>An assignment to one bit of a register, and to those of a mask.\<close>

definition put_bit :: "nat \<Rightarrow> bool \<Rightarrow> 'a::len word \<Rightarrow> 'a word" where
  "put_bit n b w = (if b then set_bit n w else unset_bit n w)"

definition put_bits :: "'a::len word \<Rightarrow> 'a word \<Rightarrow> 'a word \<Rightarrow> 'a word" where
  "put_bits m v w = (w AND NOT m) OR (v AND m)"

definition csr_reset :: csr_regs where
  "csr_reset = \<lparr>cs_mstatus = 0x1880, cs_misa = 0x40001100, cs_mie = 0, cs_mtvec = 0, cs_mscratch = 0,
     cs_mepc = 0, cs_mcause = 0, cs_mtval = 0, cs_mip = 0, cs_mcycle = 0, cs_minstret = 0,
     cs_mcountinhibit = 0xFFFFFFFD, intr_ext_p = False, intr_tmr_p = False, intr_sft_p = False\<rparr>"

definition mcycle_nxt :: "csr_in \<Rightarrow> csr_regs \<Rightarrow> u64" where
  "mcycle_nxt x c =
     (if i_wr_vld x \<and> op_mcycle x then put_bits 0xFFFFFFFF (ucast (i_wr_data x)) (cs_mcycle c)
      else if i_wr_vld x \<and> op_mcycleh x
        then put_bits 0xFFFFFFFF00000000 (push_bit 32 (ucast (i_wr_data x))) (cs_mcycle c)
      else if \<not> bit (cs_mcountinhibit c) 0 then cs_mcycle c + 1
      else cs_mcycle c)"

definition minstret_nxt :: "csr_in \<Rightarrow> csr_regs \<Rightarrow> u64" where
  "minstret_nxt x c =
     (if i_wr_vld x \<and> op_minstret x then put_bits 0xFFFFFFFF (ucast (i_wr_data x)) (cs_minstret c)
      else if i_wr_vld x \<and> op_minstreth x
        then put_bits 0xFFFFFFFF00000000 (push_bit 32 (ucast (i_wr_data x))) (cs_minstret c)
      else if i_instret_inc x \<and> \<not> bit (cs_mcountinhibit c) 2 then cs_minstret c + 1
      else cs_minstret c)"

definition mcountinhibit_nxt :: "csr_in \<Rightarrow> csr_regs \<Rightarrow> u32" where
  "mcountinhibit_nxt x c =
     (if i_wr_vld x \<and> op_mcountinhibit x then put_bits 0xFFFFFFFD (i_wr_data x) (cs_mcountinhibit c)
      else cs_mcountinhibit c)"

definition misa_nxt :: "csr_in \<Rightarrow> csr_regs \<Rightarrow> u32" where
  "misa_nxt x c =
     (if i_wr_vld x \<and> op_misa x
      then put_bit 4 (\<not> bit (i_wr_data x) 8) (put_bit 8 (bit (i_wr_data x) 8)
             (put_bit 12 (bit (i_wr_data x) 12) (cs_misa c)))
      else cs_misa c)"

definition mstatus_nxt :: "csr_in \<Rightarrow> csr_regs \<Rightarrow> u32" where
  "mstatus_nxt x c =
     (let m = cs_mstatus c
      in if i_trap_trig x then put_bit 3 False (put_bit 7 (bit m 3) m)
         else if i_trap_exit x then put_bit 3 (bit m 7) (put_bit 7 True m)
         else if i_wr_vld x \<and> op_mstatus x then put_bit 3 (bit (i_wr_data x) 3) (put_bit 7 (bit (i_wr_data x) 7) m)
         else m)"

definition mtvec_nxt :: "csr_in \<Rightarrow> csr_regs \<Rightarrow> u32" where
  "mtvec_nxt x c =
     (if i_wr_vld x \<and> op_mtvec x then put_bits 0xFFFFFFFD (i_wr_data x) (cs_mtvec c) else cs_mtvec c)"

definition mie_nxt :: "csr_in \<Rightarrow> csr_regs \<Rightarrow> u32" where
  "mie_nxt x c =
     (if i_wr_vld x \<and> op_mie x
      then put_bit 11 (bit (i_wr_data x) 11) (put_bit 7 (bit (i_wr_data x) 7) (put_bit 3 (bit (i_wr_data x) 3) (cs_mie c)))
      else cs_mie c)"

text \<open>The pending bits: a rising request sets its bit; a falling external request clears all three.\<close>

definition intr_clr :: "csr_in \<Rightarrow> csr_regs \<Rightarrow> bool" where
  "intr_clr x c \<longleftrightarrow> \<not> i_intr_ext x \<and> intr_ext_p c"

definition pending :: "bool \<Rightarrow> bool \<Rightarrow> bool \<Rightarrow> bool \<Rightarrow> bool" where
  "pending intr intr_p clr b = (if intr \<and> \<not> intr_p then True else if clr then False else b)"

definition mip_nxt :: "csr_in \<Rightarrow> csr_regs \<Rightarrow> u32" where
  "mip_nxt x c =
     (let m = cs_mip c; clr = intr_clr x c
      in if i_pri_level x = 3
         then put_bit 11 (pending (i_intr_ext x) (intr_ext_p c) clr (bit m 11))
                (put_bit 7 (pending (i_intr_tmr x) (intr_tmr_p c) clr (bit m 7))
                  (put_bit 3 (pending (i_intr_sft x) (intr_sft_p c) clr (bit m 3)) m))
         else m)"

definition mscratch_nxt :: "csr_in \<Rightarrow> csr_regs \<Rightarrow> u32" where
  "mscratch_nxt x c = (if i_wr_vld x \<and> op_mscratch x then i_wr_data x else cs_mscratch c)"

definition mepc_nxt :: "csr_in \<Rightarrow> csr_regs \<Rightarrow> u32" where
  "mepc_nxt x c =
     (if i_trap_trig x \<and> i_pri_level x = 3 then i_trap_mepc x
      else if i_wr_vld x \<and> op_mepc x then i_wr_data x else cs_mepc c)"

definition mcause_nxt :: "csr_in \<Rightarrow> csr_regs \<Rightarrow> u32" where
  "mcause_nxt x c =
     (if i_trap_trig x \<and> i_pri_level x = 3
      then (if i_trap_type x then 0x80000000 else 0) OR ucast (i_trap_code x)
      else if i_wr_vld x \<and> op_mcause x then i_wr_data x else cs_mcause c)"

definition mtval_nxt :: "csr_in \<Rightarrow> csr_regs \<Rightarrow> u32" where
  "mtval_nxt x c =
     (if i_trap_trig x \<and> i_pri_level x = 3 then i_trap_info x
      else if i_wr_vld x \<and> op_mtval x then i_wr_data x else cs_mtval c)"

definition csr_step :: "csr_in \<Rightarrow> csr_regs \<Rightarrow> csr_regs" where
  "csr_step x c =
     \<lparr>cs_mstatus = mstatus_nxt x c, cs_misa = misa_nxt x c, cs_mie = mie_nxt x c, cs_mtvec = mtvec_nxt x c,
      cs_mscratch = mscratch_nxt x c, cs_mepc = mepc_nxt x c, cs_mcause = mcause_nxt x c,
      cs_mtval = mtval_nxt x c, cs_mip = mip_nxt x c, cs_mcycle = mcycle_nxt x c,
      cs_minstret = minstret_nxt x c, cs_mcountinhibit = mcountinhibit_nxt x c,
      intr_ext_p = i_intr_ext x, intr_tmr_p = i_intr_tmr x, intr_sft_p = i_intr_sft x\<rparr>"

section \<open>The read port\<close>

text \<open>
  The value and whether the register exists. Registers the file ties to zero are written as zero. The
  two tests for the counters \<open>mhpmcounter3\<close> to \<open>mhpmcounter31\<close> and their high halves are separate,
  the second with an \<open>else\<close> of its own.
\<close>

definition no_csr :: "u32 \<times> bool" where "no_csr = (0, False)"

definition rd_debug :: "12 word \<Rightarrow> u32 \<times> bool" where
  "rd_debug idx = (if csr_addr idx \<in> {0xA0, 0xA1, 0xA2, 0xA3} then (0, True) else no_csr)"

definition rd_dcsr :: "12 word \<Rightarrow> u32 \<times> bool" where
  "rd_dcsr idx = (if csr_addr idx \<in> {0xB0, 0xB1, 0xB2, 0xB3} then (0, True) else no_csr)"

definition rd_user :: "u64 \<Rightarrow> 12 word \<Rightarrow> csr_regs \<Rightarrow> u32 \<times> bool" where
  "rd_user mtime idx c =
     (let a = csr_addr idx
      in if a = 0x00 then (ucast (cs_mcycle c), True)
         else if a = 0x01 then (ucast mtime, True)
         else if a = 0x02 then (ucast (cs_minstret c), True)
         else if a = 0x80 then (ucast (drop_bit 32 (cs_mcycle c)), True)
         else if a = 0x81 then (ucast (drop_bit 32 mtime), True)
         else if a = 0x82 then (ucast (drop_bit 32 (cs_minstret c)), True)
         else if 0x03 \<le> a \<and> a \<le> 0x1F then (0, True)
         else if 0x83 \<le> a \<and> a \<le> 0x9F then (0, True)
         else no_csr)"

definition rd_info :: "csr_ids \<Rightarrow> 12 word \<Rightarrow> u32 \<times> bool" where
  "rd_info ids idx =
     (let a = csr_addr idx
      in if a = 0x11 then (ucast (VENDOR_ID ids), True)
         else if a = 0x12 then (ucast (ARCH_ID ids), True)
         else if a = 0x13 then (ucast (IMPL_ID ids), True)
         else if a = 0x14 then (ucast (HART_ID ids), True)
         else no_csr)"

definition rd_count :: "12 word \<Rightarrow> csr_regs \<Rightarrow> u32 \<times> bool" where
  "rd_count idx c =
     (let a = csr_addr idx
      in if a = 0x00 then (ucast (cs_mcycle c), True)
         else if a = 0x02 then (ucast (cs_minstret c), True)
         else if a = 0x80 then (ucast (drop_bit 32 (cs_mcycle c)), True)
         else if a = 0x82 then (ucast (drop_bit 32 (cs_minstret c)), True)
         else if 0x83 \<le> a \<and> a \<le> 0x9F then (0, True)
         else no_csr)"

definition rd_machine :: "12 word \<Rightarrow> csr_regs \<Rightarrow> u32 \<times> bool" where
  "rd_machine idx c =
     (let a = csr_addr idx
      in if a = 0x00 then (cs_mstatus c, True)
         else if a = 0x01 then (cs_misa c, True)
         else if a = 0x04 then (cs_mie c, True)
         else if a = 0x05 then (cs_mtvec c, True)
         else if a \<in> {0x02, 0x03, 0x06, 0x10} then (0, True)
         else if a = 0x40 then (cs_mscratch c, True)
         else if a = 0x41 then (cs_mepc c, True)
         else if a = 0x42 then (cs_mcause c, True)
         else if a = 0x43 then (cs_mtval c, True)
         else if a = 0x44 then (cs_mip c, True)
         else if a \<in> {0x4A, 0x4B} then (0, True)
         else if a = 0x20 then (cs_mcountinhibit c, True)
         else if 0xA0 \<le> a \<and> a \<le> 0xEF then (0, True)
         else if 0x23 \<le> a \<and> a \<le> 0x3F then (0, True)
         else no_csr)"

definition csr_read :: "csr_ids \<Rightarrow> csr_rd \<Rightarrow> csr_regs \<Rightarrow> u32 \<times> bool" where
  "csr_read ids r c =
     (let idx = r_rd_idx r; m = csr_mlevel (r_pri_level r) idx
      in if r_rd_vld r \<and> (m \<or> r_dbg_mode r) \<and> rw_flag idx = 1 then rd_debug idx
         else if r_rd_vld r \<and> r_dbg_mode r then rd_dcsr idx
         else if r_rd_vld r \<and> csr_ulevel idx \<and> rw_flag idx = 3 then rd_user (r_map_mtime r) idx c
         else if r_rd_vld r \<and> m \<and> rw_flag idx = 3 then rd_info ids idx
         else if r_rd_vld r \<and> m \<and> rw_flag idx = 2 then rd_count idx c
         else if r_rd_vld r \<and> m \<and> rw_flag idx = 0 then rd_machine idx c
         else no_csr)"

definition csr_excp :: "csr_ids \<Rightarrow> csr_rd \<Rightarrow> csr_regs \<Rightarrow> bool" where
  "csr_excp ids r c \<longleftrightarrow>
     r_rd_vld r \<and> \<not> snd (csr_read ids r c)
     \<or> r_rd_vld r \<and> r_pri_level r < 3 \<and> pri_flag (r_rd_idx r) = 3
     \<or> r_rd_vld r \<and> r_wb_act r \<and> rw_flag (r_rd_idx r) = 3"


section \<open>Indices\<close>

definition csr_join :: "2 word \<Rightarrow> 2 word \<Rightarrow> 8 word \<Rightarrow> 12 word" where
  "csr_join f p a = push_bit 10 (ucast f) OR push_bit 8 (ucast p) OR ucast a"

lemma csr_join_split: "csr_join (rw_flag i) (pri_flag i) (csr_addr i) = i"
proof (rule bit_word_eqI)
  fix n assume "n < LENGTH(12)"
  then have "n < 8 \<or> n = 8 \<or> n = 9 \<or> n = 10 \<or> n = 11" by auto
  then show "bit (csr_join (rw_flag i) (pri_flag i) (csr_addr i)) n = bit i n"
    by (auto simp: csr_join_def rw_flag_def pri_flag_def csr_addr_def bit_simps slice_ucast)
qed

lemma csr_join_fields:
  "rw_flag (csr_join f p a) = f" "pri_flag (csr_join f p a) = p" "csr_addr (csr_join f p a) = a"
proof -
  have small: "n = 0 \<or> n = 1" if "n < 2" for n :: nat using that by auto
  show "rw_flag (csr_join f p a) = f" and "pri_flag (csr_join f p a) = p" and "csr_addr (csr_join f p a) = a"
    by (rule bit_word_eqI; force simp: csr_join_def rw_flag_def pri_flag_def csr_addr_def bit_simps slice_ucast
        dest: small bit_imp_le_length)+
qed

lemma csr_index_eq: "rw_flag i = f \<and> pri_flag i = p \<and> csr_addr i = a \<longleftrightarrow> i = csr_join f p a"
  using csr_join_split [of i] csr_join_fields [of f p a] by auto

lemma word2_cases: "f = 0 \<or> f = 1 \<or> f = 2 \<or> f = 3" for f :: "2 word"
proof -
  have "unat f < 4" using unsigned_less [of f, where 'a = nat] by simp
  then have "unat f = 0 \<or> unat f = 1 \<or> unat f = 2 \<or> unat f = 3" by arith
  then show ?thesis by (simp add: word_unat_eq_iff)
qed

lemma csr_op_iff: "csr_op f a x \<longleftrightarrow> i_pri_level x = 3 \<and> i_wr_idx x = csr_join f 3 a"
  using csr_index_eq [of "i_wr_idx x" f 3 a] by (auto simp: csr_op_def csr_mlevel_def)

lemma op_csr_iff:
  "op_mstatus x \<longleftrightarrow> i_pri_level x = 3 \<and> i_wr_idx x = 0x300"
  "op_misa x \<longleftrightarrow> i_pri_level x = 3 \<and> i_wr_idx x = 0x301"
  "op_mie x \<longleftrightarrow> i_pri_level x = 3 \<and> i_wr_idx x = 0x304"
  "op_mtvec x \<longleftrightarrow> i_pri_level x = 3 \<and> i_wr_idx x = 0x305"
  "op_mcountinhibit x \<longleftrightarrow> i_pri_level x = 3 \<and> i_wr_idx x = 0x320"
  "op_mscratch x \<longleftrightarrow> i_pri_level x = 3 \<and> i_wr_idx x = 0x340"
  "op_mepc x \<longleftrightarrow> i_pri_level x = 3 \<and> i_wr_idx x = 0x341"
  "op_mcause x \<longleftrightarrow> i_pri_level x = 3 \<and> i_wr_idx x = 0x342"
  "op_mtval x \<longleftrightarrow> i_pri_level x = 3 \<and> i_wr_idx x = 0x343"
  "op_mcycle x \<longleftrightarrow> i_pri_level x = 3 \<and> i_wr_idx x = 0xB00"
  "op_minstret x \<longleftrightarrow> i_pri_level x = 3 \<and> i_wr_idx x = 0xB02"
  "op_mcycleh x \<longleftrightarrow> i_pri_level x = 3 \<and> i_wr_idx x = 0xB80"
  "op_minstreth x \<longleftrightarrow> i_pri_level x = 3 \<and> i_wr_idx x = 0xB82"
  by (simp_all add: op_mstatus_def op_misa_def op_mie_def op_mtvec_def op_mcountinhibit_def op_mscratch_def
      op_mepc_def op_mcause_def op_mtval_def op_mcycle_def op_minstret_def op_mcycleh_def op_minstreth_def
      csr_op_iff csr_join_def)

section \<open>The registers as the software sees them\<close>

text \<open>The core runs in machine mode and never in debug mode.\<close>

definition read_port :: "u64 \<Rightarrow> bool \<Rightarrow> bool \<Rightarrow> 12 word \<Rightarrow> csr_rd" where
  "read_port mtime vld wb idx = \<lparr>r_rd_vld = vld, r_wb_act = wb, r_rd_idx = idx, r_dbg_mode = False,
     r_pri_level = 3, r_map_mtime = mtime\<rparr>"

definition csr_view :: "csr_ids \<Rightarrow> u64 \<Rightarrow> csr_regs \<Rightarrow> 12 word \<Rightarrow> u32" where
  "csr_view ids mtime c idx = fst (csr_read ids (read_port mtime True False idx) c)"

definition stored_csrs :: "csr_regs \<Rightarrow> (12 word \<times> u32) list" where
  "stored_csrs c = [(0x300, cs_mstatus c), (0x301, cs_misa c), (0x304, cs_mie c), (0x305, cs_mtvec c),
     (0x320, cs_mcountinhibit c), (0x340, cs_mscratch c), (0x341, cs_mepc c), (0x342, cs_mcause c),
     (0x343, cs_mtval c), (0x344, cs_mip c),
     (0xB00, ucast (cs_mcycle c)), (0xB80, ucast (drop_bit 32 (cs_mcycle c))),
     (0xB02, ucast (cs_minstret c)), (0xB82, ucast (drop_bit 32 (cs_minstret c))),
     (0xC00, ucast (cs_mcycle c)), (0xC80, ucast (drop_bit 32 (cs_mcycle c))),
     (0xC02, ucast (cs_minstret c)), (0xC82, ucast (drop_bit 32 (cs_minstret c)))]"

definition fixed_csr :: "csr_ids \<Rightarrow> u64 \<Rightarrow> 12 word \<Rightarrow> u32" where
  "fixed_csr ids mtime idx =
     (if idx = 0xC01 then ucast mtime else if idx = 0xC81 then ucast (drop_bit 32 mtime)
      else if idx = 0xF11 then ucast (VENDOR_ID ids) else if idx = 0xF12 then ucast (ARCH_ID ids)
      else if idx = 0xF13 then ucast (IMPL_ID ids) else if idx = 0xF14 then ucast (HART_ID ids) else 0)"

lemmas rd_defs = csr_read_def read_port_def rd_debug_def rd_dcsr_def rd_user_def rd_info_def rd_count_def
  rd_machine_def no_csr_def Let_def csr_mlevel_def csr_ulevel_def

lemma csr_view_table:
  "csr_view ids mtime c idx = (case map_of (stored_csrs c) idx of Some v \<Rightarrow> v | None \<Rightarrow> fixed_csr ids mtime idx)"
proof -
  define f p a where "f = rw_flag idx" and "p = pri_flag idx" and "a = csr_addr idx"
  have [simp]: "rw_flag idx = f" "pri_flag idx = p" "csr_addr idx = a" by (simp_all add: f_def p_def a_def)
  have keys: "idx = csr_join f' p' a' \<longleftrightarrow> f = f' \<and> p = p' \<and> a = a'" for f' p' a'
    using csr_index_eq [of idx f' p' a'] by auto
  have k [simp]: "idx = 0x300 \<longleftrightarrow> f = 0 \<and> p = 3 \<and> a = 0" "idx = 0x301 \<longleftrightarrow> f = 0 \<and> p = 3 \<and> a = 1"
    "idx = 0x304 \<longleftrightarrow> f = 0 \<and> p = 3 \<and> a = 4" "idx = 0x305 \<longleftrightarrow> f = 0 \<and> p = 3 \<and> a = 5"
    "idx = 0x320 \<longleftrightarrow> f = 0 \<and> p = 3 \<and> a = 0x20" "idx = 0x340 \<longleftrightarrow> f = 0 \<and> p = 3 \<and> a = 0x40"
    "idx = 0x341 \<longleftrightarrow> f = 0 \<and> p = 3 \<and> a = 0x41" "idx = 0x342 \<longleftrightarrow> f = 0 \<and> p = 3 \<and> a = 0x42"
    "idx = 0x343 \<longleftrightarrow> f = 0 \<and> p = 3 \<and> a = 0x43" "idx = 0x344 \<longleftrightarrow> f = 0 \<and> p = 3 \<and> a = 0x44"
    "idx = 0xB00 \<longleftrightarrow> f = 2 \<and> p = 3 \<and> a = 0" "idx = 0xB80 \<longleftrightarrow> f = 2 \<and> p = 3 \<and> a = 0x80"
    "idx = 0xB02 \<longleftrightarrow> f = 2 \<and> p = 3 \<and> a = 2" "idx = 0xB82 \<longleftrightarrow> f = 2 \<and> p = 3 \<and> a = 0x82"
    "idx = 0xC00 \<longleftrightarrow> f = 3 \<and> p = 0 \<and> a = 0" "idx = 0xC80 \<longleftrightarrow> f = 3 \<and> p = 0 \<and> a = 0x80"
    "idx = 0xC02 \<longleftrightarrow> f = 3 \<and> p = 0 \<and> a = 2" "idx = 0xC82 \<longleftrightarrow> f = 3 \<and> p = 0 \<and> a = 0x82"
    "idx = 0xC01 \<longleftrightarrow> f = 3 \<and> p = 0 \<and> a = 1" "idx = 0xC81 \<longleftrightarrow> f = 3 \<and> p = 0 \<and> a = 0x81"
    "idx = 0xF11 \<longleftrightarrow> f = 3 \<and> p = 3 \<and> a = 0x11" "idx = 0xF12 \<longleftrightarrow> f = 3 \<and> p = 3 \<and> a = 0x12"
    "idx = 0xF13 \<longleftrightarrow> f = 3 \<and> p = 3 \<and> a = 0x13" "idx = 0xF14 \<longleftrightarrow> f = 3 \<and> p = 3 \<and> a = 0x14"
    by (simp_all add: keys [symmetric] csr_join_def)
  consider "f = 3" "p = 0" | "f = 3" "p = 3" | "f = 2" "p = 3" | "f = 0" "p = 3" | "f = 1" "p = 3"
    | "\<not> (f = 3 \<and> p = 0)" "p \<noteq> 3"
    using word2_cases [of f] by blast
  then show ?thesis
    by cases (simp_all add: csr_view_def rd_defs stored_csrs_def fixed_csr_def)
qed

text \<open>The bits of a register that a write changes; the RVE bit of \<open>misa\<close> follows its RVI bit.\<close>

definition writable_bits :: "(12 word \<times> u32) list" where
  "writable_bits = [(0x300, 0x88), (0x301, 0x1100), (0x304, 0x888), (0x305, 0xFFFFFFFD), (0x320, 0xFFFFFFFD),
     (0x340, 0xFFFFFFFF), (0x341, 0xFFFFFFFF), (0x342, 0xFFFFFFFF), (0x343, 0xFFFFFFFF),
     (0xB00, 0xFFFFFFFF), (0xB02, 0xFFFFFFFF), (0xB80, 0xFFFFFFFF), (0xB82, 0xFFFFFFFF)]"

definition csr_written :: "12 word \<Rightarrow> u32 \<Rightarrow> u32 \<Rightarrow> u32" where
  "csr_written idx v old =
     (case map_of writable_bits idx of None \<Rightarrow> old
      | Some m \<Rightarrow> let w = put_bits m v old in if idx = 0x301 then put_bit 4 (\<not> bit w 8) w else w)"

text \<open>Registers that change by themselves: pending interrupts and the counters with their shadows.\<close>

definition live_csrs :: "12 word set" where
  "live_csrs = {0x344, 0xB00, 0xB02, 0xB80, 0xB82, 0xC00, 0xC02, 0xC80, 0xC82}"

lemma bit_put_bit: "n < LENGTH('a) \<Longrightarrow> bit (put_bit n b w) k \<longleftrightarrow> (if k = n then b else bit w k)"
  for w :: "'a::len word"
  by (auto simp: put_bit_def bit_simps dest: bit_imp_le_length)

lemma bit_put_bits: "k < LENGTH('a) \<Longrightarrow> bit (put_bits m v w) k \<longleftrightarrow> (if bit m k then bit v k else bit w k)"
  for w :: "'a::len word"
  by (auto simp: put_bits_def bit_simps)

lemma csr_masks:
  "k < 32 \<Longrightarrow> bit (0x88 :: u32) k \<longleftrightarrow> k = 3 \<or> k = 7"
  "k < 32 \<Longrightarrow> bit (0x888 :: u32) k \<longleftrightarrow> k = 3 \<or> k = 7 \<or> k = 11"
  "k < 32 \<Longrightarrow> bit (0x1100 :: u32) k \<longleftrightarrow> k = 8 \<or> k = 12"
proof -
  have "\<forall>k \<in> set [0..<32]. bit (0x88 :: u32) k = (k = 3 \<or> k = 7)"
    and "\<forall>k \<in> set [0..<32]. bit (0x888 :: u32) k = (k = 3 \<or> k = 7 \<or> k = 11)"
    and "\<forall>k \<in> set [0..<32]. bit (0x1100 :: u32) k = (k = 8 \<or> k = 12)"
    by code_simp+
  then show "k < 32 \<Longrightarrow> bit (0x88 :: u32) k \<longleftrightarrow> k = 3 \<or> k = 7"
    and "k < 32 \<Longrightarrow> bit (0x888 :: u32) k \<longleftrightarrow> k = 3 \<or> k = 7 \<or> k = 11"
    and "k < 32 \<Longrightarrow> bit (0x1100 :: u32) k \<longleftrightarrow> k = 8 \<or> k = 12"
    by (simp_all del: bit_numeral_word_iff)
qed

lemma put_bits_all: "put_bits 0xFFFFFFFF v w = (v :: u32)"
proof -
  have "(0xFFFFFFFF :: u32) = - 1" by simp
  then show ?thesis by (simp only: put_bits_def bit.compl_one) simp
qed

lemma mstatus_written: "put_bit 3 (bit v 3) (put_bit 7 (bit v 7) m) = put_bits 0x88 v (m :: u32)"
  by (rule bit_word_eqI) (auto simp: bit_put_bit bit_put_bits csr_masks simp del: bit_numeral_word_iff)

lemma mie_written: "put_bit 11 (bit v 11) (put_bit 7 (bit v 7) (put_bit 3 (bit v 3) m)) = put_bits 0x888 v (m :: u32)"
  by (rule bit_word_eqI) (auto simp: bit_put_bit bit_put_bits csr_masks simp del: bit_numeral_word_iff)

lemma misa_written:
  "put_bit 4 (\<not> bit v 8) (put_bit 8 (bit v 8) (put_bit 12 (bit v 12) m)) =
     put_bit 4 (\<not> bit (put_bits 0x1100 v m) 8) (put_bits 0x1100 v (m :: u32))"
  by (rule bit_word_eqI) (auto simp: bit_put_bit bit_put_bits csr_masks simp del: bit_numeral_word_iff)

lemma csr_write_view:
  assumes "i_wr_vld x" and "\<not> i_trap_trig x" and "\<not> i_trap_exit x" and "i_pri_level x = 3" and "j \<notin> live_csrs"
  shows "csr_view ids mtime (csr_step x c) j =
    (if j = i_wr_idx x then csr_written j (i_wr_data x) (csr_view ids mtime c j) else csr_view ids mtime c j)"
proof -
  note nxt = csr_step_def mstatus_nxt_def misa_nxt_def mie_nxt_def mtvec_nxt_def mcountinhibit_nxt_def mscratch_nxt_def
    mepc_nxt_def mcause_nxt_def mtval_nxt_def op_csr_iff Let_def
  note view = csr_view_table stored_csrs_def csr_written_def writable_bits_def
  consider "j = 0x300" | "j = 0x301" | "j = 0x304" | "j = 0x305" | "j = 0x320" | "j = 0x340" | "j = 0x341" | "j = 0x342"
    | "j = 0x343" | "j \<notin> set (map fst (stored_csrs c))"
    using assms(5) by (auto simp: stored_csrs_def live_csrs_def)
  then show ?thesis
  proof cases
    case 10
    then have "map_of (stored_csrs c') j = None" for c' by (simp add: stored_csrs_def)
    moreover have "map_of writable_bits j = None" using 10 by (simp add: stored_csrs_def writable_bits_def)
    ultimately show ?thesis by (cases "i_wr_idx x = j") (simp_all add: csr_view_table csr_written_def)
  qed (use assms(1-4) in \<open>simp add: nxt view mstatus_written mie_written misa_written put_bits_all\<close>)+
qed
lemma csr_quiet_view:
  assumes "\<not> i_wr_vld x" and "\<not> i_trap_trig x" and "\<not> i_trap_exit x" and "j \<notin> live_csrs"
  shows "csr_view ids mtime (csr_step x c) j = csr_view ids mtime c j"
proof -
  have "csr_step x c = c\<lparr>cs_mip := mip_nxt x c, cs_mcycle := mcycle_nxt x c, cs_minstret := minstret_nxt x c,
      intr_ext_p := i_intr_ext x, intr_tmr_p := i_intr_tmr x, intr_sft_p := i_intr_sft x\<rparr>"
    using assms(1-3)
    by (simp add: csr_step_def mstatus_nxt_def misa_nxt_def mie_nxt_def mtvec_nxt_def mcountinhibit_nxt_def
        mscratch_nxt_def mepc_nxt_def mcause_nxt_def mtval_nxt_def Let_def)
  then show ?thesis
    using assms(4) by (simp add: csr_view_table stored_csrs_def live_csrs_def)
qed

section \<open>What the registers can hold\<close>

text \<open>
  Machine mode is the previous privilege, nothing but the enable bits varies in \<open>mstatus\<close> and the
  interrupt registers, the reserved vector mode and the bit of the time counter stay clear, and
  exactly one of the base instruction sets is on.
\<close>

definition csr_ok :: "csr_regs \<Rightarrow> bool" where
  "csr_ok c \<longleftrightarrow> cs_mstatus c AND NOT 0x88 = 0x1800 \<and> cs_mie c AND NOT 0x888 = 0 \<and> cs_mip c AND NOT 0x888 = 0
     \<and> \<not> bit (cs_mtvec c) 1 \<and> \<not> bit (cs_mcountinhibit c) 1
     \<and> cs_misa c AND NOT 0x1110 = 0x40000000 \<and> bit (cs_misa c) 4 \<noteq> bit (cs_misa c) 8"

lemma put_bit_outside: "bit m n \<Longrightarrow> put_bit n b w AND NOT m = w AND NOT m" for w :: "'a::len word"
  by (rule bit_word_eqI) (auto simp: put_bit_def bit_simps dest: bit_imp_le_length)

lemma csr_ok_reset: "csr_ok csr_reset"
  by (simp add: csr_ok_def csr_reset_def)

lemma csr_ok_step:
  assumes "csr_ok c"
  shows "csr_ok (csr_step x c)"
proof -
  have b: "bit (0x88 :: u32) 3" "bit (0x88 :: u32) 7" "bit (0x888 :: u32) 3" "bit (0x888 :: u32) 7" "bit (0x888 :: u32) 11"
    "bit (0x1110 :: u32) 4" "bit (0x1110 :: u32) 8" "bit (0x1110 :: u32) 12"
    by simp_all
  have m: "mstatus_nxt x c AND NOT 0x88 = cs_mstatus c AND NOT 0x88" "mie_nxt x c AND NOT 0x888 = cs_mie c AND NOT 0x888"
    "mip_nxt x c AND NOT 0x888 = cs_mip c AND NOT 0x888" "misa_nxt x c AND NOT 0x1110 = cs_misa c AND NOT 0x1110"
    unfolding mstatus_nxt_def mie_nxt_def mip_nxt_def misa_nxt_def Let_def
    by (auto simp only: put_bit_outside [OF b(1)] put_bit_outside [OF b(2)] put_bit_outside [OF b(3)]
        put_bit_outside [OF b(4)] put_bit_outside [OF b(5)] put_bit_outside [OF b(6)] put_bit_outside [OF b(7)]
        put_bit_outside [OF b(8)] split: if_split)
  have v: "bit (mtvec_nxt x c) 1 = bit (cs_mtvec c) 1" "bit (mcountinhibit_nxt x c) 1 = bit (cs_mcountinhibit c) 1"
    by (simp_all add: mtvec_nxt_def mcountinhibit_nxt_def bit_put_bits)
  have "bit (misa_nxt x c) 4 \<noteq> bit (misa_nxt x c) 8"
    using assms by (simp add: misa_nxt_def bit_put_bit csr_ok_def)
  with assms show ?thesis
    by (simp only: csr_ok_def csr_step_def csr_regs.simps m v simp_thms)
qed


section \<open>Departures from the privileged architecture\<close>

text \<open>
  The machine-level performance counters 3 to 31 cannot be read, although their high halves and their
  user-level shadows can; a write whose old value nobody reads is never refused, for a register that
  does not exist or is read only; the pending bits of the timer and the software interrupt fall with
  the external request and not with their own.
\<close>

lemma hpm_counters_refused: "csr_excp ids (read_port t True wb 0xB03) c" "\<not> csr_excp ids (read_port t True False 0xB83) c"
  "\<not> csr_excp ids (read_port t True False 0xC03) c"
  by (simp_all add: csr_excp_def rd_defs rw_flag_def pri_flag_def csr_addr_def slice_ucast)

lemma unread_write_accepted: "\<not> csr_excp ids (read_port t False True idx) c"
  by (simp add: csr_excp_def read_port_def)

lemma timer_pending_follows_external:
  assumes "i_pri_level x = 3" and "\<not> i_intr_tmr x" and "bit (cs_mip c) 7"
  shows "bit (cs_mip (csr_step x c)) 7 \<longleftrightarrow> \<not> (intr_ext_p c \<and> \<not> i_intr_ext x)"
  using assms by (simp add: csr_step_def mip_nxt_def Let_def bit_put_bit pending_def intr_clr_def)

end
