(* ===== verification/Core_Lsu.thy ===== *)
theory Core_Lsu
  imports Prelude
begin

text \<open>
  The load-store unit \<open>design/core/uv_lsu.v\<close> clock edge by clock edge: the buffer of the instruction
  that the execution unit offers, the request to memory and the answer, and the registers from which
  the commit unit takes the instruction one cycle later. The lemmas follow a load from the offer to
  the write-back, for a memory that answers after any number of cycles.
\<close>

section \<open>Inputs and registers\<close>

text \<open>What the execution unit hands over.\<close>

record ex2ls =
  e_op_load :: bool
  e_op_loadu :: bool
  e_op_store :: bool
  e_ls_mask :: "4 word"
  e_ld_addr :: u32
  e_st_addr :: u32
  e_st_data :: u32
  e_op_mret :: bool
  e_op_wfi :: bool
  e_wb_act :: bool
  e_wb_vld :: bool
  e_wb_idx :: "5 word"
  e_wb_data :: u32
  e_csr_vld :: bool
  e_csr_idx :: "12 word"
  e_csr_data :: u32
  e_inst :: u32
  e_pc :: u32
  e_pc_nxt :: u32
  e_has_excp :: bool
  e_acc_fault :: bool
  e_mis_align :: bool
  e_ill_inst :: bool
  e_env_call :: bool
  e_env_break :: bool

record lsu_in =
  v_vld :: bool
  v_ex2ls :: ex2ls
  v_rs2_idx :: "5 word"
  v_req_rdy :: bool
  v_rsp_vld :: bool
  v_rsp_excp :: "2 word"
  v_rsp_data :: u32
  v_trap_flush :: bool

record lsu_regs =
  l_fire_p :: bool
  l_init_p :: bool
  l_ex2ls_r :: ex2ls
  l_ld_req_r :: bool
  l_st_req_r :: bool
  l_ld_mask_p :: "4 word"
  l_ld_usgn_p :: bool
  l_ld_data_r :: u32
  l_ls2cm_vld_r :: bool
  l_inst_non_ls_r :: bool
  l_trap_exit_r :: bool
  l_wfi_r :: bool
  l_wb_vld_r :: bool
  l_wb_data_r :: u32
  l_wb_act_r :: bool
  l_wb_idx_r :: "5 word"
  l_csr_vld_r :: bool
  l_csr_idx_r :: "12 word"
  l_csr_data_r :: u32
  l_inst_r :: u32
  l_pc_r :: u32
  l_pc_nxt_r :: u32
  l_ls_addr_r :: u32
  l_if_acc_fault_r :: bool
  l_if_mis_align_r :: bool
  l_ill_inst_r :: bool
  l_env_call_r :: bool
  l_env_break_r :: bool

definition no_ex2ls :: ex2ls where
  "no_ex2ls = \<lparr>e_op_load = False, e_op_loadu = False, e_op_store = False, e_ls_mask = 0, e_ld_addr = 0, e_st_addr = 0,
     e_st_data = 0, e_op_mret = False, e_op_wfi = False, e_wb_act = False, e_wb_vld = False, e_wb_idx = 0,
     e_wb_data = 0, e_csr_vld = False, e_csr_idx = 0, e_csr_data = 0, e_inst = 0, e_pc = 0, e_pc_nxt = 0,
     e_has_excp = False, e_acc_fault = False, e_mis_align = False, e_ill_inst = False, e_env_call = False,
     e_env_break = False\<rparr>"

definition lsu_reset :: lsu_regs where
  "lsu_reset = \<lparr>l_fire_p = False, l_init_p = True, l_ex2ls_r = no_ex2ls, l_ld_req_r = False, l_st_req_r = False,
     l_ld_mask_p = 0, l_ld_usgn_p = False, l_ld_data_r = 0, l_ls2cm_vld_r = False, l_inst_non_ls_r = False,
     l_trap_exit_r = False, l_wfi_r = False, l_wb_vld_r = False, l_wb_data_r = 0, l_wb_act_r = False,
     l_wb_idx_r = 0, l_csr_vld_r = False, l_csr_idx_r = 0, l_csr_data_r = 0, l_inst_r = 0, l_pc_r = 0,
     l_pc_nxt_r = 0, l_ls_addr_r = 0, l_if_acc_fault_r = False, l_if_mis_align_r = False, l_ill_inst_r = False,
     l_env_call_r = False, l_env_break_r = False\<rparr>"

section \<open>Handshakes and the memory port\<close>

definition lsu_pipe :: "lsu_in \<Rightarrow> lsu_regs \<Rightarrow> ex2ls" where
  "lsu_pipe x r = (if l_fire_p r \<or> l_init_p r then v_ex2ls x else l_ex2ls_r r)"

definition ls_pipe_nxt :: "lsu_in \<Rightarrow> bool" where
  "ls_pipe_nxt x \<longleftrightarrow> v_vld x \<and> \<not> v_trap_flush x"

definition ls2mem_req_vld :: "lsu_in \<Rightarrow> lsu_regs \<Rightarrow> bool" where
  "ls2mem_req_vld x r \<longleftrightarrow>
     (let p = lsu_pipe x r
      in v_vld x \<and> \<not> e_has_excp p \<and> (e_wb_act p \<and> e_op_load p \<or> e_op_store p))"

definition mem_req_fire :: "lsu_in \<Rightarrow> lsu_regs \<Rightarrow> bool" where
  "mem_req_fire x r \<longleftrightarrow> ls2mem_req_vld x r \<and> v_req_rdy x"

definition mem_ld_fire :: "lsu_in \<Rightarrow> lsu_regs \<Rightarrow> bool" where
  "mem_ld_fire x r \<longleftrightarrow> l_ld_req_r r \<and> v_rsp_vld x"

definition mem_st_fire :: "lsu_in \<Rightarrow> lsu_regs \<Rightarrow> bool" where
  "mem_st_fire x r \<longleftrightarrow> l_st_req_r r \<and> v_rsp_vld x"

definition mem_ld_wait :: "lsu_in \<Rightarrow> lsu_regs \<Rightarrow> bool" where
  "mem_ld_wait x r \<longleftrightarrow> l_ld_req_r r \<and> \<not> mem_ld_fire x r"

definition mem_st_wait :: "lsu_in \<Rightarrow> lsu_regs \<Rightarrow> bool" where
  "mem_st_wait x r \<longleftrightarrow> l_st_req_r r \<and> \<not> mem_st_fire x r"

definition ex2ls_rdy :: "lsu_in \<Rightarrow> lsu_regs \<Rightarrow> bool" where
  "ex2ls_rdy x r \<longleftrightarrow> \<not> (ls2mem_req_vld x r \<and> \<not> v_req_rdy x \<or> mem_ld_wait x r \<or> mem_st_wait x r)"

definition ex2ls_fire :: "lsu_in \<Rightarrow> lsu_regs \<Rightarrow> bool" where
  "ex2ls_fire x r \<longleftrightarrow> v_vld x \<and> ex2ls_rdy x r"

section \<open>Load data and write-back\<close>

definition mem_ld_sign :: "lsu_in \<Rightarrow> lsu_regs \<Rightarrow> bool" where
  "mem_ld_sign x r =
     (if l_ld_usgn_p r then False
      else if bit (l_ld_mask_p r) 3 then bit (v_rsp_data x) 31
      else if bit (l_ld_mask_p r) 1 then bit (v_rsp_data x) 15
      else bit (v_rsp_data x) 7)"

definition ld_byte :: "lsu_in \<Rightarrow> lsu_regs \<Rightarrow> nat \<Rightarrow> u8" where
  "ld_byte x r i =
     (if bit (l_ld_mask_p r) i then slice (8 * i) (v_rsp_data x) else if mem_ld_sign x r then 0xFF else 0)"

definition msk_ld_data :: "lsu_in \<Rightarrow> lsu_regs \<Rightarrow> u32" where
  "msk_ld_data x r = word_cat (word_cat (ld_byte x r 3) (ld_byte x r 2) :: u16) (word_cat (ld_byte x r 1) (ld_byte x r 0) :: u16)"

definition mem_wb_data :: "lsu_in \<Rightarrow> lsu_regs \<Rightarrow> u32" where
  "mem_wb_data x r = (if mem_ld_fire x r then msk_ld_data x r else l_ld_data_r r)"

definition ls_wb_vld :: "lsu_in \<Rightarrow> lsu_regs \<Rightarrow> bool" where
  "ls_wb_vld x r \<longleftrightarrow> (l_wb_vld_r r \<or> mem_ld_fire x r) \<and> \<not> v_trap_flush x"

definition ls_wb_data :: "lsu_in \<Rightarrow> lsu_regs \<Rightarrow> u32" where
  "ls_wb_data x r = (if l_wb_vld_r r then l_wb_data_r r else mem_wb_data x r)"

definition st_rs2_frm_wb :: "lsu_in \<Rightarrow> lsu_regs \<Rightarrow> bool" where
  "st_rs2_frm_wb x r \<longleftrightarrow> e_op_store (lsu_pipe x r) \<and> ls_wb_vld x r \<and> v_rs2_idx x = l_wb_idx_r r"

text \<open>The request: whether it reads, the address, the byte mask and the data.\<close>

record mem_req =
  q_read :: bool
  q_addr :: u32
  q_mask :: "4 word"
  q_data :: u32

definition ls2mem_req :: "lsu_in \<Rightarrow> lsu_regs \<Rightarrow> mem_req" where
  "ls2mem_req x r =
     (let p = lsu_pipe x r
      in \<lparr>q_read = (\<not> e_op_store p), q_addr = (if e_op_store p then e_st_addr p else e_ld_addr p),
          q_mask = e_ls_mask p, q_data = (if st_rs2_frm_wb x r then ls_wb_data x r else e_st_data p)\<rparr>)"

section \<open>A clock edge\<close>

definition lsu_step :: "lsu_in \<Rightarrow> lsu_regs \<Rightarrow> lsu_regs" where
  "lsu_step x r =
     (let p = lsu_pipe x r; fire = ex2ls_fire x r; nxt = ls_pipe_nxt x; rd_req = mem_req_fire x r \<and> \<not> e_op_store p;
          wr_req = mem_req_fire x r \<and> e_op_store p
      in \<lparr>l_fire_p = fire,
          l_init_p = (\<not> v_vld x),
          l_ex2ls_r = p,
          l_ld_req_r = (if rd_req then True else if mem_ld_fire x r then False else l_ld_req_r r),
          l_st_req_r = (if wr_req then True else if mem_st_fire x r then False else l_st_req_r r),
          l_ld_mask_p = (if rd_req then e_ls_mask p else l_ld_mask_p r),
          l_ld_usgn_p = (if rd_req then e_op_loadu p else l_ld_usgn_p r),
          l_ld_data_r = (if mem_ld_fire x r then msk_ld_data x r else l_ld_data_r r),
          l_ls2cm_vld_r = (fire \<and> \<not> v_trap_flush x),
          l_inst_non_ls_r = (if nxt then \<not> e_op_load (v_ex2ls x) \<and> \<not> e_op_store (v_ex2ls x) else l_inst_non_ls_r r),
          l_trap_exit_r = (if nxt then e_op_mret p else l_trap_exit_r r),
          l_wfi_r = (if nxt then e_op_wfi p else l_wfi_r r),
          l_wb_vld_r = (fire \<and> e_wb_act p \<and> e_wb_vld p),
          l_wb_data_r = (if fire then e_wb_data p else l_wb_data_r r),
          l_wb_act_r = (if nxt then e_wb_act p else l_wb_act_r r),
          l_wb_idx_r = (if nxt \<and> e_wb_act p then e_wb_idx p else l_wb_idx_r r),
          l_csr_vld_r = (fire \<and> e_csr_vld p),
          l_csr_idx_r = (if fire then e_csr_idx p else l_csr_idx_r r),
          l_csr_data_r = (if fire then e_csr_data p else l_csr_data_r r),
          l_inst_r = (if nxt then e_inst p else l_inst_r r),
          l_pc_r = (if nxt then e_pc p else l_pc_r r),
          l_pc_nxt_r = (if nxt then e_pc_nxt p else l_pc_nxt_r r),
          l_ls_addr_r = (if nxt then if e_op_store p then e_st_addr p else e_ld_addr p else l_ls_addr_r r),
          l_if_acc_fault_r = (if nxt then e_acc_fault p else l_if_acc_fault_r r),
          l_if_mis_align_r = (if nxt then e_mis_align p else l_if_mis_align_r r),
          l_ill_inst_r = (if nxt then e_ill_inst p else l_ill_inst_r r),
          l_env_call_r = (if nxt then e_env_call p else l_env_call_r r),
          l_env_break_r = (if nxt then e_env_break p else l_env_break_r r)\<rparr>)"

text \<open>What the commit unit sees.\<close>

record ls2cm =
  c_vld :: bool
  c_wb_vld :: bool
  c_wb_idx :: "5 word"
  c_wb_data :: u32
  c_csr_vld :: bool
  c_csr_idx :: "12 word"
  c_csr_data :: u32
  c_inst :: u32
  c_pc :: u32
  c_pc_nxt :: u32
  c_ls_addr :: u32
  c_if_acc_fault :: bool
  c_if_mis_align :: bool
  c_ld_acc_fault :: bool
  c_ld_mis_align :: bool
  c_st_acc_fault :: bool
  c_st_mis_align :: bool
  c_ill_inst :: bool
  c_env_call :: bool
  c_env_break :: bool
  c_trap_exit :: bool
  c_wfi :: bool

definition lsu_out :: "lsu_in \<Rightarrow> lsu_regs \<Rightarrow> ls2cm" where
  "lsu_out x r =
     \<lparr>c_vld = (l_ls2cm_vld_r r \<and> \<not> v_trap_flush x \<and> (mem_ld_fire x r \<or> mem_st_fire x r \<or> l_inst_non_ls_r r)),
      c_wb_vld = ls_wb_vld x r, c_wb_idx = l_wb_idx_r r, c_wb_data = ls_wb_data x r,
      c_csr_vld = l_csr_vld_r r, c_csr_idx = l_csr_idx_r r, c_csr_data = l_csr_data_r r,
      c_inst = l_inst_r r, c_pc = l_pc_r r, c_pc_nxt = l_pc_nxt_r r, c_ls_addr = l_ls_addr_r r,
      c_if_acc_fault = l_if_acc_fault_r r, c_if_mis_align = l_if_mis_align_r r,
      c_ld_acc_fault = (mem_ld_fire x r \<and> bit (v_rsp_excp x) 0), c_ld_mis_align = (mem_ld_fire x r \<and> bit (v_rsp_excp x) 1),
      c_st_acc_fault = (mem_st_fire x r \<and> bit (v_rsp_excp x) 0), c_st_mis_align = (mem_st_fire x r \<and> bit (v_rsp_excp x) 1),
      c_ill_inst = l_ill_inst_r r, c_env_call = l_env_call_r r, c_env_break = l_env_break_r r,
      c_trap_exit = l_trap_exit_r r, c_wfi = l_wfi_r r\<rparr>"

section \<open>Load values\<close>

text \<open>What a load delivers, by the size of the access and whether it extends with zeros.\<close>

definition load_value :: "4 word \<Rightarrow> bool \<Rightarrow> u32 \<Rightarrow> u32" where
  "load_value m unsgn d =
     (if m = 1 then if unsgn then ucast (ucast d :: u8) else scast (ucast d :: u8)
      else if m = 3 then if unsgn then ucast (ucast d :: u16) else scast (ucast d :: u16)
      else d)"

lemma bit_ld_byte:
  "bit (ld_byte x r i) k \<longleftrightarrow> k < 8 \<and> (if bit (l_ld_mask_p r) i then bit (v_rsp_data x) (8 * i + k) else mem_ld_sign x r)"
proof (cases "k < 8")
  case True
  have "bit (slice (8 * i) (v_rsp_data x) :: u8) k \<longleftrightarrow> bit (v_rsp_data x) (8 * i + k)"
    using True by (auto simp: slice_ucast bit_simps add.commute)
  moreover have "bit (0xFF :: u8) k"
  proof -
    have "(0xFF :: u8) = mask 8" by (simp add: mask_eq_exp_minus_1)
    with True show ?thesis by (simp only: bit_mask_iff) simp
  qed
  ultimately show ?thesis using True by (simp add: ld_byte_def)
qed (auto dest: bit_imp_le_length)

lemma bit_msk_ld_data:
  "bit (msk_ld_data x r) n \<longleftrightarrow> n < 32 \<and> (if bit (l_ld_mask_p r) (n div 8) then bit (v_rsp_data x) n else mem_ld_sign x r)"
proof (cases "n < 32")
  case True
  then consider "n < 8" "n div 8 = 0" | "8 \<le> n" "n < 16" "n div 8 = 1" | "16 \<le> n" "n < 24" "n div 8 = 2"
    | "24 \<le> n" "n < 32" "n div 8 = 3"
    by linarith
  then show ?thesis
    by cases (auto simp: msk_ld_data_def bit_word_cat_iff bit_ld_byte)
qed (auto dest: bit_imp_le_length)

lemma msk_ld_data:
  assumes "l_ld_mask_p r \<in> {1, 3, 0xF}"
  shows "msk_ld_data x r = load_value (l_ld_mask_p r) (l_ld_usgn_p r) (v_rsp_data x)"
proof -
  have b: "bit (1 :: 4 word) k \<longleftrightarrow> k = 0" "bit (3 :: 4 word) k \<longleftrightarrow> k < 2" "bit (0xF :: 4 word) k \<longleftrightarrow> k < 4" for k
  proof -
    have "(3 :: 4 word) = mask 2" "(0xF :: 4 word) = mask 4" by (simp_all add: mask_eq_exp_minus_1)
    then show "bit (1 :: 4 word) k \<longleftrightarrow> k = 0" "bit (3 :: 4 word) k \<longleftrightarrow> k < 2" "bit (0xF :: 4 word) k \<longleftrightarrow> k < 4"
      by (auto simp only: bit_mask_iff bit_1_iff) simp_all
  qed
  have div: "n div 8 = 0 \<longleftrightarrow> n < 8" "n div 8 < 2 \<longleftrightarrow> n < 16" "n div 8 < 4 \<longleftrightarrow> n < 32" for n :: nat
    by auto
  from assms show ?thesis
    by (elim insertE emptyE; intro bit_word_eqI)
      (auto simp: bit_msk_ld_data b div mem_ld_sign_def load_value_def bit_word_scast_iff bit_word_ucast_iff
        simp del: bit_numeral_word_iff)
qed

section \<open>A load from the offer to the commit\<close>

text \<open>The unit between two instructions, an offer that the memory does not take yet, and one it takes.\<close>

definition lsu_idle :: "lsu_regs \<Rightarrow> bool" where
  "lsu_idle r \<longleftrightarrow> (l_fire_p r \<or> l_init_p r) \<and> \<not> l_ld_req_r r \<and> \<not> l_st_req_r r"

definition offered :: "bool \<Rightarrow> lsu_in \<Rightarrow> bool" where
  "offered rdy x \<longleftrightarrow> v_vld x \<and> \<not> v_trap_flush x \<and> v_req_rdy x = rdy"

definition a_load :: "ex2ls \<Rightarrow> bool" where
  "a_load e \<longleftrightarrow> e_op_load e \<and> e_wb_act e \<and> \<not> e_op_store e \<and> \<not> e_wb_vld e \<and> \<not> e_has_excp e"

lemmas lsu_wires = ls2mem_req_vld_def mem_req_fire_def mem_ld_fire_def mem_st_fire_def mem_ld_wait_def mem_st_wait_def
  ex2ls_rdy_def ex2ls_fire_def ls_pipe_nxt_def Let_def

definition holds :: "ex2ls \<Rightarrow> lsu_regs \<Rightarrow> bool" where
  "holds e r \<longleftrightarrow> \<not> l_fire_p r \<and> \<not> l_init_p r \<and> l_ex2ls_r r = e \<and> \<not> l_ld_req_r r \<and> \<not> l_st_req_r r"

lemma offer_holds:
  assumes "offered False x" and "a_load (lsu_pipe x r)" and "\<not> l_ld_req_r r" and "\<not> l_st_req_r r"
  shows "holds (lsu_pipe x r) (lsu_step x r)"
  using assms by (simp add: holds_def lsu_step_def lsu_wires offered_def a_load_def)

lemma holds_pipe: "holds e r \<Longrightarrow> lsu_pipe x r = e"
  by (simp add: holds_def lsu_pipe_def)

lemma holds_offers:
  assumes "holds e r" and "a_load e" and "\<forall>x \<in> set ws. offered False x"
  shows "holds e (fold lsu_step ws r)"
  using assms
proof (induction ws arbitrary: r)
  case (Cons x ws)
  then have "holds e (lsu_step x r)"
    using offer_holds [of x r] holds_pipe [of e r x] by (auto simp: holds_def)
  with Cons show ?case by simp
qed simp

text \<open>The state in which an offer is taken, whatever the number of cycles before.\<close>

lemma offers_pipe:
  assumes "lsu_idle r" and "\<forall>w \<in> set ws. offered False w" and "v_ex2ls (hd (ws @ [x])) = e" and "a_load e"
  shows "lsu_pipe x (fold lsu_step ws r) = e \<and> \<not> l_ld_req_r (fold lsu_step ws r) \<and> \<not> l_st_req_r (fold lsu_step ws r)"
proof (cases ws)
  case Nil
  with assms show ?thesis by (auto simp: lsu_idle_def lsu_pipe_def)
next
  case (Cons w us)
  have first: "lsu_pipe w r = e" using assms(1,3) Cons by (auto simp: lsu_idle_def lsu_pipe_def)
  then have "holds e (lsu_step w r)"
    using offer_holds [of w r] assms Cons by (auto simp: lsu_idle_def)
  then have "holds e (fold lsu_step ws r)"
    using holds_offers [of e "lsu_step w r" us] assms Cons by simp
  then show ?thesis using holds_pipe by (auto simp: holds_def)
qed

text \<open>
  C13: A load that the memory takes after any number of cycles and answers in the cycle after that is
  committed with its own address and destination: the request reads the address under the mask of the
  access, and the register gets the bytes of the answer extended as the instruction wants, with the
  fault the memory reports.
\<close>

theorem lsu_load_commits:
  assumes "lsu_idle r" and "\<forall>w \<in> set ws. offered False w" and "offered True x" and "v_ex2ls (hd (ws @ [x])) = e"
    and "a_load e" and "e_ls_mask e \<in> {1, 3, 0xF}" and "v_rsp_vld y" and "\<not> v_trap_flush y"
  shows "let r1 = fold lsu_step ws r; q = ls2mem_req x r1; o2 = lsu_out y (lsu_step x r1)
    in mem_req_fire x r1 \<and> q_read q \<and> q_addr q = e_ld_addr e \<and> q_mask q = e_ls_mask e
       \<and> c_vld o2 \<and> c_pc o2 = e_pc e \<and> c_wb_vld o2 \<and> c_wb_idx o2 = e_wb_idx e
       \<and> c_wb_data o2 = load_value (e_ls_mask e) (e_op_loadu e) (v_rsp_data y)
       \<and> c_ls_addr o2 = e_ld_addr e \<and> c_ld_acc_fault o2 = bit (v_rsp_excp y) 0 \<and> c_ld_mis_align o2 = bit (v_rsp_excp y) 1"
proof -
  define r1 where "r1 = fold lsu_step ws r"
  have r1: "lsu_pipe x r1 = e" "\<not> l_ld_req_r r1" "\<not> l_st_req_r r1"
    unfolding r1_def using offers_pipe [OF assms(1,2,4,5)] by auto
  note load = assms(3,5,6,7,8) [unfolded offered_def a_load_def]
  have fire: "mem_req_fire x r1" "ex2ls_fire x r1"
    using r1 load by (simp_all add: lsu_wires)
  have r2: "l_ld_req_r (lsu_step x r1)" "l_ls2cm_vld_r (lsu_step x r1)" "\<not> l_wb_vld_r (lsu_step x r1)"
    "l_ld_mask_p (lsu_step x r1) = e_ls_mask e" "l_ld_usgn_p (lsu_step x r1) = e_op_loadu e"
    "l_wb_idx_r (lsu_step x r1) = e_wb_idx e" "l_pc_r (lsu_step x r1) = e_pc e" "l_ls_addr_r (lsu_step x r1) = e_ld_addr e"
    using r1 fire load by (simp_all add: lsu_step_def ls_pipe_nxt_def Let_def)
  have "mem_ld_fire y (lsu_step x r1)" using r2(1) load by (simp add: mem_ld_fire_def)
  moreover have "msk_ld_data y (lsu_step x r1) = load_value (e_ls_mask e) (e_op_loadu e) (v_rsp_data y)"
    using msk_ld_data [of "lsu_step x r1" y] r2 load by simp
  ultimately show ?thesis
    unfolding r1_def [symmetric] Let_def using r1 r2 fire load
    by (simp add: lsu_out_def ls2mem_req_def ls_wb_vld_def ls_wb_data_def mem_wb_data_def Let_def)
qed

text \<open>A signed byte load that waits one cycle for the bus.\<close>

definition sample_load :: ex2ls where
  "sample_load = no_ex2ls\<lparr>e_op_load := True, e_ls_mask := 1, e_ld_addr := 0x70000000, e_wb_act := True, e_wb_idx := 10,
     e_pc := 0x80000020\<rparr>"

definition sample_in :: "bool \<Rightarrow> lsu_in" where
  "sample_in rdy = \<lparr>v_vld = True, v_ex2ls = sample_load, v_rs2_idx = 0, v_req_rdy = rdy, v_rsp_vld = False, v_rsp_excp = 0,
     v_rsp_data = 0, v_trap_flush = False\<rparr>"

definition sample_answer :: lsu_in where
  "sample_answer = (sample_in False)\<lparr>v_vld := False, v_rsp_vld := True, v_rsp_data := 0x12345680\<rparr>"

theorem lsu_load_commits_witness:
  "c_vld (lsu_out sample_answer (lsu_step (sample_in True) (fold lsu_step [sample_in False] lsu_reset)))
    \<and> c_wb_data (lsu_out sample_answer (lsu_step (sample_in True) (fold lsu_step [sample_in False] lsu_reset))) = 0xFFFFFF80"
  using lsu_load_commits [of lsu_reset "[sample_in False]" "sample_in True" sample_load sample_answer]
  by (simp add: lsu_idle_def lsu_reset_def offered_def sample_in_def sample_answer_def a_load_def sample_load_def no_ex2ls_def
      load_value_def Let_def)

text \<open>
  An answer that comes later than that is written back, but the instruction is not committed: no
  interrupt is taken behind it, its fault is not reported, and it is not counted. The destination has
  been replaced if another instruction was offered in between.
\<close>

lemma late_answer_not_committed:
  assumes "l_ld_req_r r" and "\<not> l_st_req_r r" and "\<not> v_rsp_vld x" and "v_rsp_vld y" and "\<not> v_trap_flush y"
  shows "c_wb_vld (lsu_out y (lsu_step x r))" and "\<not> c_vld (lsu_out y (lsu_step x r))"
    and "ls_pipe_nxt x \<Longrightarrow> e_wb_act (lsu_pipe x r) \<Longrightarrow>
      c_wb_idx (lsu_out y (lsu_step x r)) = e_wb_idx (lsu_pipe x r)"
  using assms by (simp_all add: lsu_out_def lsu_step_def ls_wb_vld_def lsu_wires)

text \<open>A load to register zero, or one that already has an exception, never asks the memory and is
  never committed: the exception is lost.\<close>

lemma load_without_request:
  assumes "lsu_idle r" and "v_vld x" and "e_op_load (v_ex2ls x)" and "\<not> e_op_store (v_ex2ls x)"
    and "\<not> e_wb_act (v_ex2ls x) \<or> e_has_excp (v_ex2ls x)" and "\<not> v_trap_flush x"
  shows "\<not> ls2mem_req_vld x r \<and> \<not> c_vld (lsu_out y (lsu_step x r)) \<and> (\<not> v_vld y \<longrightarrow> \<not> c_vld (lsu_out z (lsu_step y (lsu_step x r))))"
  using assms by (auto simp: lsu_idle_def lsu_pipe_def lsu_out_def lsu_step_def lsu_wires)

text \<open>
  The pipeline is flushed one cycle after the instruction that causes it, when the next one is already
  here: it is not committed and writes no register, but its access to memory has been requested and
  its write to a control register is passed on.
\<close>

lemma flushed_instruction_acts:
  assumes "lsu_idle r" and "offered True x" and "\<not> e_has_excp (v_ex2ls x)" and "v_trap_flush y"
  shows "\<not> c_vld (lsu_out y (lsu_step x r))" and "\<not> c_wb_vld (lsu_out y (lsu_step x r))"
    and "e_op_store (v_ex2ls x) \<Longrightarrow> mem_req_fire x r \<and> \<not> q_read (ls2mem_req x r) \<and> q_addr (ls2mem_req x r) = e_st_addr (v_ex2ls x)"
    and "e_csr_vld (v_ex2ls x) \<Longrightarrow> c_csr_vld (lsu_out y (lsu_step x r))
      \<and> c_csr_idx (lsu_out y (lsu_step x r)) = e_csr_idx (v_ex2ls x) \<and> c_csr_data (lsu_out y (lsu_step x r)) = e_csr_data (v_ex2ls x)"
  using assms
  by (auto simp: lsu_idle_def lsu_pipe_def lsu_out_def lsu_step_def lsu_wires offered_def ls2mem_req_def ls_wb_vld_def)

end
