(* ===== verification/Core_Commit.thy ===== *)
theory Core_Commit
  imports Core_Lsu Core_Csr
begin

text \<open>
  The commit unit \<open>design/core/uv_cmt.v\<close> and the end of the pipeline that \<open>design/core/uv_ucore.v\<close>
  wires together: the load-store unit hands an instruction over, the commit unit lets it write its
  register and its control register or raises a trap, and the control registers take both. The lemmas
  follow one control-register instruction through the three units.
\<close>

section \<open>The commit unit\<close>

record irqs =
  irq_ext :: bool
  irq_sft :: bool
  irq_tmr :: bool
  irq_nmi :: bool

record cmt_regs =
  t_flush :: bool
  t_pc :: u32
  t_trig :: bool
  t_exit :: bool
  t_type :: bool
  t_code :: "4 word"
  t_mepc :: u32
  t_info :: u32

definition cmt_reset :: cmt_regs where
  "cmt_reset = \<lparr>t_flush = False, t_pc = 0, t_trig = False, t_exit = False, t_type = False, t_code = 0, t_mepc = 0,
     t_info = 0\<rparr>"

definition with_irq_ext :: "ls2cm \<Rightarrow> irqs \<Rightarrow> csr_regs \<Rightarrow> bool" where
  "with_irq_ext l q c \<longleftrightarrow> c_vld l \<and> bit (cs_mstatus c) 3 \<and> bit (cs_mie c) 11 \<and> irq_ext q"

definition with_irq_sft :: "ls2cm \<Rightarrow> irqs \<Rightarrow> csr_regs \<Rightarrow> bool" where
  "with_irq_sft l q c \<longleftrightarrow> c_vld l \<and> bit (cs_mstatus c) 3 \<and> bit (cs_mie c) 3 \<and> irq_sft q"

definition with_irq_tmr :: "ls2cm \<Rightarrow> irqs \<Rightarrow> csr_regs \<Rightarrow> bool" where
  "with_irq_tmr l q c \<longleftrightarrow> c_vld l \<and> bit (cs_mstatus c) 3 \<and> bit (cs_mie c) 7 \<and> irq_tmr q"

definition with_irq_nmi :: "ls2cm \<Rightarrow> irqs \<Rightarrow> bool" where
  "with_irq_nmi l q \<longleftrightarrow> c_vld l \<and> irq_nmi q"

definition with_irq :: "ls2cm \<Rightarrow> irqs \<Rightarrow> csr_regs \<Rightarrow> bool" where
  "with_irq l q c \<longleftrightarrow> with_irq_ext l q c \<or> with_irq_sft l q c \<or> with_irq_tmr l q c \<or> with_irq_nmi l q"

definition with_if_excp :: "ls2cm \<Rightarrow> bool" where
  "with_if_excp l \<longleftrightarrow> c_vld l \<and> (c_if_acc_fault l \<or> c_if_mis_align l)"

definition with_ls_excp :: "ls2cm \<Rightarrow> bool" where
  "with_ls_excp l \<longleftrightarrow> c_vld l \<and> (c_ld_acc_fault l \<or> c_ld_mis_align l \<or> c_st_acc_fault l \<or> c_st_mis_align l)"

definition with_excp :: "ls2cm \<Rightarrow> bool" where
  "with_excp l \<longleftrightarrow> c_vld l \<and> (with_if_excp l \<or> with_ls_excp l \<or> c_env_call l \<or> c_env_break l \<or> c_ill_inst l)"

definition with_trap :: "ls2cm \<Rightarrow> irqs \<Rightarrow> csr_regs \<Rightarrow> bool" where
  "with_trap l q c \<longleftrightarrow> with_irq l q c \<or> with_excp l"

definition with_eret :: "ls2cm \<Rightarrow> bool" where
  "with_eret l \<longleftrightarrow> c_vld l \<and> c_trap_exit l"

definition tmr_irq_clr :: "ls2cm \<Rightarrow> irqs \<Rightarrow> csr_regs \<Rightarrow> bool" where
  "tmr_irq_clr l q c \<longleftrightarrow>
     \<not> with_irq_nmi l q \<and> \<not> with_irq_ext l q c \<and> \<not> with_irq_sft l q c \<and> with_irq_tmr l q c"

definition trap_code_irq :: "ls2cm \<Rightarrow> irqs \<Rightarrow> csr_regs \<Rightarrow> 4 word" where
  "trap_code_irq l q c =
     (if with_irq_nmi l q then 15 else if with_irq_ext l q c then 11 else if with_irq_sft l q c then 3
      else if with_irq_tmr l q c then 7 else 0)"

definition trap_code_excp :: "ls2cm \<Rightarrow> 4 word" where
  "trap_code_excp l =
     (if \<not> c_vld l then 0
      else if c_env_break l then 3
      else if c_if_acc_fault l then 1
      else if c_ill_inst l then 2
      else if c_if_mis_align l then 0
      else if c_env_call l then 11
      else if c_st_mis_align l then 6
      else if c_ld_mis_align l then 4
      else if c_st_acc_fault l then 7
      else if c_ld_acc_fault l then 5
      else 0)"

definition mtvec_base :: "csr_regs \<Rightarrow> u32" where "mtvec_base c = cs_mtvec c AND NOT 3"

definition mtvec_vpc :: "ls2cm \<Rightarrow> irqs \<Rightarrow> csr_regs \<Rightarrow> u32" where
  "mtvec_vpc l q c = mtvec_base c + push_bit 2 (ucast (trap_code_irq l q c))"

definition mtvec_pc :: "ls2cm \<Rightarrow> irqs \<Rightarrow> csr_regs \<Rightarrow> u32" where
  "mtvec_pc l q c = (if bit (cs_mtvec c) 0 \<and> with_irq l q c then mtvec_vpc l q c else mtvec_base c)"

definition cmt_step :: "ls2cm \<Rightarrow> irqs \<Rightarrow> csr_regs \<Rightarrow> cmt_regs" where
  "cmt_step l q c =
     \<lparr>t_flush = (with_trap l q c \<or> with_eret l),
      t_pc = (if with_trap l q c then mtvec_pc l q c else if with_eret l then cs_mepc c else 0),
      t_trig = with_trap l q c,
      t_exit = with_eret l,
      t_type = with_irq l q c,
      t_code = (if with_irq l q c then trap_code_irq l q c else trap_code_excp l),
      t_mepc = (if with_irq l q c then c_pc_nxt l else c_pc l),
      t_info = (if c_ill_inst l then c_inst l else if with_if_excp l then c_pc l
                else if with_ls_excp l then c_ls_addr l else 0)\<rparr>"

text \<open>What the commit unit lets through at once: the writes to the register file and to the control
  registers, and the count of instructions.\<close>

definition cm2rf_wb :: "ls2cm \<Rightarrow> (5 word \<times> u32) option" where
  "cm2rf_wb l = (if \<not> with_excp l \<and> c_wb_vld l then Some (c_wb_idx l, c_wb_data l) else None)"

definition cm2cs_csr_vld :: "ls2cm \<Rightarrow> bool" where "cm2cs_csr_vld l \<longleftrightarrow> \<not> with_excp l \<and> c_csr_vld l"
definition cm2cs_csr_idx :: "ls2cm \<Rightarrow> 12 word" where "cm2cs_csr_idx l = (if with_excp l then 0 else c_csr_idx l)"
definition cm2cs_csr_data :: "ls2cm \<Rightarrow> u32" where "cm2cs_csr_data l = (if with_excp l then 0 else c_csr_data l)"
definition cm2cs_instret :: "ls2cm \<Rightarrow> bool" where "cm2cs_instret l \<longleftrightarrow> \<not> with_excp l \<and> c_vld l"

section \<open>The register file\<close>

text \<open>\<open>design/core/uv_regfile.v\<close>: register zero is tied to zero; the others take the write of the commit
  unit at the clock edge.\<close>

definition rf_reset :: "5 word \<Rightarrow> u32" where "rf_reset = (\<lambda>_. 0)"

definition rf_step :: "(5 word \<times> u32) option \<Rightarrow> (5 word \<Rightarrow> u32) \<Rightarrow> 5 word \<Rightarrow> u32" where
  "rf_step wr rf = (\<lambda>i. if i = 0 then 0 else case wr of Some (idx, v) \<Rightarrow> if i = idx then v else rf i | None \<Rightarrow> rf i)"

lemma rf_zero: "fold rf_step wrs rf_reset 0 = 0"
proof -
  have "fold rf_step wrs rf 0 = 0" if "rf 0 = 0" for rf
    using that by (induction wrs arbitrary: rf) (simp_all add: rf_step_def)
  then show ?thesis by (simp add: rf_reset_def)
qed

text \<open>A result that the decoder lets through (its register is not zero) is what the next read finds.\<close>

lemma rf_result: "result i v = Some (rd, w) \<Longrightarrow> rf_step (result i v) rf rd = w \<and> (r \<noteq> rd \<longrightarrow> r \<noteq> 0 \<longrightarrow> rf_step (result i v) rf r = rf r)"
  by (auto simp: rf_step_def result_def dest_def split: if_splits)

section \<open>The three units together\<close>

record back_end =
  b_lsu :: lsu_regs
  b_cmt :: cmt_regs
  b_csr :: csr_regs

text \<open>The flush that the commit unit has decided one cycle earlier reaches the load-store unit, and the
  execution unit withdraws its offer.\<close>

definition lsu_port :: "lsu_in \<Rightarrow> back_end \<Rightarrow> lsu_in" where
  "lsu_port x b = x\<lparr>v_vld := v_vld x \<and> \<not> t_flush (b_cmt b), v_trap_flush := t_flush (b_cmt b)\<rparr>"

definition committing :: "lsu_in \<Rightarrow> back_end \<Rightarrow> ls2cm" where
  "committing x b = lsu_out (lsu_port x b) (b_lsu b)"

definition csr_port :: "ls2cm \<Rightarrow> irqs \<Rightarrow> cmt_regs \<Rightarrow> csr_in" where
  "csr_port l q t =
     \<lparr>i_wr_vld = cm2cs_csr_vld l, i_wr_idx = cm2cs_csr_idx l, i_wr_data = cm2cs_csr_data l, i_pri_level = 3,
      i_trap_trig = t_trig t, i_trap_exit = t_exit t, i_trap_type = t_type t, i_trap_code = t_code t,
      i_trap_mepc = t_mepc t, i_trap_info = t_info t, i_intr_ext = irq_ext q, i_intr_sft = irq_sft q,
      i_intr_tmr = irq_tmr q, i_instret_inc = cm2cs_instret l\<rparr>"

definition back_step :: "lsu_in \<times> irqs \<Rightarrow> back_end \<Rightarrow> back_end" where
  "back_step xq b =
     (let x = fst xq; q = snd xq; l = committing x b
      in \<lparr>b_lsu = lsu_step (lsu_port x b) (b_lsu b), b_cmt = cmt_step l q (b_csr b),
          b_csr = csr_step (csr_port l q (b_cmt b)) (b_csr b)\<rparr>)"

definition back_reset :: back_end where
  "back_reset = \<lparr>b_lsu = lsu_reset, b_cmt = cmt_reset, b_csr = csr_reset\<rparr>"

section \<open>From the execution unit\<close>

text \<open>
  What the execution unit buffers for the load-store unit, for an instruction that was fetched without
  a fault, and what the control registers answer to it. The next address is \<open>bjp_addr\<close>, which for an
  instruction that does not branch is the one the fetch unit went on with.
\<close>

definition ex2ls_of :: "u32 \<Rightarrow> u32 \<Rightarrow> outcome \<Rightarrow> ex2ls" where
  "ex2ls_of i pc r =
     no_ex2ls\<lparr>e_op_load := o_load r \<noteq> None, e_op_loadu := (case o_load r of Some (rd, k, u, a) \<Rightarrow> u | None \<Rightarrow> False),
       e_op_store := o_store r \<noteq> None,
       e_ls_mask := (case o_load r of Some (rd, k, u, a) \<Rightarrow> k | None \<Rightarrow> case o_store r of Some (k, a, d) \<Rightarrow> k | None \<Rightarrow> 0),
       e_ld_addr := (case o_load r of Some (rd, k, u, a) \<Rightarrow> a | None \<Rightarrow> 0),
       e_st_addr := (case o_store r of Some (k, a, d) \<Rightarrow> a | None \<Rightarrow> 0),
       e_st_data := (case o_store r of Some (k, a, d) \<Rightarrow> d | None \<Rightarrow> 0),
       e_op_mret := o_mret r, e_op_wfi := o_wfi r,
       e_wb_act := o_reg r \<noteq> None \<or> (case o_load r of Some (rd, k, u, a) \<Rightarrow> rd \<noteq> None | None \<Rightarrow> False),
       e_wb_vld := o_reg r \<noteq> None,
       e_wb_idx := (case o_reg r of Some (rd, v) \<Rightarrow> rd | None \<Rightarrow>
                      case o_load r of Some (Some rd, k, u, a) \<Rightarrow> rd | _ \<Rightarrow> 0),
       e_wb_data := (case o_reg r of Some (rd, v) \<Rightarrow> v | None \<Rightarrow> 0),
       e_csr_vld := o_csr r \<noteq> None, e_csr_idx := (case o_csr r of Some (j, v) \<Rightarrow> j | None \<Rightarrow> 0),
       e_csr_data := (case o_csr r of Some (j, v) \<Rightarrow> v | None \<Rightarrow> 0),
       e_inst := i, e_pc := pc, e_pc_nxt := o_pc r, e_has_excp := o_ill_inst r \<or> o_env_call r \<or> o_env_break r, e_ill_inst := o_ill_inst r,
       e_env_call := o_env_call r, e_env_break := o_env_break r\<rparr>"

definition csr_answer :: "csr_ids \<Rightarrow> u64 \<Rightarrow> csr_regs \<Rightarrow> u32 \<Rightarrow> csr_rsp" where
  "csr_answer ids mtime c i =
     (let x = idu i 0 0 0; p = read_port mtime (x_csr_rd x) (x_csr_wr x) (x_csr_idx x)
      in (fst (csr_read ids p c), csr_excp ids p c))"

section \<open>An instruction without memory access\<close>

definition passed :: "ex2ls \<Rightarrow> lsu_regs \<Rightarrow> ls2cm" where
  "passed e r =
    \<lparr>c_vld = True, c_wb_vld = (e_wb_act e \<and> e_wb_vld e), c_wb_idx = (if e_wb_act e then e_wb_idx e else l_wb_idx_r r),
     c_wb_data = (if e_wb_act e \<and> e_wb_vld e then e_wb_data e else l_ld_data_r r), c_csr_vld = e_csr_vld e,
     c_csr_idx = e_csr_idx e, c_csr_data = e_csr_data e, c_inst = e_inst e, c_pc = e_pc e, c_pc_nxt = e_pc_nxt e,
     c_ls_addr = e_ld_addr e, c_if_acc_fault = e_acc_fault e, c_if_mis_align = e_mis_align e, c_ld_acc_fault = False,
     c_ld_mis_align = False, c_st_acc_fault = False, c_st_mis_align = False, c_ill_inst = e_ill_inst e,
     c_env_call = e_env_call e, c_env_break = e_env_break e, c_trap_exit = e_op_mret e, c_wfi = e_op_wfi e\<rparr>"

lemma lsu_passes:
  assumes "lsu_idle r" and "v_vld x" and "\<not> v_trap_flush x" and "v_ex2ls x = e" and "\<not> e_op_load e" and "\<not> e_op_store e"
    and "\<not> v_trap_flush y"
  shows "lsu_out y (lsu_step x r) = passed e r"
    and "lsu_idle (lsu_step x r)"
proof -
  have p: "lsu_pipe x r = e" using assms(1,4) by (auto simp: lsu_idle_def lsu_pipe_def)
  have idle: "\<not> l_ld_req_r r" "\<not> l_st_req_r r" using assms(1) by (simp_all add: lsu_idle_def)
  have no_req: "\<not> ls2mem_req_vld x r" using p assms(5,6) by (simp add: ls2mem_req_vld_def)
  then have fire: "ex2ls_fire x r" "\<not> mem_req_fire x r" "\<not> mem_ld_fire x r" "\<not> mem_st_fire x r"
    using idle assms(2) by (simp_all add: ex2ls_fire_def ex2ls_rdy_def mem_ld_wait_def mem_st_wait_def mem_req_fire_def
        mem_ld_fire_def mem_st_fire_def)
  have step: "\<not> l_ld_req_r (lsu_step x r)" "\<not> l_st_req_r (lsu_step x r)" "l_fire_p (lsu_step x r)"
    using idle fire by (simp_all add: lsu_step_def Let_def)
  then have "\<not> mem_ld_fire y (lsu_step x r)" "\<not> mem_st_fire y (lsu_step x r)"
    by (simp_all add: mem_ld_fire_def mem_st_fire_def)
  note no_fire = this
  have "lsu_step x r = \<lparr>l_fire_p = True, l_init_p = False, l_ex2ls_r = e, l_ld_req_r = False, l_st_req_r = False,
     l_ld_mask_p = l_ld_mask_p r, l_ld_usgn_p = l_ld_usgn_p r, l_ld_data_r = l_ld_data_r r, l_ls2cm_vld_r = True,
     l_inst_non_ls_r = True, l_trap_exit_r = e_op_mret e, l_wfi_r = e_op_wfi e,
     l_wb_vld_r = (e_wb_act e \<and> e_wb_vld e), l_wb_data_r = e_wb_data e, l_wb_act_r = e_wb_act e,
     l_wb_idx_r = (if e_wb_act e then e_wb_idx e else l_wb_idx_r r), l_csr_vld_r = e_csr_vld e,
     l_csr_idx_r = e_csr_idx e, l_csr_data_r = e_csr_data e, l_inst_r = e_inst e, l_pc_r = e_pc e,
     l_pc_nxt_r = e_pc_nxt e, l_ls_addr_r = e_ld_addr e, l_if_acc_fault_r = e_acc_fault e,
     l_if_mis_align_r = e_mis_align e, l_ill_inst_r = e_ill_inst e, l_env_call_r = e_env_call e,
     l_env_break_r = e_env_break e\<rparr>"
    using p fire idle assms(2-6) by (simp add: lsu_step_def Let_def ls_pipe_nxt_def)
  then show "lsu_out y (lsu_step x r) = passed e r"
    using no_fire assms(7) by (simp add: lsu_out_def passed_def ls_wb_vld_def ls_wb_data_def mem_wb_data_def)
  show "lsu_idle (lsu_step x r)" using step by (simp add: lsu_idle_def)
qed

text \<open>The back end with no trap under way.\<close>

definition calm :: "back_end \<Rightarrow> bool" where
  "calm b \<longleftrightarrow> lsu_idle (b_lsu b) \<and> \<not> t_flush (b_cmt b) \<and> \<not> t_trig (b_cmt b) \<and> \<not> t_exit (b_cmt b)"

lemma calm_reset: "calm back_reset"
  by (simp add: calm_def back_reset_def lsu_idle_def lsu_reset_def cmt_reset_def)

lemma committing_offered:
  assumes "calm b" and "v_vld x" and "v_ex2ls x = e" and "\<not> e_op_load e" and "\<not> e_op_store e" and "\<not> t_flush (b_cmt (back_step (x, q) b))"
  shows "committing y (back_step (x, q) b) = passed e (b_lsu b)"
proof -
  have "committing y (back_step (x, q) b) = lsu_out (lsu_port y (back_step (x, q) b)) (lsu_step (lsu_port x b) (b_lsu b))"
    by (simp add: committing_def back_step_def Let_def)
  then show ?thesis
    using lsu_passes(1) [of "b_lsu b" "lsu_port x b" e "lsu_port y (back_step (x, q) b)"] assms
    by (simp add: calm_def lsu_port_def)
qed

section \<open>Control-register instructions\<close>

lemma csr_read_wb: "csr_read ids (read_port mtime vld wb idx) c = csr_read ids (read_port mtime vld False idx) c"
  by (simp only: csr_read_def read_port_def csr_rd.simps)

lemma csr_no_read: "csr_read ids (read_port mtime False wb idx) c = (0, False)" "\<not> csr_excp ids (read_port mtime False wb idx) c"
  by (simp_all only: csr_read_def csr_excp_def read_port_def no_csr_def Let_def csr_rd.simps) simp_all

lemma idu_csr_idx: "x_csr_idx (idu i pc a b) = inst_i_imm i"
  by (simp add: idu_def)

lemma csr_answer_view:
  "fst (csr_answer ids mtime c i) = (if x_csr_rd (idu i 0 0 0) then csr_view ids mtime c (inst_i_imm i) else 0)"
proof (cases "x_csr_rd (idu i 0 0 0)")
  case True
  then show ?thesis
    using csr_read_wb [of ids mtime True "x_csr_wr (idu i 0 0 0)" "inst_i_imm i" c]
    by (simp only: csr_answer_def Let_def idu_csr_idx csr_view_def fst_conv if_True)
next
  case False
  then show ?thesis
    by (simp only: csr_answer_def Let_def csr_no_read fst_conv if_False)
qed

text \<open>The architectural effect of a control-register instruction, of the registers as software sees them.\<close>

definition csr_effect :: "u32 \<Rightarrow> bool \<Rightarrow> u32 \<Rightarrow> (12 word \<Rightarrow> u32) \<Rightarrow> 12 word \<Rightarrow> u32" where
  "csr_effect i writes new f j = (if writes \<and> j = inst_i_imm i then csr_written j new (f j) else f j)"

lemma csr_insn_outcome:
  assumes "(n, im, g) \<in> set rv_csr" and "is_insn i n" and "n \<in> {''CSRRC'', ''CSRRCI''} \<longrightarrow> inst_rs1_idx i \<noteq> 0"
    and "\<not> snd (csr_answer ids mtime c i)"
  shows "core_exec m d (csr_answer ids mtime c i) i pc a b =
    (plain (pc + 4))\<lparr>o_reg := result i (csr_view ids mtime c (inst_i_imm i)),
       o_csr := (if n \<in> {''CSRRW'', ''CSRRWI''} \<or> inst_rs1_idx i \<noteq> 0
                 then Some (inst_i_imm i, g (csr_view ids mtime c (inst_i_imm i)) (csr_operand im i a)) else None)\<rparr>"
proof -
  obtain v where v: "csr_answer ids mtime c i = (v, False)"
    using assms(4) by (cases "csr_answer ids mtime c i") auto
  have code: "inst_op_system i" "(inst_funct3 i, im, g) \<in> csr_codes" "n \<in> {''CSRRW'', ''CSRRWI''} \<longleftrightarrow> inst_op_csrrw i"
    using rv_csr_codes [of i] assms(1,2) by blast+
  have op: "inst_op_csr i"
    using code(1,2) by (auto simp: csr_codes_def op_defs inst_funct3_lo_def slice_ucast)
  have val: "v = (if x_csr_rd (idu i 0 0 0) then csr_view ids mtime c (inst_i_imm i) else 0)"
    using csr_answer_view [of ids mtime c i] v by simp
  show ?thesis
  proof (cases "x_csr_rd (idu i 0 0 0)")
    case True
    then show ?thesis using exec_rv_csr [OF assms(1-3)] v val by simp
  next
    case False
    then have rw: "inst_op_csrrw i" and rd: "inst_rd_idx i = 0" using op by (simp_all add: idu_def)
    then have "g w = g w'" for w w'
      using code(2) by (auto simp: csr_codes_def op_defs inst_funct3_lo_def slice_ucast)
    then show ?thesis
      using exec_rv_csr [OF assms(1-3)] v rd by (simp add: result_def dest_def) metis
  qed
qed

lemma plain_sends:
  "ex2ls_of i pc ((plain npc)\<lparr>o_reg := wb, o_csr := csr\<rparr>) =
    no_ex2ls\<lparr>e_wb_act := wb \<noteq> None, e_wb_vld := wb \<noteq> None, e_wb_idx := (case wb of Some (rd, v) \<Rightarrow> rd | None \<Rightarrow> 0),
      e_wb_data := (case wb of Some (rd, v) \<Rightarrow> v | None \<Rightarrow> 0), e_csr_vld := csr \<noteq> None,
      e_csr_idx := (case csr of Some (j, v) \<Rightarrow> j | None \<Rightarrow> 0), e_csr_data := (case csr of Some (j, v) \<Rightarrow> v | None \<Rightarrow> 0),
      e_inst := i, e_pc := pc, e_pc_nxt := npc\<rparr>"
  by (cases wb) (simp_all add: ex2ls_of_def plain_def no_ex2ls_def)

lemma passed_plain:
  assumes "e = ex2ls_of i pc ((plain npc)\<lparr>o_reg := wb, o_csr := csr\<rparr>)"
  shows "\<not> with_excp (passed e r)" and "cm2rf_wb (passed e r) = wb"
    and "c_csr_vld (passed e r) = (csr \<noteq> None)" and "csr = Some (j, v) \<Longrightarrow> c_csr_idx (passed e r) = j \<and> c_csr_data (passed e r) = v"
    and "\<not> e_op_load e" and "\<not> e_op_store e"
  unfolding assms plain_sends
  by (auto simp: passed_def with_excp_def with_if_excp_def with_ls_excp_def cm2rf_wb_def no_ex2ls_def split: option.splits)

lemma csr_insn_effect:
  assumes "(n, im, g) \<in> set rv_csr" and "is_insn i n" and "n \<in> {''CSRRC'', ''CSRRCI''} \<longrightarrow> inst_rs1_idx i \<noteq> 0"
    and "calm b" and "v_vld x" and "b1 = back_step (x, q) b" and "calm b1"
    and "\<not> snd (csr_answer ids mtime (b_csr b1) i)"
    and "v_ex2ls x = ex2ls_of i pc (core_exec m d (csr_answer ids mtime (b_csr b1) i) i pc a1 a2)"
    and "j \<notin> live_csrs"
  shows "cm2rf_wb (committing y b1) = result i (csr_view ids mtime (b_csr b1) (inst_i_imm i))"
    and "csr_view ids mtime (b_csr (back_step (y, q') b1)) j =
      csr_effect i (n \<in> {''CSRRW'', ''CSRRWI''} \<or> inst_rs1_idx i \<noteq> 0)
        (g (csr_view ids mtime (b_csr b1) (inst_i_imm i)) (csr_operand im i a1)) (csr_view ids mtime (b_csr b1)) j"
proof -
  define old where "old = csr_view ids mtime (b_csr b1)"
  define writes where "writes \<longleftrightarrow> n \<in> {''CSRRW'', ''CSRRWI''} \<or> inst_rs1_idx i \<noteq> 0"
  define csr where "csr = (if writes then Some (inst_i_imm i, g (old (inst_i_imm i)) (csr_operand im i a1)) else None)"
  have e: "v_ex2ls x = ex2ls_of i pc ((plain (pc + 4))\<lparr>o_reg := result i (old (inst_i_imm i)), o_csr := csr\<rparr>)"
    using assms(9) csr_insn_outcome [OF assms(1-3,8)] by (simp only: old_def csr_def writes_def)
  note passed = passed_plain [OF e]
  have com: "committing y b1 = passed (v_ex2ls x) (b_lsu b)"
    using committing_offered [of b x "v_ex2ls x" q y] assms(4-7) passed(5,6) by (simp add: calm_def)
  define p where "p = csr_port (committing y b1) q' (b_cmt b1)"
  have p: "\<not> i_trap_trig p" "\<not> i_trap_exit p" "i_pri_level p = 3" "i_wr_vld p = writes"
      "writes \<Longrightarrow> i_wr_idx p = inst_i_imm i \<and> i_wr_data p = g (old (inst_i_imm i)) (csr_operand im i a1)"
    using assms(7) passed(1,3,4) com
    by (simp_all add: p_def csr_port_def calm_def cm2cs_csr_vld_def cm2cs_csr_idx_def cm2cs_csr_data_def csr_def)
  have "b_csr (back_step (y, q') b1) = csr_step p (b_csr b1)"
    by (simp add: back_step_def Let_def p_def)
  then have "csr_view ids mtime (b_csr (back_step (y, q') b1)) j =
      csr_effect i writes (g (old (inst_i_imm i)) (csr_operand im i a1)) old j"
    using csr_write_view [of p j ids mtime "b_csr b1"] csr_quiet_view [of p j ids mtime "b_csr b1"] p assms(10)
    by (cases writes) (simp_all add: csr_effect_def old_def)
  then show "csr_view ids mtime (b_csr (back_step (y, q') b1)) j =
      csr_effect i (n \<in> {''CSRRW'', ''CSRRWI''} \<or> inst_rs1_idx i \<noteq> 0)
        (g (csr_view ids mtime (b_csr b1) (inst_i_imm i)) (csr_operand im i a1)) (csr_view ids mtime (b_csr b1)) j"
    by (simp only: old_def writes_def)
  show "cm2rf_wb (committing y b1) = result i (csr_view ids mtime (b_csr b1) (inst_i_imm i))"
    using com passed(2) by (simp add: old_def)
qed


lemma calm_step:
  assumes "calm b" and "v_vld x" and "\<not> e_op_load (v_ex2ls x)" and "\<not> e_op_store (v_ex2ls x)" and "\<not> c_vld (committing x b)"
  shows "calm (back_step (x, q) b)"
proof -
  have "lsu_idle (lsu_step (lsu_port x b) (b_lsu b))"
    using lsu_passes(2) [of "b_lsu b" "lsu_port x b" "v_ex2ls x" "lsu_port x b"] assms(1-4)
    by (simp add: calm_def lsu_port_def)
  with assms(5) show ?thesis
    by (simp add: calm_def back_step_def Let_def cmt_step_def with_trap_def with_excp_def with_irq_def with_irq_ext_def
        with_irq_sft_def with_irq_tmr_def with_irq_nmi_def with_eret_def)
qed

lemma reset_not_committing: "\<not> c_vld (committing x back_reset)"
  by (simp add: committing_def lsu_out_def back_reset_def lsu_reset_def)

lemma accepted_mstatus_mie:
  assumes "inst_i_imm i \<in> {0x300, 0x304}"
  shows "\<not> snd (csr_answer ids mtime c i)"
proof -
  have "\<not> csr_excp ids (read_port mtime vld wb (inst_i_imm i)) c" for vld wb
    using assms
    by (elim insertE emptyE; simp add: csr_excp_def rd_defs rw_flag_def pri_flag_def csr_addr_def slice_ucast)
  then show ?thesis by (simp add: csr_answer_def Let_def idu_csr_idx)
qed

text \<open>An offer without memory, for the examples.\<close>

definition offer :: "ex2ls \<Rightarrow> lsu_in" where
  "offer e = \<lparr>v_vld = True, v_ex2ls = e, v_rs2_idx = 0, v_req_rdy = False, v_rsp_vld = False, v_rsp_excp = 0, v_rsp_data = 0,
     v_trap_flush = False\<rparr>"

definition no_irqs :: irqs where
  "no_irqs = \<lparr>irq_ext = False, irq_sft = False, irq_tmr = False, irq_nmi = False\<rparr>"

definition core_ids :: csr_ids where
  "core_ids = \<lparr>ARCH_ID = 0x235, IMPL_ID = 1, HART_ID = 0, VENDOR_ID = 0\<rparr>"



section \<open>The interrupt macros of the driver\<close>

text \<open>
  The registers that \<open>uv_irq.h\<close> works on, and the instruction each macro compiles to: \<open>set_csr\<close> and
  \<open>clear_csr\<close> of \<open>encoding.h\<close>, with an immediate where the compiler finds one.
\<close>

definition core_view :: "csr_regs \<Rightarrow> core_csr" where
  "core_view c = \<lparr>mstatus = cs_mstatus c, mie = cs_mie c\<rparr>"

definition irq_macros :: "((core_csr \<Rightarrow> core_csr) \<times> string set \<times> 12 word \<times> u32) list" where
  "irq_macros = [
     (uv_enable_glb_irq, {''CSRRS'', ''CSRRSI''}, 0x300, MSTATUS_MIE),
     (uv_disable_glb_irq, {''CSRRC'', ''CSRRCI''}, 0x300, MSTATUS_MIE),
     (uv_enable_tmr_irq, {''CSRRS'', ''CSRRSI''}, 0x304, MIP_MTIP),
     (uv_disable_tmr_irq, {''CSRRC'', ''CSRRCI''}, 0x304, MIP_MTIP),
     (uv_enable_sft_irq, {''CSRRS'', ''CSRRSI''}, 0x304, MIP_MSIP),
     (uv_disable_sft_irq, {''CSRRC'', ''CSRRCI''}, 0x304, MIP_MSIP),
     (uv_enable_ext_irq, {''CSRRS'', ''CSRRSI''}, 0x304, MIP_MEIP),
     (uv_disable_ext_irq, {''CSRRC'', ''CSRRCI''}, 0x304, MIP_MEIP)]"

lemma core_view_csrs: "mstatus (core_view c) = csr_view ids mtime c 0x300" "mie (core_view c) = csr_view ids mtime c 0x304"
  by (simp_all add: core_view_def csr_view_table stored_csrs_def)

lemma put_bits_or: "v AND NOT m = 0 \<Longrightarrow> put_bits m (w OR v) w = w OR v" for v :: u32
  by (rule bit_word_eqI) (auto simp: bit_put_bits bit_simps dest: arg_cong [where f = "\<lambda>w. bit w _"])

lemma put_bits_clear: "v AND NOT m = 0 \<Longrightarrow> put_bits m (w AND NOT v) w = w AND NOT v" for v :: u32
  by (rule bit_word_eqI) (auto simp: bit_put_bits bit_simps dest: arg_cong [where f = "\<lambda>w. bit w _"])

lemma irq_bits:
  "MSTATUS_MIE AND NOT 0x88 = 0" "MIP_MTIP AND NOT 0x888 = 0" "MIP_MSIP AND NOT 0x888 = 0" "MIP_MEIP AND NOT 0x888 = 0"
  by (simp_all add: MSTATUS_MIE_def MIP_MTIP_def MIP_MSIP_def MIP_MEIP_def)

lemma csr_set_clear:
  assumes "(n, im, g) \<in> set rv_csr"
  shows "n \<in> {''CSRRS'', ''CSRRSI''} \<Longrightarrow> g c v = c OR v" and "n \<in> {''CSRRC'', ''CSRRCI''} \<Longrightarrow> g c v = c AND NOT v"
  using assms by (auto simp: rv_csr_def)



text \<open>The commit unit takes an interrupt exactly where the model of the header says that it is open.\<close>

lemma interrupts_open:
  "with_irq_ext l q c \<longleftrightarrow> c_vld l \<and> irq_ext q \<and> irq_open MIP_MEIP (core_view c)"
  "with_irq_sft l q c \<longleftrightarrow> c_vld l \<and> irq_sft q \<and> irq_open MIP_MSIP (core_view c)"
  "with_irq_tmr l q c \<longleftrightarrow> c_vld l \<and> irq_tmr q \<and> irq_open MIP_MTIP (core_view c)"
proof -
  have b: "w AND push_bit n 1 \<noteq> 0 \<longleftrightarrow> bit w n" if "n < 32" for w :: u32 and n
    using that by (simp add: bit_iff_and_push_bit_not_eq_0)
  have "MSTATUS_MIE = push_bit 3 1" by (simp add: MSTATUS_MIE_def)
  then show "with_irq_ext l q c \<longleftrightarrow> c_vld l \<and> irq_ext q \<and> irq_open MIP_MEIP (core_view c)"
    and "with_irq_sft l q c \<longleftrightarrow> c_vld l \<and> irq_sft q \<and> irq_open MIP_MSIP (core_view c)"
    and "with_irq_tmr l q c \<longleftrightarrow> c_vld l \<and> irq_tmr q \<and> irq_open MIP_MTIP (core_view c)"
    using b [of 3 "cs_mstatus c"] b [of 3 "cs_mie c"] b [of 7 "cs_mie c"] b [of 11 "cs_mie c"]
    by (auto simp only: with_irq_ext_def with_irq_sft_def with_irq_tmr_def irq_open_def core_view_def MIP_MEIP_def
        MIP_MSIP_def MIP_MTIP_def core_csr.simps)
qed

section \<open>What the commit unit does not do\<close>

text \<open>
  An interrupt at the same commit as an exception hides it: the instruction writes nothing, and the
  interrupt returns behind it, so neither the exception is reported nor the instruction executed.
\<close>

lemma interrupted_exception_lost:
  assumes "with_excp l" and "with_irq l q c"
  shows "cm2rf_wb l = None \<and> \<not> cm2cs_csr_vld l \<and> t_type (cmt_step l q c) \<and> t_mepc (cmt_step l q c) = c_pc_nxt l
    \<and> t_code (cmt_step l q c) = trap_code_irq l q c"
  using assms by (simp add: cm2rf_wb_def cm2cs_csr_vld_def cmt_step_def)

text \<open>
  In the cycle of the flush the instruction behind a trap still writes its control register, although
  it is not committed; the instruction runs again after the handler.
\<close>

lemma flushed_csr_write:
  assumes "calm b" and "v_vld x" and "v_ex2ls x = e" and "\<not> e_op_load e" and "\<not> e_op_store e"
    and "e_csr_vld e" and "e_csr_idx e = 0x340" and "t_flush (b_cmt (back_step (x, q) b))"
  shows "\<not> c_vld (committing y (back_step (x, q) b)) \<and> cm2rf_wb (committing y (back_step (x, q) b)) = None
    \<and> cs_mscratch (b_csr (back_step (y, q') (back_step (x, q) b))) = e_csr_data e"
proof -
  define b1 where "b1 = back_step (x, q) b"
  define r where "r = lsu_step (lsu_port x b) (b_lsu b)"
  have pipe: "lsu_pipe (lsu_port x b) (b_lsu b) = e" and idle: "\<not> l_ld_req_r (b_lsu b)" "\<not> l_st_req_r (b_lsu b)"
    using assms(1,3) by (auto simp: calm_def lsu_idle_def lsu_pipe_def lsu_port_def)
  then have fire: "ex2ls_fire (lsu_port x b) (b_lsu b)" "\<not> mem_req_fire (lsu_port x b) (b_lsu b)"
    using assms(1,2,4,5) by (simp_all add: lsu_wires, simp_all add: lsu_port_def calm_def)
  have r: "l_csr_vld_r r" "l_csr_idx_r r = 0x340" "l_csr_data_r r = e_csr_data e"
    using pipe fire assms(6,7) by (simp_all add: r_def lsu_step_def Let_def)
  have lsu: "b_lsu b1 = r" by (simp add: b1_def r_def back_step_def Let_def)
  define l where "l = committing y b1"
  have l: "\<not> c_vld l" "\<not> c_wb_vld l" "c_csr_vld l" "c_csr_idx l = 0x340" "c_csr_data l = e_csr_data e"
    using assms(8) r lsu by (simp_all add: l_def committing_def lsu_out_def lsu_port_def b1_def [symmetric] ls_wb_vld_def)
  then have "\<not> with_excp l" by (simp add: with_excp_def)
  moreover have "b_csr (back_step (y, q') b1) = csr_step (csr_port l q' (b_cmt b1)) (b_csr b1)"
    by (simp add: back_step_def Let_def l_def)
  ultimately have "cs_mscratch (b_csr (back_step (y, q') b1)) = e_csr_data e"
    using l by (simp add: csr_step_def mscratch_nxt_def op_csr_iff csr_port_def cm2cs_csr_vld_def cm2cs_csr_idx_def cm2cs_csr_data_def)
  with l \<open>\<not> with_excp l\<close> show ?thesis
    by (simp add: b1_def [symmetric] l_def [symmetric] cm2rf_wb_def)
qed

end
