(* ===== verification/Core_Trap.thy ===== *)
theory Core_Trap
  imports Core_Commit Libc_Stubs
begin

text \<open>
  A trap from the interrupt request to the return: the commit unit and the control registers enter it,
  \<open>trap_entry\<close> of \<open>software/driver/src/crt.S\<close> saves the registers and calls \<open>handle_trap\<close>, and its
  \<open>mret\<close> passes the commit unit again. The code that the compiler makes of \<open>handle_trap\<close> is not in the
  repository: it is a parameter that keeps what the calling convention reserves for the caller.
\<close>

section \<open>The trap entry\<close>

type_synonym reg_file = "5 word \<Rightarrow> u32"
type_synonym word_mem = "u32 \<Rightarrow> u32"

text \<open>Compiled code as a function on registers and memory (word by word).\<close>

type_synonym callee = "reg_file \<times> word_mem \<Rightarrow> reg_file \<times> word_mem"

definition saved_regs :: "5 word list" where
  "saved_regs = [1, 5, 6, 7, 10, 11, 12, 13, 14, 15, 16, 17, 28, 29, 30, 31]"

definition REGBYTES :: u32 where "REGBYTES = 4"

fun save_frame :: "5 word list \<Rightarrow> u32 \<Rightarrow> reg_file \<Rightarrow> word_mem \<Rightarrow> word_mem" where
  "save_frame [] a rf m = m"
| "save_frame (r # rs) a rf m = save_frame rs (a + REGBYTES) rf (m(a := rf r))"

fun restore_frame :: "5 word list \<Rightarrow> u32 \<Rightarrow> word_mem \<Rightarrow> reg_file \<Rightarrow> reg_file" where
  "restore_frame [] a m rf = rf"
| "restore_frame (r # rs) a m rf = restore_frame rs (a + REGBYTES) m (rf(r := m a))"

text \<open>
  The entry ends in \<open>mret\<close>, with the address it wrote to \<open>mepc\<close> before, or the machine stays in the
  loop of \<open>_exit\<close>. It reads \<open>mcause\<close> and \<open>mepc\<close> once, before the call.
\<close>

datatype entry_result = Mret u32 reg_file word_mem soc | Halted soc

definition trap_entry :: "callee \<Rightarrow> irq_handlers \<Rightarrow> u32 \<Rightarrow> u32 \<Rightarrow> reg_file \<Rightarrow> word_mem \<Rightarrow> soc \<Rightarrow> entry_result option" where
  "trap_entry callee h mcause mepc rf m s =
     (let sp = rf 2 - 16 * REGBYTES;
          m = save_frame saved_regs sp rf m;
          rf = rf(2 := sp);
          rf = rf(10 := mcause, 11 := mepc, 12 := sp);
          (rf, m) = callee (rf, m)
      in case handle_trap h mcause mepc s of
           None \<Rightarrow> None
         | Some (Spin s) \<Rightarrow> Some (Halted s)
         | Some (Resume epc s) \<Rightarrow>
             let rf = restore_frame saved_regs (rf 2) m rf
             in Some (Mret epc (rf(2 := rf 2 + 16 * REGBYTES)) m s))"

text \<open>The calling convention: the callee keeps register zero, the stack, global and thread pointers and
  the registers \<open>s0\<close> to \<open>s11\<close>, and writes below the stack pointer it is given.\<close>

definition callee_saved :: "5 word list" where
  "callee_saved = [0, 2, 3, 4, 8, 9, 18, 19, 20, 21, 22, 23, 24, 25, 26, 27]"

definition follows_abi :: "callee \<Rightarrow> bool" where
  "follows_abi f \<longleftrightarrow> (\<forall>rf m. (\<forall>r \<in> set callee_saved. fst (f (rf, m)) r = rf r)
     \<and> (\<forall>k < 16. snd (f (rf, m)) (rf 2 + REGBYTES * of_nat k) = m (rf 2 + REGBYTES * of_nat k)))"

section \<open>Registers survive\<close>

lemma all_regs: "r \<in> set saved_regs \<or> r \<in> set callee_saved"
proof -
  have "unat r < 32" using unsigned_less [of r, where 'a = nat] by simp
  then have "unat r \<in> set [0..<32]" by simp
  then have "(of_nat (unat r) :: 5 word) \<in> of_nat ` set [0..<32]" by (rule imageI)
  moreover have "of_nat ` set [0..<32] \<subseteq> set saved_regs \<union> set callee_saved" by code_simp
  ultimately show ?thesis by auto
qed

lemma frame_values:
  "list_all (\<lambda>k. save_frame saved_regs sp rf m (sp + REGBYTES * of_nat k) = rf (saved_regs ! k)) [0..<16]"
  by (simp add: saved_regs_def REGBYTES_def upt_rec)

lemma restored:
  assumes "\<forall>k < 16. m (sp + REGBYTES * of_nat k) = rf (saved_regs ! k)"
  shows "restore_frame saved_regs sp m rf' r = (if r \<in> set saved_regs then rf r else rf' r)"
proof -
  have "m sp = rf 1" "m (sp + 4) = rf 5" "m (sp + 8) = rf 6" "m (sp + 12) = rf 7" "m (sp + 16) = rf 10"
    "m (sp + 20) = rf 11" "m (sp + 24) = rf 12" "m (sp + 28) = rf 13" "m (sp + 32) = rf 14" "m (sp + 36) = rf 15"
    "m (sp + 40) = rf 16" "m (sp + 44) = rf 17" "m (sp + 48) = rf 28" "m (sp + 52) = rf 29" "m (sp + 56) = rf 30"
    "m (sp + 60) = rf 31"
    using assms [THEN spec, of 0] assms [THEN spec, of 1] assms [THEN spec, of 2] assms [THEN spec, of 3]
      assms [THEN spec, of 4] assms [THEN spec, of 5] assms [THEN spec, of 6] assms [THEN spec, of 7]
      assms [THEN spec, of 8] assms [THEN spec, of 9] assms [THEN spec, of 10] assms [THEN spec, of 11]
      assms [THEN spec, of 12] assms [THEN spec, of 13] assms [THEN spec, of 14] assms [THEN spec, of 15]
    by (simp_all add: saved_regs_def REGBYTES_def)
  then show ?thesis
    by (simp add: saved_regs_def REGBYTES_def add.assoc)
qed

lemma trap_entry_restores:
  assumes "follows_abi f" and "handle_trap h mcause mepc s = Some (Resume epc s')"
  shows "\<exists>m'. trap_entry f h mcause mepc rf m s = Some (Mret epc rf m' s')"
proof -
  define sp where "sp = rf 2 - 16 * REGBYTES"
  define m1 where "m1 = save_frame saved_regs sp rf m"
  define rf1 where "rf1 = rf(2 := sp, 10 := mcause, 11 := mepc, 12 := sp)"
  obtain rf2 m2 where call: "f (rf1, m1) = (rf2, m2)" by (cases "f (rf1, m1)")
  have kept: "rf2 r = rf1 r" if "r \<in> set callee_saved" for r
    using assms(1) call that unfolding follows_abi_def by (metis fst_conv)
  have sp: "rf1 2 = sp" by (simp add: rf1_def)
  then have sp2: "rf2 2 = sp" using kept [of 2] by (simp add: callee_saved_def)
  have frame: "m2 (sp + REGBYTES * of_nat k) = m1 (sp + REGBYTES * of_nat k)" if "k < 16" for k
    using assms(1) call that sp unfolding follows_abi_def by (metis snd_conv)
  then have "\<forall>k < 16. m2 (sp + REGBYTES * of_nat k) = rf (saved_regs ! k)"
    using frame_values [of sp rf m] by (simp add: list_all_iff m1_def)
  note reload = restored [OF this, of rf2]
  have "(restore_frame saved_regs sp m2 rf2) (2 := sp + 16 * REGBYTES) = rf"
  proof
    fix r
    have "rf2 r = rf r" if "r \<noteq> 2" "r \<notin> set saved_regs"
      using kept [of r] all_regs [of r] that by (auto simp: rf1_def saved_regs_def)
    then show "((restore_frame saved_regs sp m2 rf2) (2 := sp + 16 * REGBYTES)) r = rf r"
      using reload by (auto simp: sp_def)
  qed
  moreover have "restore_frame saved_regs sp m2 rf2 2 = sp"
    using reload [of 2] sp2 by (simp add: saved_regs_def)
  ultimately have "trap_entry f h mcause mepc rf m s = Some (Mret epc rf m2 s')"
    using assms(2) call sp2
    by (simp add: trap_entry_def Let_def sp_def [symmetric] m1_def [symmetric] rf1_def [symmetric])
  then show ?thesis by blast
qed

section \<open>Entering, staying in and leaving a handler\<close>

text \<open>A clock edge at which nothing but interrupts could interrupt, and one that writes no control register either.\<close>

definition undisturbed :: "lsu_in \<times> irqs \<Rightarrow> back_end \<Rightarrow> bool" where
  "undisturbed z b \<longleftrightarrow>
     (let l = committing (fst z) b in \<not> with_excp l \<and> \<not> with_eret l \<and> \<not> irq_nmi (snd z))"

definition quiet :: "lsu_in \<times> irqs \<Rightarrow> back_end \<Rightarrow> bool" where
  "quiet z b \<longleftrightarrow> undisturbed z b \<and> \<not> cm2cs_csr_vld (committing (fst z) b)"

primrec quiet_run :: "(lsu_in \<times> irqs) list \<Rightarrow> back_end \<Rightarrow> bool" where
  "quiet_run [] b = True"
| "quiet_run (z # zs) b = (quiet z b \<and> quiet_run zs (back_step z b))"

text \<open>Interrupts closed, no trap under way, and what the trap has left for the handler.\<close>

definition in_handler :: "u32 \<Rightarrow> u32 \<Rightarrow> u32 \<Rightarrow> back_end \<Rightarrow> bool" where
  "in_handler status cause epc b \<longleftrightarrow>
     cs_mstatus (b_csr b) = status \<and> cs_mcause (b_csr b) = cause \<and> cs_mepc (b_csr b) = epc \<and> \<not> bit status 3
     \<and> \<not> t_flush (b_cmt b) \<and> \<not> t_trig (b_cmt b) \<and> \<not> t_exit (b_cmt b)"

lemma b_cmt_step: "b_cmt (back_step z b) = cmt_step (committing (fst z) b) (snd z) (b_csr b)"
  and b_csr_step: "b_csr (back_step z b) = csr_step (csr_port (committing (fst z) b) (snd z) (b_cmt b)) (b_csr b)"
  by (simp_all add: back_step_def Let_def)

lemma no_trap:
  assumes "\<not> bit (cs_mstatus c) 3 \<or> \<not> c_vld l" and "\<not> with_excp l" and "\<not> irq_nmi q \<or> \<not> c_vld l"
  shows "\<not> with_trap l q c"
  using assms by (auto simp: with_trap_def with_irq_def with_irq_ext_def with_irq_sft_def with_irq_tmr_def with_irq_nmi_def)

lemma flushed_not_committing: "t_flush (b_cmt b) \<Longrightarrow> \<not> c_vld (committing x b)"
  by (simp add: committing_def lsu_out_def lsu_port_def)

lemma handler_entered:
  assumes "with_irq l (snd z0) (b_csr b)" and "l = committing (fst z0) b"
    and "b1 = back_step z0 b"
  shows "\<exists>status. in_handler status (0x80000000 OR ucast (trap_code_irq l (snd z0) (b_csr b))) (c_pc_nxt l) (back_step z1 b1)
    \<and> (bit status 7 \<longleftrightarrow> bit (cs_mstatus (b_csr b1)) 3)"
proof -
  define status where "status = put_bit 3 False (put_bit 7 (bit (cs_mstatus (b_csr b1)) 3) (cs_mstatus (b_csr b1)))"
  have t: "t_trig (b_cmt b1)" "t_flush (b_cmt b1)" "t_type (b_cmt b1)" "t_mepc (b_cmt b1) = c_pc_nxt l"
    "t_code (b_cmt b1) = trap_code_irq l (snd z0) (b_csr b)"
    using assms by (simp_all add: b_cmt_step cmt_step_def with_trap_def)
  have "\<not> c_vld (committing (fst z1) b1)" using t(2) by (rule flushed_not_committing)
  then have cmt: "\<not> t_flush (b_cmt (back_step z1 b1)) \<and> \<not> t_trig (b_cmt (back_step z1 b1)) \<and> \<not> t_exit (b_cmt (back_step z1 b1))"
    using no_trap [of "b_csr b1" "committing (fst z1) b1" "snd z1"]
    by (simp add: b_cmt_step cmt_step_def with_excp_def with_eret_def)
  have csr: "cs_mstatus (b_csr (back_step z1 b1)) = status"
    "cs_mcause (b_csr (back_step z1 b1)) = 0x80000000 OR ucast (trap_code_irq l (snd z0) (b_csr b))"
    "cs_mepc (b_csr (back_step z1 b1)) = c_pc_nxt l"
    using t by (simp_all add: b_csr_step csr_step_def csr_port_def mstatus_nxt_def mcause_nxt_def mepc_nxt_def Let_def status_def)
  have "\<not> bit status 3" "bit status 7 \<longleftrightarrow> bit (cs_mstatus (b_csr b1)) 3"
    by (simp_all add: status_def bit_put_bit)
  with cmt csr show ?thesis by (auto simp: in_handler_def)
qed

lemma handler_stays:
  assumes "in_handler status cause epc b" and "undisturbed z b"
    and "cm2cs_csr_vld (committing (fst z) b) \<longrightarrow> cm2cs_csr_idx (committing (fst z) b) = 0x341"
  shows "in_handler status cause
    (if cm2cs_csr_vld (committing (fst z) b) then cm2cs_csr_data (committing (fst z) b) else epc) (back_step z b)"
proof -
  note h = assms(1) [unfolded in_handler_def] assms(2) [unfolded undisturbed_def Let_def]
  have "\<not> with_trap (committing (fst z) b) (snd z) (b_csr b)"
    using h by (intro no_trap) auto
  then have "\<not> t_flush (b_cmt (back_step z b)) \<and> \<not> t_trig (b_cmt (back_step z b)) \<and> \<not> t_exit (b_cmt (back_step z b))"
    using h by (simp add: b_cmt_step cmt_step_def)
  moreover have "cs_mstatus (b_csr (back_step z b)) = status \<and> cs_mcause (b_csr (back_step z b)) = cause"
    "cs_mepc (b_csr (back_step z b)) =
      (if cm2cs_csr_vld (committing (fst z) b) then cm2cs_csr_data (committing (fst z) b) else epc)"
    using h assms(3)
    by (auto simp: b_csr_step csr_step_def csr_port_def mstatus_nxt_def mcause_nxt_def mepc_nxt_def Let_def op_csr_iff)
  ultimately show ?thesis using h by (simp add: in_handler_def)
qed

lemma handler_runs: "in_handler status cause epc b \<Longrightarrow> quiet_run zs b \<Longrightarrow> in_handler status cause epc (fold back_step zs b)"
proof (induction zs arbitrary: b)
  case (Cons z zs)
  then show ?case using handler_stays [of status cause epc b z] by (simp add: quiet_def)
qed simp

lemma handler_left:
  assumes "in_handler status cause epc b" and "with_eret (committing (fst z) b)" and "\<not> with_excp (committing (fst z) b)"
    and "\<not> irq_nmi (snd z)"
  shows "t_flush (b_cmt (back_step z b)) \<and> t_pc (b_cmt (back_step z b)) = epc"
    and "\<not> cm2cs_csr_vld (committing (fst z) b) \<Longrightarrow> bit (cs_mstatus (b_csr (back_step z' (back_step z b)))) 3 = bit status 7"
proof -
  note h = assms(1) [unfolded in_handler_def]
  have n: "\<not> with_trap (committing (fst z) b) (snd z) (b_csr b)"
    using h assms(3,4) by (intro no_trap) auto
  show "t_flush (b_cmt (back_step z b)) \<and> t_pc (b_cmt (back_step z b)) = epc"
    using n assms(2) h by (simp add: b_cmt_step cmt_step_def)
  assume "\<not> cm2cs_csr_vld (committing (fst z) b)"
  then have "cs_mstatus (b_csr (back_step z b)) = status"
    using h by (simp add: b_csr_step csr_step_def csr_port_def mstatus_nxt_def Let_def)
  then show "bit (cs_mstatus (b_csr (back_step z' (back_step z b)))) 3 = bit status 7"
    using n assms(2) by (simp add: b_csr_step [of z'] b_cmt_step csr_step_def csr_port_def mstatus_nxt_def Let_def cmt_step_def bit_put_bit)
qed

section \<open>Interrupts\<close>

text \<open>The handler of the application that an interrupt reaches, by the priorities of the commit unit; the
  trap handler has none for the non-maskable one.\<close>

definition served :: "irq_handlers \<Rightarrow> ls2cm \<Rightarrow> irqs \<Rightarrow> csr_regs \<Rightarrow> soc \<Rightarrow> soc option" where
  "served h l q c s =
     (if with_irq_nmi l q then Some s
      else if with_irq_ext l q c then handle_ext_irq h s
      else if with_irq_sft l q c then handle_sft_irq h s
      else handle_tmr_irq h s)"

lemma dispatch:
  assumes "with_irq l q c"
  shows "handle_trap h (0x80000000 OR ucast (trap_code_irq l q c)) epc s = map_option (Resume epc) (served h l q c s)"
  using assms by (auto simp: trap_code_irq_def served_def handle_trap_def with_irq_def)

definition entry_epc :: "entry_result option \<Rightarrow> u32" where
  "entry_epc r = (case r of Some (Mret epc rf m s) \<Rightarrow> epc | _ \<Rightarrow> 0)"

text \<open>
  C3: An interrupt taken at the commit of an instruction is transparent. The core goes to the trap
  vector with interrupts closed; however many cycles the trap entry takes, and whatever requests come
  meanwhile, nothing but a non-maskable interrupt could nest; exactly the application's handler of the
  class with the highest priority runs; at \<open>mret\<close> every register has its old value, the core goes on
  behind the interrupted instruction, and the interrupt enable is what it was.
\<close>

theorem interrupt_transparent:
  assumes "l = committing (fst z0) b" and "with_irq l (snd z0) (b_csr b)"
    and "b1 = back_step z0 b" and "b2 = back_step z1 b1"
    and "quiet_run zs b2" and "b3 = fold back_step zs b2"
    and "undisturbed zw b3" and "cm2cs_csr_vld (committing (fst zw) b3)" and "cm2cs_csr_idx (committing (fst zw) b3) = 0x341"
    and "cm2cs_csr_data (committing (fst zw) b3) = entry_epc (trap_entry f h (cs_mcause (b_csr b3)) (cs_mepc (b_csr b3)) rf m s)"
    and "quiet_run zs' (back_step zw b3)" and "b5 = fold back_step zs' (back_step zw b3)"
    and "with_eret (committing (fst zr) b5)" and "\<not> with_excp (committing (fst zr) b5)" and "\<not> irq_nmi (snd zr)"
    and "\<not> cm2cs_csr_vld (committing (fst zr) b5)" and "b6 = back_step zr b5"
    and "follows_abi f" and "served h l (snd z0) (b_csr b) s = Some s'"
  shows "t_flush (b_cmt b1) \<and> t_pc (b_cmt b1) = mtvec_pc l (snd z0) (b_csr b)
    \<and> (\<exists>m'. trap_entry f h (cs_mcause (b_csr b3)) (cs_mepc (b_csr b3)) rf m s = Some (Mret (c_pc_nxt l) rf m' s'))
    \<and> t_flush (b_cmt b6) \<and> t_pc (b_cmt b6) = c_pc_nxt l
    \<and> (bit (cs_mstatus (b_csr (back_step ze b6))) 3 \<longleftrightarrow> bit (cs_mstatus (b_csr b1)) 3)"
proof -
  let ?cause = "0x80000000 OR ucast (trap_code_irq l (snd z0) (b_csr b)) :: u32"
  obtain status where 2: "in_handler status ?cause (c_pc_nxt l) b2" and mie: "bit status 7 \<longleftrightarrow> bit (cs_mstatus (b_csr b1)) 3"
    using handler_entered [OF assms(2,1,3)] assms(4) by blast
  then have 3: "in_handler status ?cause (c_pc_nxt l) b3"
    using handler_runs assms(5,6) by blast
  have "handle_trap h ?cause (c_pc_nxt l) s = Some (Resume (c_pc_nxt l) s')"
    using dispatch [OF assms(2)] assms(19) by simp
  from trap_entry_restores [OF assms(18) this]
  obtain m' where entry: "trap_entry f h (cs_mcause (b_csr b3)) (cs_mepc (b_csr b3)) rf m s = Some (Mret (c_pc_nxt l) rf m' s')"
    using 3 by (auto simp: in_handler_def)
  have "in_handler status ?cause (c_pc_nxt l) (back_step zw b3)"
    using handler_stays [OF 3 assms(7)] assms(8-10) entry by (simp add: entry_epc_def)
  then have 5: "in_handler status ?cause (c_pc_nxt l) b5"
    using handler_runs assms(11,12) by blast
  show ?thesis
    using handler_left(1) [OF 5 assms(13-15)] handler_left(2) [OF 5 assms(13-16), of ze] assms(1-3,17) entry mie
    by (auto simp: b_cmt_step cmt_step_def with_trap_def)
qed

text \<open>An external interrupt at an addition, with the shortest handler the core allows.\<close>

definition idle_in :: lsu_in where
  "idle_in = (offer no_ex2ls)\<lparr>v_vld := False\<rparr>"

definition ext_request :: irqs where
  "ext_request = no_irqs\<lparr>irq_ext := True\<rparr>"

definition demo_start :: back_end where
  "demo_start = back_step (offer (no_ex2ls\<lparr>e_pc := 0x80000040, e_pc_nxt := 0x80000044\<rparr>), no_irqs)
     (back_reset\<lparr>b_csr := csr_reset\<lparr>cs_mstatus := 0x1888, cs_mie := 0x800, cs_mtvec := 0x80000100\<rparr>\<rparr>)"

definition demo_entered :: back_end where
  "demo_entered = back_step (idle_in, ext_request) (back_step (idle_in, ext_request) demo_start)"

definition demo_body :: "(lsu_in \<times> irqs) list" where
  "demo_body = [(offer (no_ex2ls\<lparr>e_csr_vld := True, e_csr_idx := 0x341, e_csr_data := 0x80000044\<rparr>), ext_request)]"

definition demo_return :: lsu_in where
  "demo_return = offer (no_ex2ls\<lparr>e_op_mret := True\<rparr>)"

definition demo_handled :: back_end where
  "demo_handled = fold back_step demo_body demo_entered"

definition demo_leaving :: back_end where
  "demo_leaving = back_step (demo_return, ext_request) demo_handled"

lemma demo_runs:
  "with_irq (committing idle_in demo_start) ext_request (b_csr demo_start)"
  "\<not> with_irq_nmi (committing idle_in demo_start) ext_request"
  "with_irq_ext (committing idle_in demo_start) ext_request (b_csr demo_start)"
  "c_pc_nxt (committing idle_in demo_start) = 0x80000044"
  "quiet_run demo_body demo_entered"
  "undisturbed (demo_return, ext_request) demo_handled"
  "cm2cs_csr_vld (committing demo_return demo_handled)"
  "cm2cs_csr_idx (committing demo_return demo_handled) = 0x341"
  "cm2cs_csr_data (committing demo_return demo_handled) = 0x80000044"
  "cs_mcause (b_csr demo_handled) = 0x80000000 OR 11"
  "cs_mepc (b_csr demo_handled) = 0x80000044"
  "with_eret (committing idle_in demo_leaving)"
  "\<not> with_excp (committing idle_in demo_leaving)"
  "\<not> irq_nmi ext_request"
  "\<not> cm2cs_csr_vld (committing idle_in demo_leaving)"
  "bit (cs_mstatus (b_csr (back_step (idle_in, ext_request) demo_start))) 3"
  by code_simp+

theorem interrupt_transparent_witness:
  "(\<exists>m'. trap_entry (\<lambda>x. x) weak_handlers (0x80000000 OR 11) 0x80000044 (\<lambda>r. ucast r) (\<lambda>a. 0) (soc_reset (\<lambda>_. [])) =
      Some (Mret 0x80000044 (\<lambda>r. ucast r) m' (soc_reset (\<lambda>_. []))))
    \<and> t_pc (b_cmt (back_step (idle_in, ext_request) demo_leaving)) = 0x80000044
    \<and> bit (cs_mstatus (b_csr (back_step (idle_in, ext_request) (back_step (idle_in, ext_request) demo_leaving)))) 3"
proof -
  have abi: "follows_abi (\<lambda>x. x)" by (simp add: follows_abi_def)
  have "handle_trap weak_handlers (0x80000000 OR 11) 0x80000044 (soc_reset (\<lambda>_. [])) = Some (Resume 0x80000044 (soc_reset (\<lambda>_. [])))"
    by (simp add: handle_trap_def weak_handlers_def)
  then obtain m' where entry: "trap_entry (\<lambda>x. x) weak_handlers (0x80000000 OR 11) 0x80000044 (\<lambda>r. ucast r) (\<lambda>a. 0) (soc_reset (\<lambda>_. [])) =
      Some (Mret 0x80000044 (\<lambda>r. ucast r) m' (soc_reset (\<lambda>_. [])))"
    using trap_entry_restores [OF abi] by blast
  have served: "served weak_handlers (committing (fst (idle_in, ext_request)) demo_start) (snd (idle_in, ext_request)) (b_csr demo_start)
      (soc_reset (\<lambda>_. [])) = Some (soc_reset (\<lambda>_. []))"
    using demo_runs(2,3) by (simp add: served_def weak_handlers_def)
  show ?thesis
    using interrupt_transparent [OF refl _ refl _ _ _ _ _ _ _ _ _ _ _ _ _ refl abi served, where ?z1.0 = "(idle_in, ext_request)"
        and ?b2.0 = demo_entered and zs = demo_body and ?b3.0 = demo_handled and zw = "(demo_return, ext_request)" and zs' = "[]"
        and ?b5.0 = demo_leaving and zr = "(idle_in, ext_request)" and ze = "(idle_in, ext_request)" and rf = "\<lambda>r. ucast r"
        and m = "\<lambda>a. 0"] demo_runs entry
    by (simp add: demo_entered_def demo_handled_def demo_leaving_def entry_epc_def)
qed

end
