(* ===== verification/Spec2Isabelle.thy ===== *)
theory Spec2Isabelle
  imports
    Prelude
    Printf
    Printf_Spec
    Queue
    Devices
    Soc
    Uv_Sys
    Port_Interface
    Uv_Sys_Correct
    Uv_Irq
    Libc_Stubs
    CoreMark_Util
    CoreMark_State
    CoreMark_Matrix
    CoreMark_List
    CoreMark_List_Correct
    CoreMark_Bench
    CoreMark_Init
    CoreMark_Main
    CoreMark_Main_Correct
    Dhrystone
    Dhrystone_Correct
    Register_Map
    Encoding
    Encoding_Correct
    Test_Apps
    Test_Apps_Correct
    Core_Units
    Core_Divider
    Core_Decode
    Core_Execute
    Core_Isa
    Core_Bypass
    Core_Csr
    Core_Lsu
    Core_Commit
    Core_Trap
begin

text \<open>
  A verification development for the Uranium-235 repository: a RISC-V processor in Verilog, its system
  on chip, the driver library in C, and the C programs that run on it.

  \<^bold>\<open>The parts and how they interact.\<close> A program under \<^verbatim>\<open>src/software/app\<close> calls the driver
  library \<^verbatim>\<open>src/software/driver/src/uv_sys.c\<close> and the C library's lower end in the same directory
  (\<^verbatim>\<open>printf.c\<close>, \<^verbatim>\<open>write.c\<close>, \<^verbatim>\<open>malloc.c\<close>, \<^verbatim>\<open>handler.c\<close> and others). These read and write device registers
  through the structures and macros of \<^verbatim>\<open>src/software/driver/include/uv_sys.h\<close> and \<^verbatim>\<open>uv_irq.h\<close>. A bus access
  reaches a register block of \<^verbatim>\<open>src/design/dev\<close>; the blocks of the UART and of the SPI controllers keep their
  data in the ring buffer \<^verbatim>\<open>src/design/mem/uv_queue.v\<close>. Between two accesses the hardware goes on: the timer
  counts, transmitters and receivers move data, interrupts arrive. The instructions themselves are those of
  \<^verbatim>\<open>src/software/driver/include/encoding.h\<close>, and the core in \<^verbatim>\<open>src/design/core\<close> decodes, executes and commits them. Interrupts enter at the commit, through
  \<^verbatim>\<open>crt.S\<close> to \<^verbatim>\<open>handler.c\<close> and the handlers of the application.

  \<^bold>\<open>Theories.\<close>

  \<^item> \<open>Prelude\<close> holds the integer types of the target (RV32IM, ilp32), the fact collections and lemmas on
    words; \<open>Arrays\<close> the failing array accesses and counting loops of the C code.
  \<^item> \<open>Printf\<close> models \<^verbatim>\<open>printf.c\<close> with every conversion, the output function and its datum being parameters
    as in the source; its locale \<open>char_sink\<close> says what an output function must do, and is interpreted on the
    buffer of \<open>sprintf\<close> there and on the console in \<open>Libc_Stubs\<close>. \<open>Printf_Spec\<close> describes the printed text
    independently, by positional notation and padding, and shows that the printer refines it.
  \<^item> \<open>Queue\<close> models one clock edge of \<^verbatim>\<open>uv_queue.v\<close> and shows that the ring refines a bounded list; the locale
    \<open>bounded_fifo\<close> is what the register blocks use. \<open>Devices\<close> models the register blocks \<^verbatim>\<open>uv_slc.v\<close>,
    \<^verbatim>\<open>uv_uart_reg.v\<close> and \<^verbatim>\<open>uv_spi_reg.v\<close>, one transaction at a time. \<open>Soc\<close> puts them behind their addresses and
    lets the environment \<open>env\<close> move them before every access (\<open>sync\<close>).
  \<^item> \<open>Uv_Sys\<close> models every function of \<^verbatim>\<open>uv_sys.c\<close>. \<open>Port_Interface\<close> states what a serial port promises as
    the locale \<open>serial_port\<close>, proves the transfers in it, and interprets it on the UART and on both SPI
    controllers. \<open>Uv_Sys_Correct\<close> derives that transfers return under a fair partner and deliver in order,
    that the timer is read and written exactly, and what the configuration functions leave in the registers.
  \<^item> \<open>Uv_Irq\<close> models \<^verbatim>\<open>uv_irq.h\<close>: the core's enable bits and the register macros of external interrupts.
    \<open>Register_Map\<close> models the rest of \<^verbatim>\<open>uv_sys.h\<close> and shows that macros, structures and the blocks agree.
  \<^item> \<open>Libc_Stubs\<close> models the system calls, \<open>write_hex\<close>, the exit and trap handlers, \<open>sbrk\<close> and \<open>malloc\<close>.
  \<^item> \<open>CoreMark_Util\<close>, \<open>CoreMark_State\<close>, \<open>CoreMark_Matrix\<close> and \<open>CoreMark_List\<close> model the files
    \<^verbatim>\<open>core_util.c\<close>, \<^verbatim>\<open>core_state.c\<close>, \<^verbatim>\<open>core_matrix.c\<close> and \<^verbatim>\<open>core_list_join.c\<close>. The list lives in a store from
    addresses to cells, and \<open>CoreMark_List_Correct\<close> proves the destructive list operations with segments of
    linked cells; merge sort is proved once in the locale \<open>caching_comparison\<close>, interpreted on both
    comparison functions. \<open>CoreMark_Init\<close> and \<open>CoreMark_Bench\<close> follow the list through set-up and benchmark;
    \<open>CoreMark_Main\<close> and \<open>CoreMark_Main_Correct\<close> compose \<^verbatim>\<open>core_main.c\<close> and \<^verbatim>\<open>core_portme.c\<close> into the program.
  \<^item> \<open>Dhrystone\<close> and \<open>Dhrystone_Correct\<close> treat \<^verbatim>\<open>dhry_1.c\<close> and \<^verbatim>\<open>dhry_2.c\<close>.
  \<^item> \<open>Test_Apps\<close> and \<open>Test_Apps_Correct\<close> treat \<open>HelloWorld\<close>, \<open>TestTimer\<close>, \<open>TestUART\<close> and \<open>TestSPI\<close> as
    interleavings of the main program with its interrupt handler; the locale \<open>echo_device\<close> is what both
    echo tests need of their device.
  \<^item> \<open>Encoding\<close> and \<open>Encoding_Correct\<close> hold the tables of \<^verbatim>\<open>encoding.h\<close> and show that no word is two
    instructions and no field overlaps another.
  \<^item> \<open>Core_Units\<close> models \<^verbatim>\<open>uv_alu.v\<close>, \<^verbatim>\<open>uv_mul.v\<close>, \<^verbatim>\<open>uv_pipe.v\<close> and \<^verbatim>\<open>uv_div.v\<close>; \<open>Core_Divider\<close> proves the divider.
    \<open>Core_Decode\<close> models the decoder of \<^verbatim>\<open>uv_idu.v\<close>, \<open>Core_Execute\<close> the data paths of \<^verbatim>\<open>uv_exu.v\<close>, \<open>Core_Isa\<close>
    shows that the two carry out the instructions of the tables, and \<open>Core_Bypass\<close> that the bypass network
    hides the delay of the register file.
  \<^item> \<open>Core_Csr\<close> models the control registers \<^verbatim>\<open>uv_csr.v\<close>, \<open>Core_Lsu\<close> the load-store unit \<^verbatim>\<open>uv_lsu.v\<close>, and
    \<open>Core_Commit\<close> the commit unit \<^verbatim>\<open>uv_cmt.v\<close>, the register file \<^verbatim>\<open>uv_regfile.v\<close> and the wiring of the three in
    \<^verbatim>\<open>uv_ucore.v\<close> (\<open>back_step\<close>, one clock edge); it follows a control-register instruction through them and
    shows that the macros of \<^verbatim>\<open>uv_irq.h\<close> do to the hardware what \<open>Uv_Irq\<close> says. \<open>Core_Trap\<close> adds \<open>trap_entry\<close>
    of \<^verbatim>\<open>crt.S\<close> and \<open>handle_trap\<close> of \<open>Libc_Stubs\<close>, and follows an interrupt from the request to \<open>mret\<close>.

  \<^bold>\<open>State and effects.\<close> A C function is a function on the state it touches: the machine \<open>soc\<close>, the store of the
  list, the arrays of the matrices, the globals of Dhrystone. \<open>None\<close> stands for behaviour outside the
  language or the model: an array index out of range, a null pointer, an address behind which no modelled
  register lies, a loop that does not end. Machine integers are words of their width; C's signed operations
  read them with \<open>sint\<close>.

  \<^bold>\<open>Loops.\<close> A loop over a counter is structural or has a measure. Loops that may run forever (polling a
  status register, walking a list that might be cyclic, the loop of \<open>Func_2\<close>) are partial functions in
  \<open>option\<close>, so that not returning is \<open>None\<close>, and the theorems say that they return: under a fair
  environment for the polls, on a well-formed list for the walks. No fuel is used. The hardware has fixed
  bounds instead: eight entries in a queue, three stages in the multiplier, thirty-three rounds in the
  divider.

  \<^bold>\<open>What the groups of lemmas show.\<close> Device lemmas (\<open>*_ok\<close>) keep the invariants of queues and ports;
  \<open>decode_*\<close> resolve the addresses of the C structures; the lemmas of \<open>serial_port\<close> give progress and order of a
  transfer; \<open>seg\<close> lemmas split and join list segments; \<open>merge_loop\<close>, \<open>pass_loop\<close> and \<open>sort_loop\<close> lemmas are
  the invariants of merge sort; \<open>exec_*\<close> of \<open>Core_Isa\<close> give the outcome of one class of instructions each;
  \<open>csr_write_view\<close> and \<open>csr_quiet_view\<close> say what a clock edge leaves in the control registers as software reads
  them, \<open>handler_entered\<close>, \<open>handler_stays\<close> and \<open>handler_left\<close> are the three steps of a trap; the lemmas under
  departures record where a unit does not do what the architecture asks for. The
  properties are the numbered theorems; each has beside it a witness that applies it to concrete input where it
  has hypotheses.

  \<^bold>\<open>Not modelled.\<close> Of the core: fetching and branch prediction, the stall and flush control of the stages
  before the load-store unit, and the bus unit (their correctness is a statement about all stages and the
  memories together, of which only single units and the back end are treated here); that an instruction offered
  to the back end is the one the program comes to next is therefore not stated, and the code the compiler makes
  of \<open>handle_trap\<close> is a parameter that follows the calling convention. Of the devices: the serial lines behind the queues of \<^verbatim>\<open>uv_uart_tx.v\<close>, \<^verbatim>\<open>uv_uart_rx.v\<close> and
  \<^verbatim>\<open>uv_spi_rtx.v\<close>, which the environment replaces, and the GPIO, I2C, general timer, watchdog and debug blocks,
  for which the repository has no software. Start-up code (\<^verbatim>\<open>boot.S\<close> and \<^verbatim>\<open>crt.S\<close> up to \<open>main\<close>), linker scripts, test
  benches, the imported \<^verbatim>\<open>riscv-tests\<close> and the small tool \<^verbatim>\<open>bin2float.c\<close>, which only calls the C library, are
  left aside. The double-precision arithmetic of \<open>print_double\<close> and of \<open>time_in_secs\<close> is a parameter. Debug
  output of CoreMark that no configuration compiles is left out. Of \<^verbatim>\<open>dhry.h\<close>, most lines are the history of the
  benchmark in comments, and of the CoreMark files about a third is documentation.
\<close>

end
